(* ===== verification/GDB_Prelude.thy ===== *)
theory GDB_Prelude
  imports
    Main
    "HOL-Library.Word"
    "HOL-Library.Char_ord"
    "HOL-Library.List_Lexorder"
begin

text \<open>
  Shared vocabulary of the development: Rust's \<open>u8\<close>, byte slices and strings, the
  \<open>Result\<close> type, the parts of the standard library the sources call (decimal and
  hexadecimal formatting, \<open>from_str_radix\<close>, \<open>from_utf8\<close>, \<open>strip_prefix\<close>,
  saturating arithmetic), and the generic facts about lists that the component theories
  share.

  A \<open>u8\<close> is an 8-bit word.  A Rust \<open>String\<close> is its UTF-8 byte sequence, written as
  a HOL \<open>string\<close> (one \<open>char\<close> per byte), so \<open>len()\<close> is \<open>length\<close>.
  \<open>usize\<close> and \<open>u64\<close> values are \<open>nat\<close>; where the code saturates or refuses on
  overflow the bound \<open>2 ^ 64\<close> is written out.
\<close>

unbundle bit_operations_syntax

named_theorems result_simps \<open>unfolding of the \<open>?\<close> operator\<close>
named_theorems advance_intros \<open>a parser step never moves its offset backwards\<close>

section \<open>Types\<close>

type_synonym u8 = "8 word"
type_synonym bytes = "u8 list"
type_synonym ('e, 'a) res = "'e + 'a"

abbreviation Ok :: "'a \<Rightarrow> ('e, 'a) res" where "Ok \<equiv> Inr"
abbreviation Err :: "'e \<Rightarrow> ('e, 'a) res" where "Err \<equiv> Inl"

text \<open>The \<open>?\<close> operator: an error ends the function with that error.\<close>

fun bind_res :: "('e, 'a) res \<Rightarrow> ('a \<Rightarrow> ('e, 'b) res) \<Rightarrow> ('e, 'b) res" where
  "bind_res (Inl e) f = Inl e"
| "bind_res (Inr x) f = f x"

definition is_ok :: "('e, 'a) res \<Rightarrow> bool" where
  "is_ok r = (case r of Inl _ \<Rightarrow> False | Inr _ \<Rightarrow> True)"

definition ok_or :: "'e \<Rightarrow> 'a option \<Rightarrow> ('e, 'a) res" where
  "ok_or e x = (case x of None \<Rightarrow> Inl e | Some v \<Rightarrow> Inr v)"

section \<open>Bytes and characters\<close>

definition byte_of_char :: "char \<Rightarrow> u8" where
  "byte_of_char c = word_of_nat (of_char c)"

definition char_of_byte :: "u8 \<Rightarrow> char" where
  "char_of_byte b = char_of (unat b)"

text \<open>\<open>str::as_bytes\<close>, and the string whose bytes are given.\<close>

definition as_bytes :: "string \<Rightarrow> bytes" where
  "as_bytes s = map byte_of_char s"

definition string_of_bytes :: "bytes \<Rightarrow> string" where
  "string_of_bytes bs = map char_of_byte bs"

text \<open>The ASCII bytes the MI grammar is written with.\<close>

abbreviation b_nl :: u8 where "b_nl \<equiv> 0x0A"
abbreviation b_cr :: u8 where "b_cr \<equiv> 0x0D"
abbreviation b_tab :: u8 where "b_tab \<equiv> 0x09"
abbreviation b_quote :: u8 where "b_quote \<equiv> 0x22"
abbreviation b_backslash :: u8 where "b_backslash \<equiv> 0x5C"
abbreviation b_comma :: u8 where "b_comma \<equiv> 0x2C"
abbreviation b_equals :: u8 where "b_equals \<equiv> 0x3D"
abbreviation b_lbrace :: u8 where "b_lbrace \<equiv> 0x7B"
abbreviation b_rbrace :: u8 where "b_rbrace \<equiv> 0x7D"
abbreviation b_lbracket :: u8 where "b_lbracket \<equiv> 0x5B"
abbreviation b_rbracket :: u8 where "b_rbracket \<equiv> 0x5D"

definition is_ascii_digit :: "u8 \<Rightarrow> bool" where
  "is_ascii_digit b \<longleftrightarrow> 0x30 \<le> b \<and> b \<le> 0x39"

definition is_ascii_alphanumeric :: "u8 \<Rightarrow> bool" where
  "is_ascii_alphanumeric b \<longleftrightarrow>
     is_ascii_digit b \<or> (0x41 \<le> b \<and> b \<le> 0x5A) \<or> (0x61 \<le> b \<and> b \<le> 0x7A)"

text \<open>\<open>u8::is_ascii_whitespace\<close>: space, tab, line feed, form feed, carriage return.\<close>

definition is_ascii_whitespace :: "u8 \<Rightarrow> bool" where
  "is_ascii_whitespace b \<longleftrightarrow> b \<in> {0x20, 0x09, 0x0A, 0x0C, 0x0D}"

definition trim_ascii :: "bytes \<Rightarrow> bytes" where
  "trim_ascii bs =
     rev (dropWhile is_ascii_whitespace (rev (dropWhile is_ascii_whitespace bs)))"

text \<open>\<open>std::str::from_utf8\<close> accepts exactly the well-formed UTF-8 byte sequences
  (Unicode, table 3-7).\<close>

definition utf8_cont :: "u8 \<Rightarrow> bool" where
  "utf8_cont b \<longleftrightarrow> 0x80 \<le> b \<and> b \<le> 0xBF"

fun utf8_valid :: "bytes \<Rightarrow> bool" where
  "utf8_valid [] = True"
| "utf8_valid (b0 # rest) =
     (if b0 < 0x80 then utf8_valid rest
      else if 0xC2 \<le> b0 \<and> b0 \<le> 0xDF then
        (case rest of b1 # r \<Rightarrow> utf8_cont b1 \<and> utf8_valid r | _ \<Rightarrow> False)
      else if 0xE0 \<le> b0 \<and> b0 \<le> 0xEF then
        (case rest of
           b1 # b2 # r \<Rightarrow>
             utf8_cont b1 \<and> utf8_cont b2 \<and>
             (b0 = 0xE0 \<longrightarrow> 0xA0 \<le> b1) \<and> (b0 = 0xED \<longrightarrow> b1 \<le> 0x9F) \<and> utf8_valid r
         | _ \<Rightarrow> False)
      else if 0xF0 \<le> b0 \<and> b0 \<le> 0xF4 then
        (case rest of
           b1 # b2 # b3 # r \<Rightarrow>
             utf8_cont b1 \<and> utf8_cont b2 \<and> utf8_cont b3 \<and>
             (b0 = 0xF0 \<longrightarrow> 0x90 \<le> b1) \<and> (b0 = 0xF4 \<longrightarrow> b1 \<le> 0x8F) \<and> utf8_valid r
         | _ \<Rightarrow> False)
      else False)"

definition from_utf8 :: "bytes \<Rightarrow> string option" where
  "from_utf8 bs = (if utf8_valid bs then Some (string_of_bytes bs) else None)"

section \<open>Strings and numbers\<close>

fun starts_with :: "'a list \<Rightarrow> 'a list \<Rightarrow> bool" where
  "starts_with s [] = True"
| "starts_with [] (p # ps) = False"
| "starts_with (c # cs) (p # ps) = (c = p \<and> starts_with cs ps)"

definition strip_prefix :: "'a list \<Rightarrow> 'a list \<Rightarrow> 'a list option" where
  "strip_prefix p s = (if starts_with s p then Some (drop (length p) s) else None)"

text \<open>\<open>Iterator::position\<close>: the index of the first element that satisfies the test.\<close>

fun position :: "('a \<Rightarrow> bool) \<Rightarrow> 'a list \<Rightarrow> nat option" where
  "position P [] = None"
| "position P (x # xs) = (if P x then Some 0 else map_option Suc (position P xs))"

text \<open>\<open>char::to_digit(radix)\<close>.\<close>

definition to_digit :: "nat \<Rightarrow> char \<Rightarrow> nat option" where
  "to_digit radix c =
     (let n = of_char c :: nat;
          d = (if 48 \<le> n \<and> n \<le> 57 then n - 48
               else if 97 \<le> n \<and> n \<le> 122 then n - 87
               else if 65 \<le> n \<and> n \<le> 90 then n - 55
               else radix)
      in if d < radix then Some d else None)"

fun digits_value :: "nat \<Rightarrow> nat \<Rightarrow> string \<Rightarrow> nat option" where
  "digits_value radix acc [] = Some acc"
| "digits_value radix acc (c # cs) =
     (case to_digit radix c of
        None \<Rightarrow> None
      | Some d \<Rightarrow> digits_value radix (acc * radix + d) cs)"

text \<open>\<open>uN::from_str_radix\<close>: one leading plus sign is accepted when digits follow, the
  empty string and any other character are refused, and so is a number of more than
  \<open>bits\<close> bits.  \<open>str::parse\<close> is the case of radix 10.\<close>

definition from_str_radix :: "nat \<Rightarrow> nat \<Rightarrow> string \<Rightarrow> nat option" where
  "from_str_radix bits radix s =
     (let ds = (case s of c # c' # r \<Rightarrow> if c = CHR ''+'' then c' # r else s | _ \<Rightarrow> s)
      in if ds = [] then None
         else case digits_value radix 0 ds of
                None \<Rightarrow> None
              | Some n \<Rightarrow> if n < 2 ^ bits then Some n else None)"

text \<open>\<open>format!("{n}")\<close> and the fixed-width hexadecimal form \<open>format!("{n:016x}")\<close>.\<close>

definition digit_char :: "nat \<Rightarrow> char" where
  "digit_char d = (if d < 10 then char_of (48 + d) else char_of (87 + d))"

fun show_nat :: "nat \<Rightarrow> string" where
  "show_nat n =
     (if n < 10 then [digit_char n] else show_nat (n div 10) @ [digit_char (n mod 10)])"

declare show_nat.simps [simp del]

fun hex_fixed :: "nat \<Rightarrow> nat \<Rightarrow> string" where
  "hex_fixed 0 n = []"
| "hex_fixed (Suc w) n = hex_fixed w (n div 16) @ [digit_char (n mod 16)]"

definition u64_max :: nat where
  "u64_max = 2 ^ 64 - 1"

definition saturating_add :: "nat \<Rightarrow> nat \<Rightarrow> nat" where
  "saturating_add a b = min (a + b) u64_max"

section \<open>Facts\<close>

lemma is_ok_simps [simp]: "is_ok (Inr x)" "\<not> is_ok (Inl e)"
  by (simp_all add: is_ok_def)

lemma bind_res_eq_Inr [result_simps]:
  "bind_res r f = Inr y \<longleftrightarrow> (\<exists>x. r = Inr x \<and> f x = Inr y)"
  by (cases r) auto

lemma bind_res_eq_Inl [result_simps]:
  "bind_res r f = Inl e \<longleftrightarrow> r = Inl e \<or> (\<exists>x. r = Inr x \<and> f x = Inl e)"
  by (cases r) auto

lemma of_char_less_256 [simp]: "of_char c < (256 :: nat)"
proof -
  have "of_char c mod 256 = (of_char c :: nat)"
    by (rule of_char_mod_256)
  then show ?thesis by (metis mod_less_divisor zero_less_numeral)
qed

lemma unat_byte_of_char [simp]: "unat (byte_of_char c) = of_char c"
  by (simp add: byte_of_char_def unat_of_nat of_char_mod_256)

lemma unat_u8_less [simp]: "unat (b :: u8) < 256"
  using unsigned_less [of b, where 'a = nat] by simp

lemma char_of_byte_of_char [simp]: "char_of_byte (byte_of_char c) = c"
  by (simp add: char_of_byte_def byte_of_char_def unat_of_nat of_char_mod_256)

lemma byte_of_char_of_byte [simp]: "byte_of_char (char_of_byte b) = b"
  by (simp add: byte_of_char_def char_of_byte_def)

lemma inj_char_of_byte [simp]: "char_of_byte a = char_of_byte b \<longleftrightarrow> a = b"
  by (metis byte_of_char_of_byte)

lemma as_bytes_string_of_bytes [simp]: "as_bytes (string_of_bytes bs) = bs"
  by (simp add: as_bytes_def string_of_bytes_def comp_def)

lemma string_of_bytes_as_bytes [simp]: "string_of_bytes (as_bytes s) = s"
  by (simp add: as_bytes_def string_of_bytes_def comp_def)

lemma length_as_bytes [simp]: "length (as_bytes s) = length s"
  by (simp add: as_bytes_def)

lemma length_string_of_bytes [simp]: "length (string_of_bytes bs) = length bs"
  by (simp add: string_of_bytes_def)

lemma as_bytes_append [simp]: "as_bytes (s @ t) = as_bytes s @ as_bytes t"
  by (simp add: as_bytes_def)

lemma as_bytes_simps [simp]:
  "as_bytes [] = []" "as_bytes (c # s) = byte_of_char c # as_bytes s"
  by (simp_all add: as_bytes_def)

lemma starts_with_iff: "starts_with s p \<longleftrightarrow> (\<exists>r. s = p @ r)"
  by (induction s p rule: starts_with.induct) auto

lemma starts_with_append [simp]: "starts_with (p @ s) p"
  by (auto simp: starts_with_iff)

lemma strip_prefix_append [simp]: "strip_prefix p (p @ s) = Some s"
  by (simp add: strip_prefix_def)

lemma strip_prefix_eq_Some: "strip_prefix p s = Some r \<longleftrightarrow> s = p @ r"
  by (auto simp: strip_prefix_def starts_with_iff)

lemma position_None: "position P xs = None \<longleftrightarrow> (\<forall>x \<in> set xs. \<not> P x)"
  by (induction xs) auto

lemma position_Some:
  "position P xs = Some n \<longleftrightarrow>
     (\<exists>l x r. xs = l @ x # r \<and> P x \<and> (\<forall>y \<in> set l. \<not> P y) \<and> length l = n)"
proof (induction xs arbitrary: n)
  case (Cons a xs)
  show ?case
  proof (cases "P a")
    case True
    then show ?thesis by (fastforce simp: Cons_eq_append_conv)
  next
    case False
    then show ?thesis
      by (cases n) (auto simp: Cons Cons_eq_append_conv, (metis length_Cons set_ConsD)+)
  qed
qed simp

subsection \<open>Decimal numbers\<close>

lemma to_digit_digit_char [simp]: "d < 10 \<Longrightarrow> to_digit 10 (digit_char d) = Some d"
  by (simp add: to_digit_def digit_char_def)

lemma digits_value_append:
  "digits_value radix acc (s @ t) =
     (case digits_value radix acc s of None \<Rightarrow> None | Some n \<Rightarrow> digits_value radix n t)"
  by (induction radix acc s rule: digits_value.induct) (auto split: option.splits)

lemma show_nat_not_Nil [simp]: "show_nat n \<noteq> []"
  by (subst show_nat.simps) simp

lemma digits_value_show_nat: "digits_value 10 0 (show_nat n) = Some n"
proof (induction n rule: show_nat.induct)
  case (1 n)
  then show ?case
    by (cases "n < 10")
      (simp_all add: show_nat.simps [of n] digits_value_append)
qed

lemma inj_show_nat [simp]: "show_nat m = show_nat n \<longleftrightarrow> m = n"
  by (metis digits_value_show_nat option.inject)

lemma digit_char_is_digit:
  "d < 10 \<Longrightarrow> is_ascii_digit (byte_of_char (digit_char d))"
  by (simp add: is_ascii_digit_def digit_char_def word_le_nat_alt)

lemma show_nat_digits: "\<forall>c \<in> set (show_nat n). is_ascii_digit (byte_of_char c)"
proof (induction n rule: show_nat.induct)
  case (1 n)
  then show ?case
    by (cases "n < 10") (auto simp: show_nat.simps [of n] digit_char_is_digit)
qed

lemma show_nat_no_plus: "CHR ''+'' \<notin> set (show_nat n)"
proof
  assume "CHR ''+'' \<in> set (show_nat n)"
  with show_nat_digits have "is_ascii_digit (byte_of_char (CHR ''+''))" by blast
  then show False by (simp add: is_ascii_digit_def byte_of_char_def)
qed

lemma from_str_radix_show_nat:
  "n < 2 ^ bits \<Longrightarrow> from_str_radix bits 10 (show_nat n) = Some n"
proof -
  assume "n < 2 ^ bits"
  moreover have "(case show_nat n of
      c # c' # r \<Rightarrow> if c = CHR ''+'' then c' # r else show_nat n | _ \<Rightarrow> show_nat n) = show_nat n"
    using show_nat_no_plus [of n] by (auto split: list.splits)
  ultimately show ?thesis
    by (simp add: from_str_radix_def digits_value_show_nat)
qed

lemma length_hex_fixed [simp]: "length (hex_fixed w n) = w"
  by (induction w n rule: hex_fixed.induct) auto

lemma to_digit_16_digit_char [simp]: "d < 16 \<Longrightarrow> to_digit 16 (digit_char d) = Some d"
  by (auto simp: to_digit_def digit_char_def)

lemma digits_value_hex_fixed:
  "n < 16 ^ w \<Longrightarrow> digits_value 16 0 (hex_fixed w n) = Some n"
proof (induction w n rule: hex_fixed.induct)
  case (2 w n)
  then have "n div 16 < 16 ^ w" by (simp add: less_mult_imp_div_less mult.commute)
  with 2 show ?case by (simp add: digits_value_append)
qed simp

lemma saturating_add_le: "saturating_add a b \<le> u64_max"
  by (simp add: saturating_add_def)

lemma saturating_add_exact: "a + b \<le> u64_max \<Longrightarrow> saturating_add a b = a + b"
  by (simp add: saturating_add_def)

end
