(* ===== verification/MI_Ast.thy ===== *)
theory MI_Ast
  imports GDB_Prelude
begin

text \<open>
  The GDB/MI data model of \<open>crates/gdb-ai-mi/src/ast.rs\<close> (records, results, values and
  their accessors) and the limits and errors of \<open>parser.rs\<close>, which the framer shares.
\<close>

section \<open>Limits and errors\<close>

record MiLimits =
  max_record_bytes :: nat
  max_depth :: nat
  max_decoded_string_bytes :: nat

definition default_limits :: MiLimits where
  "default_limits =
     \<lparr>max_record_bytes = 8 * 1024 * 1024, max_depth = 128,
      max_decoded_string_bytes = 8 * 1024 * 1024\<rparr>"

text \<open>\<open>Unexpected\<close> carries the offset, the expectation and the byte found there
  (\<open>DisplayByte\<close>: none at the end of the record).\<close>

datatype MiError =
    Empty
  | Unexpected nat string "u8 option"
  | InvalidToken nat
  | Limit string nat

section \<open>Records\<close>

datatype MiResult = MiResult (result_name: string) (result_value: MiValue)
and MiValue =
    Const bytes
  | Tuple "MiResult list"
  | ValueList "MiValue list"
  | ResultList "MiResult list"

datatype MiRecord =
    Result "nat option" string "MiResult list"
  | ExecAsync "nat option" string "MiResult list"
  | StatusAsync "nat option" string "MiResult list"
  | NotifyAsync "nat option" string "MiResult list"
  | ConsoleStream bytes
  | TargetStream bytes
  | LogStream bytes
  | Prompt

fun record_token :: "MiRecord \<Rightarrow> nat option" where
  "record_token (Result t _ _) = t"
| "record_token (ExecAsync t _ _) = t"
| "record_token (StatusAsync t _ _) = t"
| "record_token (NotifyAsync t _ _) = t"
| "record_token (ConsoleStream _) = None"
| "record_token (TargetStream _) = None"
| "record_token (LogStream _) = None"
| "record_token Prompt = None"

fun record_class :: "MiRecord \<Rightarrow> string option" where
  "record_class (Result _ c _) = Some c"
| "record_class (ExecAsync _ c _) = Some c"
| "record_class (StatusAsync _ c _) = Some c"
| "record_class (NotifyAsync _ c _) = Some c"
| "record_class (ConsoleStream _) = None"
| "record_class (TargetStream _) = None"
| "record_class (LogStream _) = None"
| "record_class Prompt = None"

fun record_results :: "MiRecord \<Rightarrow> MiResult list" where
  "record_results (Result _ _ rs) = rs"
| "record_results (ExecAsync _ _ rs) = rs"
| "record_results (StatusAsync _ _ rs) = rs"
| "record_results (NotifyAsync _ _ rs) = rs"
| "record_results (ConsoleStream _) = []"
| "record_results (TargetStream _) = []"
| "record_results (LogStream _) = []"
| "record_results Prompt = []"

section \<open>Value accessors\<close>

fun value_bytes :: "MiValue \<Rightarrow> bytes option" where
  "value_bytes (Const bs) = Some bs"
| "value_bytes (Tuple _) = None"
| "value_bytes (ValueList _) = None"
| "value_bytes (ResultList _) = None"

definition value_str :: "MiValue \<Rightarrow> string option" where
  "value_str v = Option.bind (value_bytes v) from_utf8"

fun value_results :: "MiValue \<Rightarrow> MiResult list option" where
  "value_results (Tuple rs) = Some rs"
| "value_results (ResultList rs) = Some rs"
| "value_results (Const _) = None"
| "value_results (ValueList _) = None"

definition find_result :: "MiResult list \<Rightarrow> string \<Rightarrow> MiValue option" where
  "find_result rs name = map_option result_value (find (\<lambda>r. result_name r = name) rs)"

definition find_str :: "MiResult list \<Rightarrow> string \<Rightarrow> string option" where
  "find_str rs name = Option.bind (find_result rs name) value_str"

section \<open>Facts\<close>

lemma find_result_first:
  "(\<forall>r \<in> set xs. result_name r \<noteq> n) \<Longrightarrow> find_result (xs @ MiResult n v # ys) n = Some v"
  by (induction xs) (auto simp: find_result_def)

lemma find_result_None: "find_result rs n = None \<longleftrightarrow> n \<notin> result_name ` set rs"
  by (auto simp: find_result_def find_None_iff)

end
