(* ===== verification/MI_Framer.thy ===== *)
theory MI_Framer
  imports MI_Ast
begin

text \<open>
  The byte framer of \<open>crates/gdb-ai-mi/src/framer.rs\<close>: it cuts GDB's output into
  newline-terminated records, whatever chunks the bytes arrive in, and enforces the
  record-size limit.  The abstract contract is \<open>split_lines\<close> over the whole stream;
  the locale \<open>chunked_stream\<close> states what a consumer of chunks must satisfy for its
  output not to depend on the chunking, and the framer is its instance.
\<close>

section \<open>Model\<close>

record MiFrames =
  frames_records :: "bytes list"
  frames_error :: "MiError option"

record MiFramer =
  fr_buffer :: bytes
  fr_scanned :: nat
  fr_max :: nat

definition framer_new :: "MiLimits \<Rightarrow> MiFramer" where
  "framer_new limits = \<lparr>fr_buffer = [], fr_scanned = 0, fr_max = max_record_bytes limits\<rparr>"

text \<open>Lines 66--75 of the loop: the newline and one trailing carriage return are dropped,
  an empty record is not delivered.\<close>

definition strip_cr :: "bytes \<Rightarrow> bytes" where
  "strip_cr l = (if l \<noteq> [] \<and> last l = b_cr then butlast l else l)"

function frame_loop :: "MiFramer \<Rightarrow> bytes list \<Rightarrow> MiError option \<times> MiFramer \<times> bytes list" where
  "frame_loop f records =
     (case position (\<lambda>b. b = b_nl) (drop (fr_scanned f) (fr_buffer f)) of
        None \<Rightarrow> (None, f, records)
      | Some relative \<Rightarrow>
          let newline = fr_scanned f + relative in
          if newline > fr_max f then (Some (Limit ''record bytes'' (fr_max f)), f, records)
          else
            let record' = strip_cr (butlast (take (newline + 1) (fr_buffer f)));
                f' = f\<lparr>fr_buffer := drop (newline + 1) (fr_buffer f), fr_scanned := 0\<rparr>
            in frame_loop f' (if record' = [] then records else records @ [record']))"
  by pat_completeness auto
termination
  by (relation "measure (\<lambda>(f, _). length (fr_buffer f))")
    (auto simp: position_Some intro!: diff_less)

declare frame_loop.simps [simp del]

definition push_into :: "MiFramer \<Rightarrow> bytes \<Rightarrow> MiError option \<times> MiFramer \<times> bytes list" where
  "push_into f input =
     (if length (fr_buffer f) + length input > fr_max f \<and> b_nl \<notin> set input
      then (Some (Limit ''unterminated record'' (fr_max f)), f, [])
      else
        case frame_loop (f\<lparr>fr_buffer := fr_buffer f @ input\<rparr>) [] of
          (Some e, f', records) \<Rightarrow> (Some e, f', records)
        | (None, f', records) \<Rightarrow>
            let f'' = f'\<lparr>fr_scanned := length (fr_buffer f')\<rparr> in
            if length (fr_buffer f'') > fr_max f''
            then (Some (Limit ''unterminated record'' (fr_max f'')), f'', records)
            else (None, f'', records))"

definition framer_push :: "MiFramer \<Rightarrow> bytes \<Rightarrow> MiFrames \<times> MiFramer" where
  "framer_push f input =
     (case push_into f input of
        (e, f', records) \<Rightarrow> (\<lparr>frames_records = records, frames_error = e\<rparr>, f'))"

definition framer_finish :: "MiFramer \<Rightarrow> (MiError, bytes option) res \<times> MiFramer" where
  "framer_finish f =
     (if fr_buffer f = [] then (Ok None, f)
      else if length (fr_buffer f) > fr_max f
      then (Err (Limit ''record bytes'' (fr_max f)), f)
      else (Ok (Some (fr_buffer f)), f\<lparr>fr_buffer := [], fr_scanned := 0\<rparr>))"

definition buffered_len :: "MiFramer \<Rightarrow> nat" where
  "buffered_len f = length (fr_buffer f)"

definition framer_preview :: "MiFramer \<Rightarrow> nat \<Rightarrow> bytes" where
  "framer_preview f maximum = take (min (length (fr_buffer f)) maximum) (fr_buffer f)"

text \<open>Feeding a list of chunks: the framer is discarded after its first error, as its
  documentation requires of the callers.\<close>

fun push_all :: "MiFramer \<Rightarrow> bytes list \<Rightarrow> bytes list \<times> MiError option \<times> MiFramer" where
  "push_all f [] = ([], None, f)"
| "push_all f (c # cs) =
     (case framer_push f c of
        (fs, f') \<Rightarrow>
          (case frames_error fs of
             Some e \<Rightarrow> (frames_records fs, Some e, f')
           | None \<Rightarrow>
               (case push_all f' cs of
                  (rs, e, f'') \<Rightarrow> (frames_records fs @ rs, e, f''))))"

section \<open>Specification: lines of the whole stream\<close>

fun split_lines :: "bytes \<Rightarrow> bytes list \<times> bytes" where
  "split_lines [] = ([], [])"
| "split_lines (b # bs) =
     (case split_lines bs of
        (ls, r) \<Rightarrow>
          if b = b_nl then ([] # ls, r)
          else (case ls of [] \<Rightarrow> ([], b # r) | l # ls' \<Rightarrow> ((b # l) # ls', r)))"

definition spec_records :: "nat \<Rightarrow> bytes \<Rightarrow> bytes list" where
  "spec_records limit s =
     filter (\<lambda>l. l \<noteq> [])
       (map strip_cr (takeWhile (\<lambda>l. length l \<le> limit) (fst (split_lines s))))"

definition spec_overflow :: "nat \<Rightarrow> bytes \<Rightarrow> bool" where
  "spec_overflow limit s \<longleftrightarrow>
     (\<exists>l \<in> set (fst (split_lines s)). limit < length l) \<or> limit < length (snd (split_lines s))"

definition spec_rest :: "bytes \<Rightarrow> bytes" where
  "spec_rest s = snd (split_lines s)"

text \<open>The framer between two pushes: everything buffered has been scanned and holds no
  newline, and the buffer is within the limit.\<close>

definition framer_inv :: "MiFramer \<Rightarrow> bool" where
  "framer_inv f \<longleftrightarrow>
     fr_scanned f = length (fr_buffer f) \<and> b_nl \<notin> set (fr_buffer f) \<and>
     length (fr_buffer f) \<le> fr_max f"

section \<open>Consumers of chunked streams\<close>

text \<open>
  A consumer keeps the bytes it has not used (\<open>pending\<close>) and, for each chunk, delivers
  items or fails.  If one step agrees with a specification over the pending bytes and the
  chunk, and the specification can be cut at any point where it has not failed, then the
  items delivered for a whole list of chunks are those of the concatenated stream.
\<close>

locale chunked_stream =
  fixes inv :: "'s \<Rightarrow> bool"
    and pending :: "'s \<Rightarrow> 'b list"
    and step :: "'s \<Rightarrow> 'b list \<Rightarrow> 'i list \<times> 'e option \<times> 's"
    and items :: "'b list \<Rightarrow> 'i list"
    and fails :: "'b list \<Rightarrow> bool"
    and rest :: "'b list \<Rightarrow> 'b list"
    and run :: "'s \<Rightarrow> 'b list list \<Rightarrow> 'i list \<times> 'e option \<times> 's"
  assumes step_items: "inv s \<Longrightarrow> fst (step s c) = items (pending s @ c)"
    and step_fails: "inv s \<Longrightarrow> fst (snd (step s c)) \<noteq> None \<longleftrightarrow> fails (pending s @ c)"
    and step_state: "inv s \<Longrightarrow> \<not> fails (pending s @ c) \<Longrightarrow>
          inv (snd (snd (step s c))) \<and> pending (snd (snd (step s c))) = rest (pending s @ c)"
    and pending_idle: "inv s \<Longrightarrow>
          items (pending s) = [] \<and> \<not> fails (pending s) \<and> rest (pending s) = pending s"
    and items_append: "\<not> fails b \<Longrightarrow> items (b @ c) = items b @ items (rest b @ c)"
    and rest_append: "\<not> fails b \<Longrightarrow> rest (b @ c) = rest (rest b @ c)"
    and fails_append: "\<not> fails b \<Longrightarrow> fails (b @ c) = fails (rest b @ c)"
    and fails_stable: "fails b \<Longrightarrow> fails (b @ c) \<and> items (b @ c) = items b"
    and run_Nil: "run s [] = ([], None, s)"
    and run_Cons: "run s (c # cs) =
          (case step s c of
             (is, Some e, s') \<Rightarrow> (is, Some e, s')
           | (is, None, s') \<Rightarrow> (case run s' cs of (js, e, s'') \<Rightarrow> (is @ js, e, s'')))"
begin

lemma run_spec:
  assumes "inv s"
  shows "fst (run s cs) = items (pending s @ concat cs) \<and>
    (fst (snd (run s cs)) \<noteq> None \<longleftrightarrow> fails (pending s @ concat cs)) \<and>
    (fst (snd (run s cs)) = None \<longrightarrow>
       inv (snd (snd (run s cs))) \<and>
       pending (snd (snd (run s cs))) = rest (pending s @ concat cs))"
  using assms
proof (induction cs arbitrary: s)
  case Nil
  then show ?case by (simp add: run_Nil pending_idle)
next
  case (Cons c cs)
  obtain "is" e s' where st: "step s c = (is, e, s')" by (metis prod.exhaust)
  note step = step_items [OF Cons.prems, of c] step_fails [OF Cons.prems, of c]
  show ?case
  proof (cases e)
    case (Some e')
    then have f: "fails (pending s @ c)" using step st by simp
    from fails_stable [OF f, of "concat cs"] step st Some show ?thesis
      by (simp add: run_Cons)
  next
    case None
    then have nf: "\<not> fails (pending s @ c)" using step st by simp
    from step_state [OF Cons.prems nf] st
    have s': "inv s'" "pending s' = rest (pending s @ c)" by simp_all
    from Cons.IH [OF s'(1)] s'(2) nf step st None show ?thesis
      using items_append [OF nf, of "concat cs"] rest_append [OF nf, of "concat cs"]
        fails_append [OF nf, of "concat cs"]
      by (auto simp: run_Cons split: prod.splits)
  qed
qed

lemma run_chunking:
  assumes "inv s" and "concat cs = concat ds"
  shows "fst (run s cs) = fst (run s ds) \<and>
    (fst (snd (run s cs)) = None \<longleftrightarrow> fst (snd (run s ds)) = None)"
  using run_spec [OF assms(1), of cs] run_spec [OF assms(1), of ds] assms(2) by auto

end

section \<open>The framer meets the specification\<close>

lemma split_lines_no_nl: "b_nl \<notin> set s \<Longrightarrow> split_lines s = ([], s)"
  by (induction s) auto

lemma split_lines_line:
  "b_nl \<notin> set l \<Longrightarrow>
     split_lines (l @ b_nl # s) = (l # fst (split_lines s), snd (split_lines s))"
  by (induction l) (auto split: prod.splits)

lemma split_lines_rest_no_nl: "b_nl \<notin> set (snd (split_lines s))"
  by (induction s) (auto split: prod.splits list.splits)

lemma split_lines_append:
  "split_lines (s @ t) =
     (fst (split_lines s) @ fst (split_lines (snd (split_lines s) @ t)),
      snd (split_lines (snd (split_lines s) @ t)))"
  by (induction s) (auto split: prod.splits list.splits)

lemma spec_records_line:
  assumes "b_nl \<notin> set l"
  shows "spec_records m (l @ b_nl # s) =
    (if length l \<le> m then
       (if strip_cr l = [] then spec_records m s else strip_cr l # spec_records m s) else [])"
  by (simp add: spec_records_def split_lines_line [OF assms])

lemma spec_overflow_line:
  "b_nl \<notin> set l \<Longrightarrow>
     spec_overflow m (l @ b_nl # s) \<longleftrightarrow> m < length l \<or> spec_overflow m s"
  by (auto simp: spec_overflow_def split_lines_line)

lemma spec_rest_line: "b_nl \<notin> set l \<Longrightarrow> spec_rest (l @ b_nl # s) = spec_rest s"
  by (simp add: spec_rest_def split_lines_line)

lemma spec_no_nl:
  assumes "b_nl \<notin> set s"
  shows "spec_records m s = []" "spec_overflow m s \<longleftrightarrow> m < length s" "spec_rest s = s"
  using assms
  by (simp_all add: spec_records_def spec_overflow_def spec_rest_def split_lines_no_nl)

text \<open>What the loop leaves behind: on success the unterminated rest of the stream; on failure
  nothing is claimed of the buffer, which the caller discards.\<close>

lemma frame_loop_spec:
  assumes "fr_scanned f \<le> length (fr_buffer f)"
    and "b_nl \<notin> set (take (fr_scanned f) (fr_buffer f))"
    and "frame_loop f acc = (e, f', records)"
  shows "records = acc @ spec_records (fr_max f) (fr_buffer f) \<and> fr_max f' = fr_max f \<and>
    (e = None \<longrightarrow> fr_buffer f' = spec_rest (fr_buffer f) \<and>
       (spec_overflow (fr_max f) (fr_buffer f) \<longleftrightarrow> fr_max f < length (fr_buffer f'))) \<and>
    (e \<noteq> None \<longrightarrow> spec_overflow (fr_max f) (fr_buffer f))"
  using assms
proof (induction f acc arbitrary: e f' records rule: frame_loop.induct)
  case (1 f acc)
  let ?B = "fr_buffer f" and ?n = "fr_scanned f"
  show ?case
  proof (cases "position (\<lambda>b. b = b_nl) (drop ?n ?B)")
    case None
    then have "b_nl \<notin> set (take ?n ?B @ drop ?n ?B)"
      using "1.prems"(2) by (auto simp: position_None simp del: append_take_drop_id)
    then have "b_nl \<notin> set ?B" by simp
    with None "1.prems"(3) show ?thesis
      by (auto simp: frame_loop.simps [of f acc] spec_no_nl)
  next
    case (Some rel)
    then obtain l0 r where d: "drop ?n ?B = l0 @ b_nl # r" "b_nl \<notin> set l0" "length l0 = rel"
      by (auto simp: position_Some)
    define l where "l = take ?n ?B @ l0"
    have B: "?B = l @ b_nl # r"
      using d(1) by (metis append_assoc append_take_drop_id l_def)
    have l: "b_nl \<notin> set l" "length l = ?n + rel"
      using "1.prems"(1,2) d by (auto simp: l_def)
    show ?thesis
    proof (cases "fr_max f < ?n + rel")
      case True
      with Some "1.prems"(3) B l show ?thesis
        by (auto simp: frame_loop.simps [of f acc] spec_records_line spec_overflow_line)
    next
      case False
      define f1 where "f1 = f\<lparr>fr_buffer := r, fr_scanned := 0\<rparr>"
      have cut: "butlast (take (?n + rel + 1) ?B) = l" "drop (?n + rel + 1) ?B = r"
        using B l(2) by (auto simp: butlast_append)
      let ?acc = "if strip_cr l = [] then acc else acc @ [strip_cr l]"
      have step: "frame_loop f acc = frame_loop f1 ?acc"
        using Some False cut by (simp add: frame_loop.simps [of f acc] f1_def Let_def)
      note IH = "1.IH" [OF Some refl False refl refl, unfolded cut, folded f1_def]
      have "records = ?acc @ spec_records (fr_max f1) (fr_buffer f1) \<and> fr_max f' = fr_max f1 \<and>
        (e = None \<longrightarrow> fr_buffer f' = spec_rest (fr_buffer f1) \<and>
          (spec_overflow (fr_max f1) (fr_buffer f1) \<longleftrightarrow> fr_max f1 < length (fr_buffer f'))) \<and>
        (e \<noteq> None \<longrightarrow> spec_overflow (fr_max f1) (fr_buffer f1))"
        by (rule IH) (use "1.prems"(3) step in \<open>simp_all add: f1_def\<close>)
      then show ?thesis
        using False B l
        by (auto simp: f1_def spec_records_line spec_overflow_line spec_rest_line)
    qed
  qed
qed

lemma push_into_spec:
  assumes "framer_inv f" and "push_into f input = (e, f', records)"
  shows "records = spec_records (fr_max f) (fr_buffer f @ input) \<and>
    (e \<noteq> None \<longleftrightarrow> spec_overflow (fr_max f) (fr_buffer f @ input)) \<and>
    (e = None \<longrightarrow> framer_inv f' \<and> fr_buffer f' = spec_rest (fr_buffer f @ input)) \<and>
    fr_max f' = fr_max f"
proof (cases "length (fr_buffer f) + length input > fr_max f \<and> b_nl \<notin> set input")
  case True
  with assms show ?thesis by (auto simp: push_into_def framer_inv_def spec_no_nl)
next
  case False
  let ?f = "f\<lparr>fr_buffer := fr_buffer f @ input\<rparr>"
  obtain e1 f1 records1 where loop: "frame_loop ?f [] = (e1, f1, records1)"
    by (metis prod.exhaust)
  have "fr_scanned ?f \<le> length (fr_buffer ?f)"
    "b_nl \<notin> set (take (fr_scanned ?f) (fr_buffer ?f))"
    using assms(1) by (auto simp: framer_inv_def)
  note spec = frame_loop_spec [OF this loop]
  show ?thesis
    using assms(2) spec False split_lines_rest_no_nl [of "fr_buffer f @ input"]
    by (cases e1) (auto simp: push_into_def loop framer_inv_def spec_rest_def Let_def
        split: if_splits)
qed

lemma split_lines_prefix_long:
  "b_nl \<notin> set r \<Longrightarrow>
     (case fst (split_lines (r @ c)) of
        [] \<Rightarrow> length r \<le> length (snd (split_lines (r @ c)))
      | l # _ \<Rightarrow> length r \<le> length l)"
  by (induction r) (auto split: prod.splits list.splits)

lemma spec_records_append:
  assumes "\<not> spec_overflow m b"
  shows "spec_records m (b @ c) = spec_records m b @ spec_records m (spec_rest b @ c)"
proof -
  have ok: "\<forall>l \<in> set (fst (split_lines b)). length l \<le> m"
    using assms by (auto simp: spec_overflow_def not_less)
  then have "takeWhile (\<lambda>l. length l \<le> m) (fst (split_lines b)) = fst (split_lines b)"
    by (simp add: takeWhile_eq_all_conv)
  with ok show ?thesis
    by (simp add: spec_records_def spec_rest_def split_lines_append [of b c] takeWhile_append2
        del: takeWhile_eq_all_conv)
qed

lemma spec_overflow_append:
  "\<not> spec_overflow m b \<Longrightarrow> spec_overflow m (b @ c) = spec_overflow m (spec_rest b @ c)"
  by (auto simp: spec_overflow_def spec_rest_def split_lines_append [of b c])

lemma spec_overflow_stable:
  assumes "spec_overflow m b"
  shows "spec_overflow m (b @ c) \<and> spec_records m (b @ c) = spec_records m b"
proof (cases "\<exists>l \<in> set (fst (split_lines b)). m < length l")
  case True
  then have "takeWhile (\<lambda>l. length l \<le> m) (fst (split_lines b) @ ls) =
      takeWhile (\<lambda>l. length l \<le> m) (fst (split_lines b))" for ls
    by (metis not_less takeWhile_append1)
  with True show ?thesis
    by (auto simp: spec_overflow_def spec_records_def split_lines_append [of b c])
next
  case False
  let ?r = "snd (split_lines b)"
  have r: "m < length ?r" using assms False by (auto simp: spec_overflow_def)
  have ok: "\<forall>l \<in> set (fst (split_lines b)). length l \<le> m" using False by (auto simp: not_less)
  note long = split_lines_prefix_long [OF split_lines_rest_no_nl [of b], of c]
  have stop: "takeWhile (\<lambda>l. length l \<le> m) (fst (split_lines (?r @ c))) = []"
    using long r by (auto simp: takeWhile_eq_Nil_iff split: list.splits)
  have "spec_overflow m (?r @ c)"
    using long r by (auto simp: spec_overflow_def split: list.splits)
  moreover have "takeWhile (\<lambda>l. length l \<le> m) (fst (split_lines b)) = fst (split_lines b)"
    using ok by (simp add: takeWhile_eq_all_conv)
  ultimately show ?thesis
    using ok stop
    by (auto simp: spec_overflow_def spec_records_def split_lines_append [of b c]
        takeWhile_append2 simp del: takeWhile_eq_all_conv)
qed

lemma strip_cr_length: "length (strip_cr l) \<le> length l"
  by (simp add: strip_cr_def)

definition framer_step :: "MiFramer \<Rightarrow> bytes \<Rightarrow> bytes list \<times> MiError option \<times> MiFramer" where
  "framer_step f c =
     (case framer_push f c of (fs, f') \<Rightarrow> (frames_records fs, frames_error fs, f'))"

lemma framer_step_push_into:
  "framer_step f c = (case push_into f c of (e, f', rs) \<Rightarrow> (rs, e, f'))"
  by (simp add: framer_step_def framer_push_def split: prod.splits)

interpretation framing: chunked_stream
  "\<lambda>f. framer_inv f \<and> fr_max f = limit" fr_buffer framer_step
  "spec_records limit" "spec_overflow limit" spec_rest push_all
  for limit :: nat
proof
  fix f c
  assume f: "framer_inv f \<and> fr_max f = limit"
  obtain e f' rs where st: "push_into f c = (e, f', rs)" by (metis prod.exhaust)
  note spec = push_into_spec [OF conjunct1 [OF f] st]
  show "fst (framer_step f c) = spec_records limit (fr_buffer f @ c)"
    and "fst (snd (framer_step f c)) \<noteq> None \<longleftrightarrow> spec_overflow limit (fr_buffer f @ c)"
    using spec f st by (simp_all add: framer_step_push_into)
  assume "\<not> spec_overflow limit (fr_buffer f @ c)"
  then show "(framer_inv (snd (snd (framer_step f c))) \<and>
      fr_max (snd (snd (framer_step f c))) = limit) \<and>
      fr_buffer (snd (snd (framer_step f c))) = spec_rest (fr_buffer f @ c)"
    using spec f st by (simp add: framer_step_push_into)
next
  fix f
  assume "framer_inv f \<and> fr_max f = limit"
  then show "spec_records limit (fr_buffer f) = [] \<and> \<not> spec_overflow limit (fr_buffer f) \<and>
      spec_rest (fr_buffer f) = fr_buffer f"
    by (auto simp: framer_inv_def spec_no_nl)
next
  fix b c
  assume nf: "\<not> spec_overflow limit b"
  then show "spec_records limit (b @ c) =
      spec_records limit b @ spec_records limit (spec_rest b @ c)"
    by (rule spec_records_append)
  show "spec_rest (b @ c) = spec_rest (spec_rest b @ c)"
    by (simp add: spec_rest_def split_lines_append [of b c])
  show "spec_overflow limit (b @ c) = spec_overflow limit (spec_rest b @ c)"
    using nf by (rule spec_overflow_append)
next
  fix b c
  assume "spec_overflow limit b"
  then show "spec_overflow limit (b @ c) \<and> spec_records limit (b @ c) = spec_records limit b"
    by (rule spec_overflow_stable)
next
  fix s
  show "push_all s [] = ([], None, s)" by simp
next
  fix s c cs
  show "push_all s (c # cs) =
      (case framer_step s c of
         (is, Some e, s') \<Rightarrow> (is, Some e, s')
       | (is, None, s') \<Rightarrow> (case push_all s' cs of (js, e, s'') \<Rightarrow> (is @ js, e, s'')))"
    by (auto simp: framer_step_def split: prod.splits option.splits)
qed

section \<open>Properties\<close>

lemma framer_new_inv: "framer_inv (framer_new limits) \<and> fr_max (framer_new limits) = max_record_bytes limits"
  by (simp add: framer_new_def framer_inv_def)

lemma framer_new_buffer [simp]: "fr_buffer (framer_new limits) = []"
  by (simp add: framer_new_def)

text \<open>C5. Framing does not depend on the chunks the bytes arrive in: two chunkings of one
  stream deliver the same records to the consumer, in the same order, and either both or
  neither end in a framing error.\<close>

theorem framing_chunk_independent:
  assumes "concat cs = concat ds"
  shows "fst (push_all (framer_new limits) cs) = fst (push_all (framer_new limits) ds) \<and>
    (fst (snd (push_all (framer_new limits) cs)) = None \<longleftrightarrow>
     fst (snd (push_all (framer_new limits) ds)) = None)"
  using framing.run_chunking [OF framer_new_inv assms] .

theorem framing_chunk_independent_witness:
  "concat [[0x31], [0x5E, b_cr], [b_nl, 0x32]] = concat [[0x31, 0x5E, b_cr, b_nl], [0x32 :: u8]] \<and>
   fst (push_all (framer_new default_limits) [[0x31], [0x5E, b_cr], [b_nl, 0x32]]) =
   fst (push_all (framer_new default_limits) [[0x31, 0x5E, b_cr, b_nl], [0x32]])"
proof -
  have h: "concat [[0x31], [0x5E, b_cr], [b_nl, 0x32]] =
      concat [[0x31, 0x5E, b_cr, b_nl], [0x32 :: u8]]" by simp
  show ?thesis
    using h conjunct1 [OF framing_chunk_independent [OF h, of default_limits]] by simp
qed

text \<open>C6. The framer implements its specification: over any chunks it delivers the
  non-empty lines of the whole stream (without line ending) up to the first line longer than
  the limit, reports an error exactly when a line or the unterminated rest exceeds the limit,
  and otherwise \<open>finish\<close> returns exactly the unterminated rest.\<close>

theorem framer_implements_lines:
  "(let (records, e, f) = push_all (framer_new limits) cs;
        stream = concat cs;
        limit = max_record_bytes limits
    in records = spec_records limit stream \<and>
       (e \<noteq> None) = spec_overflow limit stream \<and>
       (e = None \<longrightarrow> framer_inv f \<and>
          fst (framer_finish f) =
            Ok (if spec_rest stream = [] then None else Some (spec_rest stream))))"
proof -
  note spec = framing.run_spec [OF framer_new_inv, of limits cs]
  obtain records e f where r: "push_all (framer_new limits) cs = (records, e, f)"
    by (metis prod.exhaust)
  show ?thesis
    using spec r by (auto simp: framer_finish_def framer_inv_def)
qed

theorem framer_implements_lines_witness:
  "(let (records, e, f) =
          push_all (framer_new (default_limits\<lparr>max_record_bytes := 4\<rparr>)) [[0x41], [b_nl, 0x42]]
    in records = [[0x41]] \<and> e = None \<and> fst (framer_finish f) = Ok (Some [0x42]))"
  using framer_implements_lines
    [of "default_limits\<lparr>max_record_bytes := 4\<rparr>" "[[0x41], [b_nl, 0x42]]"]
  by (auto simp: spec_records_def spec_overflow_def spec_rest_def strip_cr_def split: prod.splits)

text \<open>C7. Every delivered record is non-empty and no longer than the limit, and the framer
  never retains more than the limit between two successful pushes, even when GDB never sends a
  newline.\<close>

theorem framer_bounded:
  assumes "framer_inv f" and "framer_push f input = (fs, f')"
  shows "(\<forall>r \<in> set (frames_records fs). r \<noteq> [] \<and> length r \<le> fr_max f) \<and>
    (frames_error fs = None \<longrightarrow> framer_inv f' \<and> buffered_len f' \<le> fr_max f)"
proof -
  obtain e g rs where p: "push_into f input = (e, g, rs)" by (metis prod.exhaust)
  have eq: "frames_records fs = rs" "frames_error fs = e" "f' = g"
    using assms(2) p by (auto simp: framer_push_def)
  note spec = push_into_spec [OF assms(1) p]
  have "r \<noteq> [] \<and> length r \<le> fr_max f" if "r \<in> set rs" for r
  proof -
    from that spec obtain l where "r = strip_cr l" "length l \<le> fr_max f" "r \<noteq> []"
      by (auto simp: spec_records_def dest: set_takeWhileD)
    with strip_cr_length [of l] show ?thesis by auto
  qed
  with spec eq show ?thesis by (auto simp: framer_inv_def buffered_len_def)
qed

theorem framer_bounded_witness:
  "framer_inv (framer_new default_limits) \<and>
   [] \<notin> set (frames_records (fst (framer_push (framer_new default_limits) [0x41, b_nl])))"
proof -
  have i: "framer_inv (framer_new default_limits)" using framer_new_inv by simp
  show ?thesis
    using i framer_bounded [OF i surjective_pairing [of "framer_push _ _"], of "[0x41, b_nl]"] by auto
qed

end
