(* ===== verification/MI_Encoder.thy ===== *)
theory MI_Encoder
  imports MI_Ast
begin

text \<open>
  The command encoder of \<open>crates/gdb-ai-mi/src/encoder.rs\<close>: C-string quoting and the
  wire form of an MI command.
\<close>

text \<open>\<open>format!("{byte:03o}")\<close>: three octal digits, which suffice for a byte.\<close>

definition octal3 :: "u8 \<Rightarrow> string" where
  "octal3 b =
     [digit_char (unat b div 64), digit_char (unat b div 8 mod 8), digit_char (unat b mod 8)]"

definition quote_byte :: "u8 \<Rightarrow> string" where
  "quote_byte b =
     (if b = b_backslash then [CHR 0x5C, CHR 0x5C]
      else if b = b_quote then [CHR 0x5C, CHR 0x22]
      else if b = b_nl then [CHR 0x5C, CHR ''n'']
      else if b = b_cr then [CHR 0x5C, CHR ''r'']
      else if b = b_tab then [CHR 0x5C, CHR ''t'']
      else if 0x20 \<le> b \<and> b \<le> 0x7E then [char_of_byte b]
      else CHR 0x5C # octal3 b)"

definition quote_c_string :: "bytes \<Rightarrow> string" where
  "quote_c_string bs = [CHR 0x22] @ concat (map quote_byte bs) @ [CHR 0x22]"

definition encode_command :: "nat \<Rightarrow> string \<Rightarrow> string list \<Rightarrow> bytes" where
  "encode_command token command arguments =
     as_bytes (show_nat token @ command @
       concat (map (\<lambda>a. CHR '' '' # a) arguments) @ [CHR 0x0A])"

section \<open>Facts\<close>

lemma quote_byte_not_Nil [simp]: "quote_byte b \<noteq> []"
  by (simp add: quote_byte_def)

lemma digit_char_byte: "d < 8 \<Longrightarrow> byte_of_char (digit_char d) = 0x30 + word_of_nat d"
  by (simp add: byte_of_char_def digit_char_def)

text \<open>Quoting produces printable ASCII only, so a quoted argument cannot break the line
  framing of a command.\<close>

lemma quote_byte_printable:
  "c \<in> set (quote_byte b) \<Longrightarrow> 0x20 \<le> byte_of_char c \<and> byte_of_char c \<le> 0x7E"
proof -
  have dig: "0x20 \<le> byte_of_char (digit_char d) \<and> byte_of_char (digit_char d) \<le> 0x7E"
    if "d < 10" for d
    using that by (simp add: word_le_nat_alt digit_char_def)
  have "unat b div 64 < 10" using unat_u8_less [of b] by linarith
  then show "c \<in> set (quote_byte b) \<Longrightarrow> ?thesis"
    using dig [of "unat b div 64"] dig [of "unat b div 8 mod 8"] dig [of "unat b mod 8"]
    by (auto simp: quote_byte_def octal3_def byte_of_char_def [of "CHR 0x5C"]
        byte_of_char_def [of "CHR 0x22"] byte_of_char_def [of "CHR ''n''"]
        byte_of_char_def [of "CHR ''r''"] byte_of_char_def [of "CHR ''t''"] split: if_splits)
qed

end
