(* ===== verification/MI_Parser.thy ===== *)
theory MI_Parser
  imports MI_Encoder
begin

text \<open>
  The MI record parser of \<open>crates/gdb-ai-mi/src/parser.rs\<close>.  A parser step reads the whole
  input and the current offset and returns the offset it stopped at, so every error carries
  the offset and byte of the source.  Loops whose termination follows from the input length
  are recursive functions; the separator loop, whose progress depends on the element parser,
  is a \<open>partial_function (option)\<close> in which \<open>None\<close> stands for not returning, and
  the soundness theory shows that it never occurs.
\<close>

section \<open>Cursor operations\<close>

type_synonym 'a parsed = "(MiError, 'a \<times> nat) res"

definition peek :: "bytes \<Rightarrow> nat \<Rightarrow> u8 option" where
  "peek inp off = (if off < length inp then Some (inp ! off) else None)"

definition unexpected :: "bytes \<Rightarrow> nat \<Rightarrow> string \<Rightarrow> (MiError, 'a) res" where
  "unexpected inp off expected = Err (Unexpected off expected (peek inp off))"

definition take_byte :: "bytes \<Rightarrow> nat \<Rightarrow> string \<Rightarrow> u8 parsed" where
  "take_byte inp off expected =
     (case peek inp off of None \<Rightarrow> unexpected inp off expected | Some b \<Rightarrow> Ok (b, off + 1))"

definition expect :: "bytes \<Rightarrow> nat \<Rightarrow> u8 \<Rightarrow> string \<Rightarrow> (MiError, nat) res" where
  "expect inp off expected description =
     (if peek inp off \<noteq> Some expected then unexpected inp off description else Ok (off + 1))"

definition check_depth :: "MiLimits \<Rightarrow> nat \<Rightarrow> (MiError, unit) res" where
  "check_depth lim depth =
     (if depth \<ge> max_depth lim then Err (Limit ''nesting depth'' (max_depth lim)) else Ok ())"

definition slice :: "bytes \<Rightarrow> nat \<Rightarrow> nat \<Rightarrow> bytes" where
  "slice inp i j = take (j - i) (drop i inp)"

definition hex_digit :: "u8 \<Rightarrow> u8 option" where
  "hex_digit b =
     (if 0x30 \<le> b \<and> b \<le> 0x39 then Some (b - 0x30)
      else if 0x61 \<le> b \<and> b \<le> 0x66 then Some (b - 0x61 + 10)
      else if 0x41 \<le> b \<and> b \<le> 0x46 then Some (b - 0x41 + 10)
      else None)"

definition identifier_byte :: "u8 \<Rightarrow> bool" where
  "identifier_byte b \<longleftrightarrow> is_ascii_alphanumeric b \<or> b = 0x2D \<or> b = 0x5F"

lemma peek_Some: "peek inp off = Some b \<longleftrightarrow> off < length inp \<and> inp ! off = b"
  by (auto simp: peek_def)

lemma peek_less: "peek inp off = Some b \<Longrightarrow> off < length inp"
  by (simp add: peek_Some)

lemma take_byte_Ok: "take_byte inp off s = Inr (b, o') \<longleftrightarrow> peek inp off = Some b \<and> o' = off + 1"
  by (auto simp: take_byte_def unexpected_def split: option.splits)

lemma expect_Ok: "expect inp off b s = Inr o' \<longleftrightarrow> peek inp off = Some b \<and> o' = off + 1"
  by (auto simp: expect_def unexpected_def)

section \<open>C strings\<close>

definition simple_escape :: "u8 \<Rightarrow> u8 option" where
  "simple_escape = map_of
     [(0x61, 0x07), (0x62, 0x08), (0x65, 0x1B), (0x66, 0x0C), (0x6E, b_nl), (0x72, b_cr),
      (0x74, b_tab), (0x76, 0x0B), (b_backslash, b_backslash), (b_quote, b_quote),
      (0x27, 0x27), (0x3F, 0x3F)]"

text \<open>The two digit loops: any number of hexadecimal digits, wrapping at eight bits, and up to
  two further octal digits.  The hexadecimal one returns the value, the offset and the number
  of digits.\<close>

function hex_loop :: "bytes \<Rightarrow> nat \<Rightarrow> u8 \<Rightarrow> nat \<Rightarrow> u8 \<times> nat \<times> nat" where
  "hex_loop inp off v digits =
     (case Option.bind (peek inp off) hex_digit of
        None \<Rightarrow> (v, off, digits)
      | Some d \<Rightarrow> hex_loop inp (off + 1) (v * 16 + d) (digits + 1))"
  by pat_completeness auto
termination
  by (relation "measure (\<lambda>(inp, off, _). length inp - off)")
    (auto simp: peek_def bind_eq_Some_conv split: if_splits)

fun octal_loop :: "nat \<Rightarrow> bytes \<Rightarrow> nat \<Rightarrow> u8 \<Rightarrow> u8 \<times> nat" where
  "octal_loop 0 inp off v = (v, off)"
| "octal_loop (Suc n) inp off v =
     (case peek inp off of
        None \<Rightarrow> (v, off)
      | Some c \<Rightarrow>
          if 0x30 \<le> c \<and> c \<le> 0x37 then octal_loop n inp (off + 1) (v * 8 + (c - 0x30))
          else (v, off))"

declare hex_loop.simps [simp del]

definition escape :: "bytes \<Rightarrow> nat \<Rightarrow> u8 parsed" where
  "escape inp off =
     (case take_byte inp off ''C-string escape'' of
        Inl e \<Rightarrow> Err e
      | Inr (escaped, off1) \<Rightarrow>
          (case simple_escape escaped of
             Some b \<Rightarrow> Ok (b, off1)
           | None \<Rightarrow>
               if escaped = 0x78 then
                 (case hex_loop inp off1 0 0 of
                    (v, off2, digits) \<Rightarrow>
                      if digits = 0
                      then Err (Unexpected off1 ''hexadecimal escape digit'' (peek inp off2))
                      else Ok (v, off2))
               else if 0x30 \<le> escaped \<and> escaped \<le> 0x37
               then Ok (octal_loop 2 inp off1 (escaped - 0x30))
               else Ok (escaped, off1)))"

definition plain_byte :: "u8 \<Rightarrow> bool" where
  "plain_byte b \<longleftrightarrow> b \<noteq> b_quote \<and> b \<noteq> b_backslash \<and> b \<noteq> b_nl \<and> b \<noteq> b_cr"

lemma hex_loop_advances: "hex_loop inp off v n = (v', off', n') \<Longrightarrow> off \<le> off'"
proof (induction inp off v n rule: hex_loop.induct)
  case (1 inp off v n)
  then show ?case
    by (fastforce simp: hex_loop.simps [of inp off v n] split: option.splits)
qed

lemma octal_loop_advances: "octal_loop n inp off v = (v', off') \<Longrightarrow> off \<le> off'"
  by (induction n inp off v rule: octal_loop.induct)
    (fastforce split: option.splits if_splits)+

lemma escape_advances: "escape inp off = Inr (b, off') \<Longrightarrow> off < off' \<and> off < length inp"
  by (auto simp: escape_def take_byte_Ok peek_Some split: sum.splits option.splits if_splits
      prod.splits dest: hex_loop_advances octal_loop_advances)

text \<open>The string loop copies a span of plain bytes at a time.  At most one byte more than the
  remaining budget is scanned; \<open>budget.saturating_add(1)\<close> is \<open>budget + 1\<close> on the
  lengths that occur.  After a span within the budget the next byte is not plain
  (\<open>span_stops\<close>), which is the source's \<open>unreachable!\<close> arm, so the last branch is
  the one of a raw line break.\<close>

function c_string_loop :: "bytes \<Rightarrow> MiLimits \<Rightarrow> nat \<Rightarrow> bytes \<Rightarrow> bytes parsed" where
  "c_string_loop inp lim off decoded =
     (let budget = max_decoded_string_bytes lim - length decoded;
          remaining = take (budget + 1) (drop off inp);
          plain_len = length (takeWhile plain_byte remaining)
      in if plain_len > budget
         then Err (Limit ''decoded C-string bytes'' (max_decoded_string_bytes lim))
         else
           let decoded1 = decoded @ take plain_len remaining; off1 = off + plain_len in
           case take_byte inp off1 ''closing quote'' of
             Inl e \<Rightarrow> Err e
           | Inr (b, off2) \<Rightarrow>
               if b = b_quote then Ok (decoded1, off2)
               else if b = b_backslash then
                 (case escape inp off2 of
                    Inl e \<Rightarrow> Err e
                  | Inr (x, off3) \<Rightarrow>
                      if length (decoded1 @ [x]) > max_decoded_string_bytes lim
                      then Err (Limit ''decoded C-string bytes'' (max_decoded_string_bytes lim))
                      else c_string_loop inp lim off3 (decoded1 @ [x]))
               else unexpected inp off2 ''escaped newline or closing quote'')"
  by pat_completeness auto
termination
  by (relation "measure (\<lambda>(inp, lim, off, _). length inp - off)")
    (auto simp: take_byte_Ok dest!: escape_advances)

declare c_string_loop.simps [simp del]

definition c_string :: "bytes \<Rightarrow> MiLimits \<Rightarrow> nat \<Rightarrow> bytes parsed" where
  "c_string inp lim off =
     (case expect inp off b_quote ''opening quote'' of
        Inl e \<Rightarrow> Err e
      | Inr off1 \<Rightarrow> c_string_loop inp lim off1 [])"

section \<open>Values\<close>

type_synonym 'a presult = "'a parsed option"

definition pbind :: "'a presult \<Rightarrow> ('a \<Rightarrow> nat \<Rightarrow> 'b presult) \<Rightarrow> 'b presult" where
  "pbind m f =
     Option.bind m (\<lambda>r. case r of Inl e \<Rightarrow> Some (Inl e) | Inr (x, off) \<Rightarrow> f x off)"

lemma pbind_cong [fundef_cong]:
  "m = m' \<Longrightarrow> (\<And>x off. m' = Some (Inr (x, off)) \<Longrightarrow> f x off = g x off) \<Longrightarrow> pbind m f = pbind m' g"
  by (auto simp: pbind_def split: sum.splits Option.bind_splits)

text \<open>\<open>loop { push(element()?); if peek != ',' { break } offset += 1 }\<close>\<close>

partial_function (option) sep_loop ::
  "bytes \<Rightarrow> (nat \<Rightarrow> 'a presult) \<Rightarrow> nat \<Rightarrow> 'a list presult" where
  "sep_loop inp element off =
     Option.bind (element off) (\<lambda>r.
       case r of
         Inl e \<Rightarrow> Some (Inl e)
       | Inr (x, off1) \<Rightarrow>
           if peek inp off1 \<noteq> Some b_comma then Some (Inr ([x], off1))
           else Option.bind (sep_loop inp element (off1 + 1)) (\<lambda>r'.
             case r' of
               Inl e \<Rightarrow> Some (Inl e)
             | Inr (xs, off2) \<Rightarrow> Some (Inr (x # xs, off2))))"

lemma sep_loop_cong [fundef_cong]:
  assumes "inp = inp'" and "off = off'" and "\<And>i. element i = element' i"
  shows "sep_loop inp element off = sep_loop inp' element' off'"
proof -
  have "element = element'" using assms(3) by (rule ext)
  with assms(1,2) show ?thesis by simp
qed

text \<open>\<open>class_and_results\<close> and \<open>result\<close> scan an identifier up to a comma, respectively
  an equals sign; any other byte on the way is refused.\<close>

function scan_identifier :: "bytes \<Rightarrow> u8 \<Rightarrow> string \<Rightarrow> nat \<Rightarrow> (MiError, nat) res" where
  "scan_identifier inp stop expected off =
     (case peek inp off of
        None \<Rightarrow> Ok off
      | Some b \<Rightarrow>
          if b = stop then Ok off
          else if \<not> identifier_byte b then unexpected inp off expected
          else scan_identifier inp stop expected (off + 1))"
  by pat_completeness auto
termination
  by (relation "measure (\<lambda>(inp, _, _, off). length inp - off)") (auto simp: peek_Some)

declare scan_identifier.simps [simp del]

function looks_loop :: "bytes \<Rightarrow> nat \<Rightarrow> nat \<Rightarrow> bool" where
  "looks_loop inp start off =
     (case peek inp off of
        None \<Rightarrow> False
      | Some b \<Rightarrow>
          if b = b_equals then off > start
          else if b \<in> {b_comma, b_rbracket, b_lbrace, b_rbrace, b_lbracket, b_quote} then False
          else if is_ascii_whitespace b then False
          else looks_loop inp start (off + 1))"
  by pat_completeness auto
termination
  by (relation "measure (\<lambda>(inp, _, off). length inp - off)") (auto simp: peek_Some)

declare looks_loop.simps [simp del]

definition looks_like_result :: "bytes \<Rightarrow> nat \<Rightarrow> bool" where
  "looks_like_result inp off = looks_loop inp off off"

text \<open>A closing delimiter after the elements, and \<open>legacy_script\<close>.\<close>

definition close_with ::
  "bytes \<Rightarrow> u8 \<Rightarrow> string \<Rightarrow> ('a list \<Rightarrow> MiValue) \<Rightarrow> 'a list presult \<Rightarrow> MiValue presult" where
  "close_with inp b description mk m =
     pbind m (\<lambda>xs off.
       case expect inp off b description of
         Inl e \<Rightarrow> Some (Inl e)
       | Inr off' \<Rightarrow> Some (Inr (mk xs, off')))"

definition open_nested ::
  "bytes \<Rightarrow> MiLimits \<Rightarrow> nat \<Rightarrow> u8 \<Rightarrow> string \<Rightarrow> nat \<Rightarrow> (MiError, nat) res" where
  "open_nested inp lim depth b description off =
     bind_res (check_depth lim depth) (\<lambda>_. expect inp off b description)"

definition legacy_script :: "bytes \<Rightarrow> MiLimits \<Rightarrow> nat \<Rightarrow> nat \<Rightarrow> MiValue presult" where
  "legacy_script inp lim depth off =
     (case open_nested inp lim depth b_lbrace ''{'' off of
        Inl e \<Rightarrow> Some (Inl e)
      | Inr off1 \<Rightarrow>
          close_with inp b_rbrace ''}'' (\<lambda>xs. ValueList (map Const xs))
            (sep_loop inp (\<lambda>i. Some (c_string inp lim i)) off1))"

lemma open_nested_Ok:
  "open_nested inp lim depth b s off = Inr off1 \<longleftrightarrow>
     depth < max_depth lim \<and> peek inp off = Some b \<and> off1 = off + 1"
  by (auto simp: open_nested_def check_depth_def expect_Ok result_simps split: if_splits)

function
  parse_result :: "bytes \<Rightarrow> MiLimits \<Rightarrow> nat \<Rightarrow> nat \<Rightarrow> MiResult presult" and
  parse_value :: "bytes \<Rightarrow> MiLimits \<Rightarrow> nat \<Rightarrow> nat \<Rightarrow> MiValue presult" and
  parse_tuple :: "bytes \<Rightarrow> MiLimits \<Rightarrow> nat \<Rightarrow> nat \<Rightarrow> MiValue presult" and
  parse_list :: "bytes \<Rightarrow> MiLimits \<Rightarrow> nat \<Rightarrow> nat \<Rightarrow> MiValue presult"
where
  "parse_result inp lim depth off =
     (case scan_identifier inp b_equals ''result name followed by ='' off of
        Inl e \<Rightarrow> Some (Inl e)
      | Inr off1 \<Rightarrow>
          if off1 = off \<or> peek inp off1 \<noteq> Some b_equals
          then Some (unexpected inp off1 ''result name followed by ='')
          else
            let name = string_of_bytes (slice inp off off1); off2 = off1 + 1 in
            pbind
              (if name = ''script'' \<and> starts_with (drop off2 inp) [b_lbrace, b_quote]
               then legacy_script inp lim depth off2
               else parse_value inp lim depth off2)
              (\<lambda>v off3. Some (Inr (MiResult name v, off3))))"
| "parse_value inp lim depth off =
     (if peek inp off = Some b_quote then
        pbind (Some (c_string inp lim off)) (\<lambda>bs off1. Some (Inr (Const bs, off1)))
      else if peek inp off = Some b_lbrace then parse_tuple inp lim depth off
      else if peek inp off = Some b_lbracket then parse_list inp lim depth off
      else Some (unexpected inp off ''MI value''))"
| "parse_tuple inp lim depth off =
     (case open_nested inp lim depth b_lbrace ''{'' off of
        Inl e \<Rightarrow> Some (Inl e)
      | Inr off1 \<Rightarrow>
          close_with inp b_rbrace ''}'' Tuple
            (if peek inp off1 \<noteq> Some b_rbrace
             then sep_loop inp (\<lambda>i. parse_result inp lim (depth + 1) i) off1
             else Some (Inr ([], off1))))"
| "parse_list inp lim depth off =
     (case open_nested inp lim depth b_lbracket ''['' off of
        Inl e \<Rightarrow> Some (Inl e)
      | Inr off1 \<Rightarrow>
          if peek inp off1 = Some b_rbracket then Some (Inr (ValueList [], off1 + 1))
          else if looks_like_result inp off1 then
            close_with inp b_rbracket '']'' ResultList
              (sep_loop inp (\<lambda>i. parse_result inp lim (depth + 1) i) off1)
          else
            close_with inp b_rbracket '']'' ValueList
              (sep_loop inp (\<lambda>i. parse_value inp lim (depth + 1) i) off1))"
  by pat_completeness auto
termination
  by (relation "measure (case_sum
        (case_sum (\<lambda>(_, lim, d, _). 4 * (max_depth lim - d) + 3)
                  (\<lambda>(_, lim, d, _). 4 * (max_depth lim - d) + 2))
        (case_sum (\<lambda>(_, lim, d, _). 4 * (max_depth lim - d) + 1)
                  (\<lambda>(_, lim, d, _). 4 * (max_depth lim - d) + 1)))")
    (auto simp: open_nested_Ok)

declare parse_result.simps [simp del] parse_value.simps [simp del]
  parse_tuple.simps [simp del] parse_list.simps [simp del]

section \<open>Records\<close>

definition token :: "bytes \<Rightarrow> nat \<Rightarrow> nat option parsed" where
  "token inp off =
     (let off1 = off + length (takeWhile is_ascii_digit (drop off inp)) in
      if off1 = off then Ok (None, off)
      else case from_str_radix 64 10 (string_of_bytes (slice inp off off1)) of
             None \<Rightarrow> Err (InvalidToken off)
           | Some t \<Rightarrow> Ok (Some t, off1))"

definition class_and_results :: "bytes \<Rightarrow> MiLimits \<Rightarrow> nat \<Rightarrow> (string \<times> MiResult list) presult" where
  "class_and_results inp lim off =
     (case scan_identifier inp b_comma ''result or async class'' off of
        Inl e \<Rightarrow> Some (Inl e)
      | Inr off1 \<Rightarrow>
          if off1 = off then Some (unexpected inp off1 ''non-empty result or async class'')
          else
            let cls = string_of_bytes (slice inp off off1) in
            if peek inp off1 = Some b_comma then
              pbind (sep_loop inp (\<lambda>i. parse_result inp lim 0 i) (off1 + 1))
                (\<lambda>rs off2. Some (Inr ((cls, rs), off2)))
            else Some (Inr ((cls, []), off1)))"

definition prefix_record ::
  "bytes \<Rightarrow> MiLimits \<Rightarrow> nat option \<Rightarrow> u8 \<Rightarrow> nat \<Rightarrow> MiRecord presult" where
  "prefix_record inp lim tok prefix off =
     (let async = (\<lambda>mk. pbind (class_and_results inp lim off)
                          (\<lambda>(cls, rs) off'. Some (Inr (mk tok cls rs, off'))));
          stream = (\<lambda>mk. pbind (Some (c_string inp lim off)) (\<lambda>bs off'. Some (Inr (mk bs, off'))))
      in if prefix = 0x5E then async Result
         else if prefix = 0x2A then async ExecAsync
         else if prefix = 0x2B then async StatusAsync
         else if prefix = 0x3D then async NotifyAsync
         else if prefix = 0x7E \<and> tok = None then stream ConsoleStream
         else if prefix = 0x40 \<and> tok = None then stream TargetStream
         else if prefix = 0x26 \<and> tok = None then stream LogStream
         else Some (unexpected inp off ''^, *, +, =, ~, @, or &''))"

definition parse_whole :: "bytes \<Rightarrow> MiLimits \<Rightarrow> (MiError, MiRecord) res option" where
  "parse_whole inp lim =
     (case token inp 0 of
        Inl e \<Rightarrow> Some (Inl e)
      | Inr (tok, off1) \<Rightarrow>
          (case take_byte inp off1 ''MI record prefix'' of
             Inl e \<Rightarrow> Some (Inl e)
           | Inr (prefix, off2) \<Rightarrow>
               Option.bind (prefix_record inp lim tok prefix off2) (\<lambda>r.
                 case r of
                   Inl e \<Rightarrow> Some (Inl e)
                 | Inr (rec, off3) \<Rightarrow>
                     if off3 \<noteq> length inp then Some (unexpected inp off3 ''end of record'')
                     else Some (Ok rec))))"

definition parse_record :: "bytes \<Rightarrow> MiLimits \<Rightarrow> (MiError, MiRecord) res option" where
  "parse_record inp lim =
     (if inp = [] then Some (Err Empty)
      else if length inp > max_record_bytes lim
      then Some (Err (Limit ''record bytes'' (max_record_bytes lim)))
      else if trim_ascii inp = as_bytes ''(gdb)'' then Some (Ok Prompt)
      else parse_whole inp lim)"

end
