(* ===== verification/MI_Parser_Sound.thy ===== *)
theory MI_Parser_Sound
  imports MI_Parser
begin

text \<open>
  Soundness of the MI parser: it always returns, every error is located at a byte of the
  record, and what it accepts respects the configured limits.  The string decoder that copies
  spans is shown equal to a decoder that takes one byte at a time.
\<close>

section \<open>The reference string decoder\<close>

function c_string_ref :: "bytes \<Rightarrow> MiLimits \<Rightarrow> nat \<Rightarrow> bytes \<Rightarrow> bytes parsed" where
  "c_string_ref inp lim off decoded =
     (case peek inp off of
        None \<Rightarrow> unexpected inp off ''closing quote''
      | Some b \<Rightarrow>
          if b = b_quote then Ok (decoded, off + 1)
          else if b = b_backslash then
            (case escape inp (off + 1) of
               Inl e \<Rightarrow> Err e
             | Inr (x, off') \<Rightarrow>
                 if length decoded \<ge> max_decoded_string_bytes lim
                 then Err (Limit ''decoded C-string bytes'' (max_decoded_string_bytes lim))
                 else c_string_ref inp lim off' (decoded @ [x]))
          else if b = b_nl \<or> b = b_cr
          then unexpected inp (off + 1) ''escaped newline or closing quote''
          else if length decoded \<ge> max_decoded_string_bytes lim
          then Err (Limit ''decoded C-string bytes'' (max_decoded_string_bytes lim))
          else c_string_ref inp lim (off + 1) (decoded @ [b]))"
  by pat_completeness auto
termination
  by (relation "measure (\<lambda>(inp, lim, off, _). length inp - off)")
    (auto simp: peek_Some dest!: escape_advances)

declare c_string_ref.simps [simp del]

lemma c_string_ref_plain:
  "off < length inp \<Longrightarrow> plain_byte (inp ! off) \<Longrightarrow>
     c_string_ref inp lim off decoded =
       (if length decoded \<ge> max_decoded_string_bytes lim
        then Err (Limit ''decoded C-string bytes'' (max_decoded_string_bytes lim))
        else c_string_ref inp lim (off + 1) (decoded @ [inp ! off]))"
  by (simp add: c_string_ref.simps [of inp lim off decoded] peek_def plain_byte_def)

lemma c_string_ref_span:
  assumes "k \<le> length inp - off"
    and "\<forall>j < k. plain_byte (inp ! (off + j))"
    and "length decoded + k \<le> max_decoded_string_bytes lim"
  shows "c_string_ref inp lim off decoded =
    c_string_ref inp lim (off + k) (decoded @ take k (drop off inp))"
  using assms
proof (induction k arbitrary: off decoded)
  case 0
  then show ?case by simp
next
  case (Suc k)
  have off: "off < length inp" using Suc.prems(1) by simp
  have plain: "plain_byte (inp ! off)" using Suc.prems(2) by auto
  have rest: "\<forall>j < k. plain_byte (inp ! (Suc off + j))"
  proof (intro allI impI)
    fix j assume "j < k"
    with Suc.prems(2) have "plain_byte (inp ! (off + Suc j))" by blast
    then show "plain_byte (inp ! (Suc off + j))" by simp
  qed
  have drop: "drop off inp = inp ! off # drop (Suc off) inp"
    using off by (simp add: Cons_nth_drop_Suc)
  have "c_string_ref inp lim (Suc off) (decoded @ [inp ! off]) =
      c_string_ref inp lim (Suc off + k) ((decoded @ [inp ! off]) @ take k (drop (Suc off) inp))"
    using Suc.prems rest by (intro Suc.IH) auto
  then show ?case
    using Suc.prems(3) by (simp add: c_string_ref_plain [OF off plain] drop)
qed

lemma takeWhile_plain:
  fixes inp :: bytes
  assumes "k = length (takeWhile plain_byte (take n (drop off inp)))"
  shows "k \<le> length inp - off" "\<forall>j < k. plain_byte (inp ! (off + j))"
    and "k < n \<Longrightarrow> off + k < length inp \<Longrightarrow> \<not> plain_byte (inp ! (off + k))"
proof -
  let ?w = "take n (drop off inp)"
  have kl: "k \<le> length ?w" using assms length_takeWhile_le by metis
  then show "k \<le> length inp - off" by simp
  show "\<forall>j < k. plain_byte (inp ! (off + j))"
  proof (intro allI impI)
    fix j assume "j < k"
    then have "takeWhile plain_byte ?w ! j = ?w ! j" "j < length (takeWhile plain_byte ?w)"
      using assms by (simp_all add: takeWhile_nth)
    then have "plain_byte (?w ! j)" by (metis nth_mem set_takeWhileD)
    moreover have "?w ! j = inp ! (off + j)" using \<open>j < k\<close> kl by auto
    ultimately show "plain_byte (inp ! (off + j))" by simp
  qed
  show "\<not> plain_byte (inp ! (off + k))" if "k < n" "off + k < length inp"
  proof -
    have "k < length ?w" using that by simp
    then have "\<not> plain_byte (?w ! k)" using assms nth_length_takeWhile by metis
    with that show ?thesis by simp
  qed
qed

text \<open>The source's \<open>unreachable!\<close>: after a span within the budget comes the end of the input
  or a byte that is not plain.\<close>

lemma span_stops:
  assumes "k = length (takeWhile plain_byte (take (budget + 1) (drop off inp)))" "k \<le> budget"
    and "peek inp (off + k) = Some b"
  shows "\<not> plain_byte b"
  using takeWhile_plain(3) [OF assms(1)] assms(2,3) by (auto simp: peek_Some)

lemma c_string_loop_eq_ref:
  "length decoded \<le> max_decoded_string_bytes lim \<Longrightarrow>
     c_string_loop inp lim off decoded = c_string_ref inp lim off decoded"
proof (induction "length inp - off" arbitrary: off decoded rule: less_induct)
  case less
  let ?max = "max_decoded_string_bytes lim"
  let ?budget = "?max - length decoded"
  let ?rem = "take (?budget + 1) (drop off inp)"
  define k where "k = length (takeWhile plain_byte ?rem)"
  note span = takeWhile_plain [OF k_def]
  show ?case
  proof (cases "k > ?budget")
    case True
    then have k: "k = ?budget + 1" using k_def length_takeWhile_le [of plain_byte ?rem] by simp
    have "c_string_ref inp lim off decoded =
        c_string_ref inp lim (off + ?budget) (decoded @ take ?budget (drop off inp))"
      using span(1,2) k less.prems by (intro c_string_ref_span) auto
    moreover have "off + ?budget < length inp" using span(1) k by simp
    moreover have "plain_byte (inp ! (off + ?budget))" using span(2) k by simp
    ultimately have "c_string_ref inp lim off decoded = Err (Limit ''decoded C-string bytes'' ?max)"
      using less.prems by (simp add: c_string_ref_plain)
    with True show ?thesis
      by (simp add: c_string_loop.simps [of inp lim off decoded] k_def Let_def)
  next
    case False
    define d1 where "d1 = decoded @ take k (drop off inp)"
    have d1: "decoded @ take k ?rem = d1" using False by (simp add: d1_def min_def)
    have len: "length d1 \<le> ?max" using False less.prems by (simp add: d1_def)
    have ref: "c_string_ref inp lim off decoded = c_string_ref inp lim (off + k) d1"
      unfolding d1_def using span(1,2) False less.prems by (intro c_string_ref_span) auto
    have unf: "c_string_loop inp lim off decoded =
      (case take_byte inp (off + k) ''closing quote'' of
         Inl e \<Rightarrow> Err e
       | Inr (b, off2) \<Rightarrow>
           if b = b_quote then Ok (d1, off2)
           else if b = b_backslash then
             (case escape inp off2 of
                Inl e \<Rightarrow> Err e
              | Inr (x, off3) \<Rightarrow>
                  if length (d1 @ [x]) > ?max then Err (Limit ''decoded C-string bytes'' ?max)
                  else c_string_loop inp lim off3 (d1 @ [x]))
           else unexpected inp off2 ''escaped newline or closing quote'')"
      using False d1 by (simp add: c_string_loop.simps [of inp lim off decoded] k_def Let_def)
    show ?thesis
    proof (cases "peek inp (off + k)")
      case None
      then show ?thesis
        by (simp add: unf ref take_byte_def unexpected_def c_string_ref.simps [of inp lim "off + k"])
    next
      case (Some b)
      have np: "\<not> plain_byte b" using span_stops [OF k_def _ Some] False by simp
      have IH: "c_string_loop inp lim off3 (d1 @ [x]) = c_string_ref inp lim off3 (d1 @ [x])"
        if "b = b_backslash" "escape inp (off + k + 1) = Inr (x, off3)" "length (d1 @ [x]) \<le> ?max"
        for x off3
        using escape_advances [OF that(2)] that(3) by (intro less.hyps) linarith+
      show ?thesis
        using np Some IH
        by (auto simp: unf ref take_byte_def plain_byte_def c_string_ref.simps [of inp lim "off + k"]
            split: sum.splits)
    qed
  qed
qed

section \<open>Locations, limits and progress\<close>

text \<open>An \<open>Unexpected\<close> error names an offset of the record (or its end) and the byte there;
  a limit error carries one of the configured limits.\<close>

fun error_ok :: "bytes \<Rightarrow> MiLimits \<Rightarrow> MiError \<Rightarrow> bool" where
  "error_ok inp lim Empty = (inp = [])"
| "error_ok inp lim (Unexpected off _ found) = (off \<le> length inp \<and> found = peek inp off)"
| "error_ok inp lim (InvalidToken off) = (off < length inp)"
| "error_ok inp lim (Limit _ n) =
     (n = max_record_bytes lim \<or> n = max_depth lim \<or> n = max_decoded_string_bytes lim)"

definition step_ok ::
  "('a \<Rightarrow> bool) \<Rightarrow> bytes \<Rightarrow> MiLimits \<Rightarrow> nat \<Rightarrow> 'a presult \<Rightarrow> bool" where
  "step_ok P inp lim off m =
     (case m of
        None \<Rightarrow> False
      | Some (Inl e) \<Rightarrow> error_ok inp lim e
      | Some (Inr (x, off')) \<Rightarrow> P x \<and> off < off' \<and> off' \<le> length inp)"

lemma step_ok_simps [simp]:
  "step_ok P inp lim off (Some (Inl e)) = error_ok inp lim e"
  "step_ok P inp lim off (Some (Inr (x, off'))) = (P x \<and> off < off' \<and> off' \<le> length inp)"
  "step_ok P inp lim off None = False"
  by (simp_all add: step_ok_def)

lemma step_ok_cases:
  assumes "step_ok P inp lim off m"
  obtains e where "m = Some (Inl e)" "error_ok inp lim e"
  | x off' where "m = Some (Inr (x, off'))" "P x" "off < off'" "off' \<le> length inp"
  using assms by (cases m) (auto simp: step_ok_def split: sum.splits prod.splits)

lemma step_ok_unexpected [simp]:
  "off' \<le> length inp \<Longrightarrow> step_ok P inp lim off (Some (unexpected inp off' s))"
  by (simp add: unexpected_def)

lemma step_ok_pbind:
  assumes "step_ok P inp lim off m"
    and "\<And>x off'. P x \<Longrightarrow> off < off' \<Longrightarrow> off' \<le> length inp \<Longrightarrow> step_ok Q inp lim off (f x off')"
  shows "step_ok Q inp lim off (pbind m f)"
  using assms(1) by (rule step_ok_cases) (auto simp: pbind_def assms(2))

lemma step_ok_mono: "step_ok P inp lim off m \<Longrightarrow> off0 \<le> off \<Longrightarrow> step_ok P inp lim off0 m"
  by (erule step_ok_cases) auto

text \<open>The separator loop returns whenever its element parser does and consumes input.\<close>

lemma sep_loop_ok:
  assumes "\<And>i. off \<le> i \<Longrightarrow> i \<le> length inp \<Longrightarrow> step_ok P inp lim i (element i)" and "off \<le> length inp"
  shows "step_ok (\<lambda>xs. xs \<noteq> [] \<and> list_all P xs) inp lim off (sep_loop inp element off)"
  using assms
proof (induction "length inp - off" arbitrary: off rule: less_induct)
  case less
  have "step_ok P inp lim off (element off)" using less.prems by simp
  then show ?case
  proof (cases rule: step_ok_cases)
    case (1 e)
    then show ?thesis by (simp add: sep_loop.simps [of inp element off])
  next
    case (2 x off')
    show ?thesis
    proof (cases "peek inp off' = Some b_comma")
      case True
      then have lt: "off' < length inp" by (rule peek_less)
      have "step_ok (\<lambda>xs. xs \<noteq> [] \<and> list_all P xs) inp lim (off' + 1)
          (sep_loop inp element (off' + 1))"
        using less.prems 2 lt by (intro less.hyps) auto
      then show ?thesis
        by (cases rule: step_ok_cases) (use 2 True in \<open>auto simp: sep_loop.simps [of inp element off]\<close>)
    next
      case False
      with 2 show ?thesis by (simp add: sep_loop.simps [of inp element off])
    qed
  qed
qed

subsection \<open>Strings\<close>

lemma hex_loop_bound: "hex_loop inp off v n = (v', off', n') \<Longrightarrow> off \<le> length inp \<Longrightarrow>
    off' \<le> length inp \<and> (n' = n \<longrightarrow> off' = off) \<and> n \<le> n'"
proof (induction inp off v n rule: hex_loop.induct)
  case (1 inp off v n)
  show ?case
  proof (cases "Option.bind (peek inp off) hex_digit")
    case None
    with "1.prems" show ?thesis by (simp add: hex_loop.simps [of inp off v n])
  next
    case (Some d)
    then have "off < length inp" by (auto simp: bind_eq_Some_conv peek_Some)
    with "1.IH" [OF Some] "1.prems" Some show ?thesis
      by (auto simp: hex_loop.simps [of inp off v n])
  qed
qed

lemma octal_loop_bound:
  "octal_loop n inp off v = (v', off') \<Longrightarrow> off \<le> length inp \<Longrightarrow> off' \<le> length inp"
  by (induction n inp off v rule: octal_loop.induct)
    (auto simp: peek_Some split: option.splits if_splits)

lemma escape_ok: "off \<le> length inp \<Longrightarrow> step_ok (\<lambda>_. True) inp lim off (Some (escape inp off))"
proof (cases "escape inp off")
  case (Inl e)
  assume "off \<le> length inp"
  with Inl show ?thesis
    by (auto simp: escape_def take_byte_def unexpected_def peek_def
        split: option.splits if_splits prod.splits dest: hex_loop_bound)
next
  case (Inr r)
  obtain b off' where r: "r = (b, off')" by (cases r)
  assume "off \<le> length inp"
  then have "off' \<le> length inp"
    using Inr r
    by (auto simp: escape_def take_byte_Ok peek_Some split: sum.splits option.splits if_splits
        prod.splits dest: hex_loop_bound octal_loop_bound)
  with Inr r escape_advances [of inp off b off'] show ?thesis by simp
qed

lemma c_string_ref_ok:
  assumes "off \<le> length inp" and "length decoded \<le> max_decoded_string_bytes lim"
  shows "step_ok (\<lambda>bs. length bs \<le> max_decoded_string_bytes lim) inp lim off
    (Some (c_string_ref inp lim off decoded))"
  using assms
proof (induction "length inp - off" arbitrary: off decoded rule: less_induct)
  case less
  show ?case
  proof (cases "peek inp off")
    case None
    with less.prems show ?thesis by (simp add: c_string_ref.simps [of inp lim off])
  next
    case (Some b)
    then have lt: "off < length inp" by (rule peek_less)
    consider "b = b_quote" | "b = b_backslash" | "b = b_nl \<or> b = b_cr" | "plain_byte b"
      by (auto simp: plain_byte_def)
    then show ?thesis
    proof cases
      case 1
      with Some lt less.prems show ?thesis by (simp add: c_string_ref.simps [of inp lim off])
    next
      case 2
      from lt have "step_ok (\<lambda>_. True) inp lim (off + 1) (Some (escape inp (off + 1)))"
        by (intro escape_ok) simp
      then show ?thesis
      proof (cases rule: step_ok_cases)
        case (1 e)
        with Some 2 show ?thesis by (simp add: c_string_ref.simps [of inp lim off])
      next
        case (2 x off')
        have "step_ok (\<lambda>bs. length bs \<le> max_decoded_string_bytes lim) inp lim off'
            (Some (c_string_ref inp lim off' (decoded @ [x])))"
          if "length decoded < max_decoded_string_bytes lim"
          using less.prems 2 that by (intro less.hyps) auto
        with 2 Some \<open>b = b_backslash\<close> show ?thesis
          by (auto simp: c_string_ref.simps [of inp lim off] intro: step_ok_mono)
      qed
    next
      case 3
      with Some lt show ?thesis by (auto simp: c_string_ref.simps [of inp lim off])
    next
      case 4
      have "step_ok (\<lambda>bs. length bs \<le> max_decoded_string_bytes lim) inp lim (off + 1)
          (Some (c_string_ref inp lim (off + 1) (decoded @ [b])))"
        if "length decoded < max_decoded_string_bytes lim"
        using less.prems lt that by (intro less.hyps) auto
      with 4 Some lt show ?thesis
        using c_string_ref_plain [OF lt, of lim decoded]
        by (auto simp: peek_Some intro: step_ok_mono)
    qed
  qed
qed

lemma c_string_ok:
  "off \<le> length inp \<Longrightarrow>
     step_ok (\<lambda>bs. length bs \<le> max_decoded_string_bytes lim) inp lim off
       (Some (c_string inp lim off))"
  using c_string_ref_ok [of "off + 1" inp "[]" lim]
  by (auto simp: c_string_def expect_def unexpected_def c_string_loop_eq_ref peek_Some
      intro: step_ok_mono)

subsection \<open>Values\<close>

definition identifier_string :: "string \<Rightarrow> bool" where
  "identifier_string s \<longleftrightarrow> s \<noteq> [] \<and> list_all identifier_byte (as_bytes s)"

text \<open>The records the parser can produce under given limits: identifiers are non-empty, strings
  are within the decoded limit, nesting starts below the depth limit, result lists are not
  empty (an empty list is read as a value list) and tokens are 64-bit numbers.\<close>

fun result_wf :: "MiLimits \<Rightarrow> nat \<Rightarrow> MiResult \<Rightarrow> bool"
  and value_wf :: "MiLimits \<Rightarrow> nat \<Rightarrow> MiValue \<Rightarrow> bool"
where
  "result_wf lim d (MiResult name v) = (identifier_string name \<and> value_wf lim d v)"
| "value_wf lim d (Const bs) = (length bs \<le> max_decoded_string_bytes lim)"
| "value_wf lim d (Tuple rs) = (d < max_depth lim \<and> list_all (result_wf lim (d + 1)) rs)"
| "value_wf lim d (ValueList vs) = (d < max_depth lim \<and> list_all (value_wf lim (d + 1)) vs)"
| "value_wf lim d (ResultList rs) =
     (d < max_depth lim \<and> rs \<noteq> [] \<and> list_all (result_wf lim (d + 1)) rs)"

definition headed_wf :: "MiLimits \<Rightarrow> nat option \<Rightarrow> string \<Rightarrow> MiResult list \<Rightarrow> bool" where
  "headed_wf lim t cls rs \<longleftrightarrow>
     (case t of None \<Rightarrow> True | Some n \<Rightarrow> n < 2 ^ 64) \<and> identifier_string cls \<and>
     list_all (result_wf lim 0) rs"

fun record_wf :: "MiLimits \<Rightarrow> MiRecord \<Rightarrow> bool" where
  "record_wf lim (Result t cls rs) = headed_wf lim t cls rs"
| "record_wf lim (ExecAsync t cls rs) = headed_wf lim t cls rs"
| "record_wf lim (StatusAsync t cls rs) = headed_wf lim t cls rs"
| "record_wf lim (NotifyAsync t cls rs) = headed_wf lim t cls rs"
| "record_wf lim (ConsoleStream bs) = (length bs \<le> max_decoded_string_bytes lim)"
| "record_wf lim (TargetStream bs) = (length bs \<le> max_decoded_string_bytes lim)"
| "record_wf lim (LogStream bs) = (length bs \<le> max_decoded_string_bytes lim)"
| "record_wf lim Prompt = True"

lemma scan_identifier_Ok:
  assumes "scan_identifier inp stop s off = Inr off1" and "off \<le> length inp"
  shows "off \<le> off1 \<and> off1 \<le> length inp \<and> list_all identifier_byte (slice inp off off1)"
  using assms
proof (induction inp stop s off rule: scan_identifier.induct)
  case (1 inp stop s off)
  show ?case
  proof (cases "peek inp off")
    case None
    with "1.prems" show ?thesis by (auto simp: scan_identifier.simps [of inp stop s off] slice_def)
  next
    case (Some b)
    then have lt: "off < length inp" and b: "inp ! off = b" by (simp_all add: peek_Some)
    consider "b = stop" | "b \<noteq> stop" "identifier_byte b" | "b \<noteq> stop" "\<not> identifier_byte b" by blast
    then show ?thesis
    proof cases
      case 2
      then have r: "scan_identifier inp stop s (off + 1) = Inr off1"
        using "1.prems"(1) Some by (simp add: scan_identifier.simps [of inp stop s off])
      have IH: "off + 1 \<le> off1 \<and> off1 \<le> length inp \<and> list_all identifier_byte (slice inp (off + 1) off1)"
        using "1.IH" [OF Some 2(1)] r 2 lt by simp
      then have "slice inp off off1 = b # slice inp (off + 1) off1"
        using b lt by (simp add: slice_def Cons_nth_drop_Suc [symmetric] Suc_diff_le take_Suc_Cons
            flip: Suc_diff_Suc)
      with IH 2 show ?thesis by simp
    qed (use "1.prems" Some in \<open>auto simp: scan_identifier.simps [of inp stop s off] slice_def unexpected_def\<close>)
  qed
qed

lemma scan_identifier_Err:
  "scan_identifier inp stop s off = Inl e \<Longrightarrow> off \<le> length inp \<Longrightarrow> error_ok inp lim e"
proof (induction inp stop s off rule: scan_identifier.induct)
  case (1 inp stop s off)
  then show ?case
    by (fastforce simp: scan_identifier.simps [of inp stop s off] unexpected_def peek_Some
        split: option.splits if_splits)
qed

lemma identifier_slice:
  assumes "scan_identifier inp stop s off = Inr off1" "off \<le> length inp" "off1 \<noteq> off"
  shows "identifier_string (string_of_bytes (slice inp off off1))"
proof -
  note ok = scan_identifier_Ok [OF assms(1,2)]
  with assms(3) have "slice inp off off1 \<noteq> []" by (auto simp: slice_def)
  then have "string_of_bytes (slice inp off off1) \<noteq> []"
    by (metis length_0_conv length_string_of_bytes)
  with ok show ?thesis by (simp add: identifier_string_def)
qed

lemma open_nested_Err:
  "open_nested inp lim depth b s off = Inl e \<Longrightarrow> off \<le> length inp \<Longrightarrow> error_ok inp lim e"
  by (auto simp: open_nested_def check_depth_def expect_def unexpected_def result_simps
      split: if_splits)

lemma close_with_ok:
  assumes "step_ok P inp lim off m" and "\<And>xs. P xs \<Longrightarrow> Q (mk xs)"
  shows "step_ok Q inp lim off (close_with inp b s mk m)"
  unfolding close_with_def
  by (rule step_ok_pbind [OF assms(1)])
    (auto simp: expect_def unexpected_def peek_Some assms(2))

lemma legacy_script_ok:
  assumes "off \<le> length inp"
  shows "step_ok (value_wf lim depth) inp lim off (legacy_script inp lim depth off)"
proof (cases "open_nested inp lim depth b_lbrace ''{'' off")
  case (Inl e)
  with assms show ?thesis by (simp add: legacy_script_def open_nested_Err)
next
  case (Inr off1)
  then have o: "depth < max_depth lim" "off1 = off + 1" "off1 \<le> length inp"
    by (auto simp: open_nested_Ok peek_Some)
  have "step_ok (\<lambda>xs. xs \<noteq> [] \<and> list_all (\<lambda>bs. length bs \<le> max_decoded_string_bytes lim) xs) inp lim off1
      (sep_loop inp (\<lambda>i. Some (c_string inp lim i)) off1)"
    by (rule sep_loop_ok) (auto intro: c_string_ok o(3))
  then have "step_ok (value_wf lim depth) inp lim off1
      (close_with inp b_rbrace ''}'' (\<lambda>xs. ValueList (map Const xs))
        (sep_loop inp (\<lambda>i. Some (c_string inp lim i)) off1))"
    by (rule close_with_ok) (auto simp: o(1) list_all_iff)
  with Inr o show ?thesis by (auto simp: legacy_script_def intro: step_ok_mono)
qed

text \<open>One lemma per grammar rule, given the rules it calls; the recursion is then plain.\<close>

lemma parse_result_ok:
  assumes off: "off \<le> length inp"
    and val: "\<And>i. off \<le> i \<Longrightarrow> i \<le> length inp \<Longrightarrow>
      step_ok (value_wf lim depth) inp lim i (parse_value inp lim depth i)"
  shows "step_ok (result_wf lim depth) inp lim off (parse_result inp lim depth off)"
proof (cases "scan_identifier inp b_equals ''result name followed by ='' off")
  case (Inl e)
  with off show ?thesis by (simp add: parse_result.simps scan_identifier_Err)
next
  case (Inr off1)
  note scan = scan_identifier_Ok [OF Inr off]
  show ?thesis
  proof (cases "off1 = off \<or> peek inp off1 \<noteq> Some b_equals")
    case True
    with Inr scan show ?thesis by (simp add: parse_result.simps)
  next
    case False
    then have lt: "off1 + 1 \<le> length inp" and ne: "off1 \<noteq> off" by (auto simp: peek_Some)
    let ?name = "string_of_bytes (slice inp off off1)"
    let ?m = "if ?name = ''script'' \<and> starts_with (drop (off1 + 1) inp) [b_lbrace, b_quote]
             then legacy_script inp lim depth (off1 + 1) else parse_value inp lim depth (off1 + 1)"
    have eq: "parse_result inp lim depth off =
        pbind ?m (\<lambda>v off3. Some (Inr (MiResult ?name v, off3)))"
      using Inr False by (subst parse_result.simps) (simp add: Let_def)
    have "step_ok (value_wf lim depth) inp lim (off1 + 1) ?m"
      using lt scan val [of "off1 + 1"] by (auto intro: legacy_script_ok)
    then have "step_ok (value_wf lim depth) inp lim off ?m"
      by (rule step_ok_mono) (use scan in simp)
    then show ?thesis
      unfolding eq
      by (rule step_ok_pbind) (simp add: identifier_slice [OF Inr off ne])
  qed
qed

lemma sep_close_ok:
  assumes "off1 \<le> length inp" "off \<le> off1"
    and "\<And>i. i \<le> length inp \<Longrightarrow> step_ok P inp lim i (element i)"
    and "\<And>xs. xs \<noteq> [] \<Longrightarrow> list_all P xs \<Longrightarrow> Q (mk xs)"
  shows "step_ok Q inp lim off (close_with inp b s mk (sep_loop inp element off1))"
proof -
  have "step_ok (\<lambda>xs. xs \<noteq> [] \<and> list_all P xs) inp lim off1 (sep_loop inp element off1)"
    using assms(1,3) by (intro sep_loop_ok) auto
  then have "step_ok Q inp lim off1 (close_with inp b s mk (sep_loop inp element off1))"
    by (rule close_with_ok) (simp add: assms(4))
  then show ?thesis using assms(2) by (rule step_ok_mono)
qed

lemma parse_tuple_ok:
  assumes "off \<le> length inp"
    and "\<And>i. depth < max_depth lim \<Longrightarrow> i \<le> length inp \<Longrightarrow>
      step_ok (result_wf lim (depth + 1)) inp lim i (parse_result inp lim (depth + 1) i)"
  shows "step_ok (value_wf lim depth) inp lim off (parse_tuple inp lim depth off)"
proof (cases "open_nested inp lim depth b_lbrace ''{'' off")
  case (Inl e)
  with assms show ?thesis by (simp add: parse_tuple.simps open_nested_Err)
next
  case (Inr off1)
  then have o: "depth < max_depth lim" "off1 = off + 1" "off1 \<le> length inp"
    by (auto simp: open_nested_Ok peek_Some)
  have "step_ok (value_wf lim depth) inp lim off
      (close_with inp b_rbrace ''}'' Tuple
        (sep_loop inp (\<lambda>i. parse_result inp lim (depth + 1) i) off1))"
    by (rule sep_close_ok [where P = "result_wf lim (depth + 1)"])
      (use o assms(2) in auto)
  with Inr o show ?thesis
    by (auto simp: parse_tuple.simps close_with_def pbind_def expect_def peek_Some)
qed

lemma parse_list_ok:
  assumes "off \<le> length inp"
    and "\<And>i. depth < max_depth lim \<Longrightarrow> i \<le> length inp \<Longrightarrow>
      step_ok (result_wf lim (depth + 1)) inp lim i (parse_result inp lim (depth + 1) i)"
    and "\<And>i. depth < max_depth lim \<Longrightarrow> i \<le> length inp \<Longrightarrow>
      step_ok (value_wf lim (depth + 1)) inp lim i (parse_value inp lim (depth + 1) i)"
  shows "step_ok (value_wf lim depth) inp lim off (parse_list inp lim depth off)"
proof (cases "open_nested inp lim depth b_lbracket ''['' off")
  case (Inl e)
  with assms show ?thesis by (simp add: parse_list.simps open_nested_Err)
next
  case (Inr off1)
  then have o: "depth < max_depth lim" "off1 = off + 1" "off1 \<le> length inp"
    by (auto simp: open_nested_Ok peek_Some)
  have "step_ok (value_wf lim depth) inp lim off
      (close_with inp b_rbracket '']'' ResultList
        (sep_loop inp (\<lambda>i. parse_result inp lim (depth + 1) i) off1))"
    by (rule sep_close_ok [where P = "result_wf lim (depth + 1)"]) (use o assms(2) in auto)
  moreover have "step_ok (value_wf lim depth) inp lim off
      (close_with inp b_rbracket '']'' ValueList
        (sep_loop inp (\<lambda>i. parse_value inp lim (depth + 1) i) off1))"
    by (rule sep_close_ok [where P = "value_wf lim (depth + 1)"]) (use o assms(3) in auto)
  ultimately show ?thesis
    using Inr o by (auto simp: parse_list.simps peek_Some)
qed

lemma parse_value_ok:
  "off \<le> length inp \<Longrightarrow> step_ok (value_wf lim depth) inp lim off (parse_value inp lim depth off)"
proof (induction "max_depth lim - depth" arbitrary: depth off rule: less_induct)
  case less
  have val: "step_ok (value_wf lim (depth + 1)) inp lim i (parse_value inp lim (depth + 1) i)"
    if "depth < max_depth lim" "i \<le> length inp" for i
    using that by (intro less.hyps) auto
  have res: "step_ok (result_wf lim (depth + 1)) inp lim i (parse_result inp lim (depth + 1) i)"
    if "depth < max_depth lim" "i \<le> length inp" for i
    using that val by (intro parse_result_ok) auto
  have "step_ok (value_wf lim depth) inp lim off
      (pbind (Some (c_string inp lim off)) (\<lambda>bs off1. Some (Inr (Const bs, off1))))"
    by (rule step_ok_pbind [OF c_string_ok [OF less.prems]]) simp
  with less.prems val res show ?case
    by (auto simp: parse_value.simps intro: parse_tuple_ok parse_list_ok)
qed

subsection \<open>Records\<close>

lemma token_ok:
  "off \<le> length inp \<Longrightarrow> token inp off = Inr (t, off') \<Longrightarrow>
     off \<le> off' \<and> off' \<le> length inp \<and> (case t of None \<Rightarrow> True | Some n \<Rightarrow> n < 2 ^ 64)"
proof -
  assume a: "off \<le> length inp" "token inp off = Inr (t, off')"
  have "length (takeWhile is_ascii_digit (drop off inp)) \<le> length inp - off"
    using length_takeWhile_le [of is_ascii_digit "drop off inp"] by simp
  with a show ?thesis
    by (auto simp: token_def from_str_radix_def Let_def split: if_splits option.splits)
qed

lemma token_Err: "off \<le> length inp \<Longrightarrow> token inp off = Inl e \<Longrightarrow> error_ok inp lim e"
proof -
  assume a: "off \<le> length inp" "token inp off = Inl e"
  then have "e = InvalidToken off" and "takeWhile is_ascii_digit (drop off inp) \<noteq> []"
    by (auto simp: token_def Let_def split: if_splits option.splits)
  then have "drop off inp \<noteq> []" by auto
  with \<open>e = _\<close> show ?thesis by simp
qed

lemma class_and_results_ok:
  assumes "off \<le> length inp"
  shows "step_ok (\<lambda>(cls, rs). identifier_string cls \<and> list_all (result_wf lim 0) rs) inp lim off
    (class_and_results inp lim off)"
proof (cases "scan_identifier inp b_comma ''result or async class'' off")
  case (Inl e)
  with assms show ?thesis by (simp add: class_and_results_def scan_identifier_Err)
next
  case (Inr off1)
  note scan = scan_identifier_Ok [OF Inr assms]
  show ?thesis
  proof (cases "off1 \<noteq> off \<and> peek inp off1 = Some b_comma")
    case True
    then have lt: "off1 < length inp" by (auto simp: peek_Some)
    have "step_ok (\<lambda>xs. xs \<noteq> [] \<and> list_all (result_wf lim 0) xs) inp lim (off1 + 1)
        (sep_loop inp (\<lambda>i. parse_result inp lim 0 i) (off1 + 1))"
      using lt by (intro sep_loop_ok parse_result_ok parse_value_ok) auto
    then have "step_ok (\<lambda>xs. xs \<noteq> [] \<and> list_all (result_wf lim 0) xs) inp lim off
        (sep_loop inp (\<lambda>i. parse_result inp lim 0 i) (off1 + 1))"
      by (rule step_ok_mono) (use scan in simp)
    then have "step_ok (\<lambda>(cls, rs). identifier_string cls \<and> list_all (result_wf lim 0) rs) inp lim off
        (pbind (sep_loop inp (\<lambda>i. parse_result inp lim 0 i) (off1 + 1))
          (\<lambda>rs off2. Some (Inr ((string_of_bytes (slice inp off off1), rs), off2))))"
      by (rule step_ok_pbind) (use identifier_slice [OF Inr assms] True in simp)
    with True Inr show ?thesis by (simp add: class_and_results_def Let_def)
  next
    case False
    with Inr scan identifier_slice [OF Inr assms] show ?thesis
      by (auto simp: class_and_results_def Let_def)
  qed
qed

lemma prefix_record_ok:
  assumes "off \<le> length inp" and "case t of None \<Rightarrow> True | Some n \<Rightarrow> n < 2 ^ 64"
  shows "step_ok (record_wf lim) inp lim off (prefix_record inp lim t prefix off)"
proof -
  have async: "step_ok (record_wf lim) inp lim off
      (pbind (class_and_results inp lim off) (\<lambda>(cls, rs) off'. Some (Inr (mk t cls rs, off'))))"
    if "\<And>cls rs. record_wf lim (mk t cls rs) = headed_wf lim t cls rs" for mk
    by (rule step_ok_pbind [OF class_and_results_ok [OF assms(1)]])
      (use assms(2) in \<open>auto simp: that headed_wf_def\<close>)
  have stream: "step_ok (record_wf lim) inp lim off
      (pbind (Some (c_string inp lim off)) (\<lambda>bs off'. Some (Inr (mk bs, off'))))"
    if "\<And>bs. record_wf lim (mk bs) = (length bs \<le> max_decoded_string_bytes lim)" for mk
    by (rule step_ok_pbind [OF c_string_ok [OF assms(1)]]) (auto simp: that)
  show ?thesis
    using assms(1) by (simp add: prefix_record_def Let_def async stream)
qed

lemma parse_whole_ok:
  "\<exists>r. parse_whole inp lim = Some r \<and>
     (case r of Inl e \<Rightarrow> error_ok inp lim e | Inr rec \<Rightarrow> record_wf lim rec)"
proof (cases "token inp 0")
  case (Inl e)
  then show ?thesis using token_Err [of 0 inp e] by (simp add: parse_whole_def)
next
  case (Inr r)
  obtain t off1 where r: "r = (t, off1)" by (cases r)
  note tok = token_ok [of 0 inp t off1, OF _ Inr [unfolded r]]
  show ?thesis
  proof (cases "peek inp off1")
    case None
    with tok Inr r show ?thesis by (simp add: parse_whole_def take_byte_def unexpected_def)
  next
    case (Some b)
    then have lt: "off1 + 1 \<le> length inp" by (simp add: peek_Some)
    from prefix_record_ok [OF lt, of t lim b] tok
    have "step_ok (record_wf lim) inp lim (off1 + 1) (prefix_record inp lim t b (off1 + 1))"
      by simp
    then show ?thesis
      by (cases rule: step_ok_cases)
        (use Inr r Some in \<open>auto simp: parse_whole_def take_byte_def unexpected_def\<close>)
  qed
qed

lemma parse_record_ok:
  "\<exists>r. parse_record inp lim = Some r \<and>
     (case r of Inl e \<Rightarrow> error_ok inp lim e | Inr rec \<Rightarrow> record_wf lim rec)"
  using parse_whole_ok [of inp lim] by (simp add: parse_record_def)

section \<open>Properties\<close>

text \<open>C8. The parser always returns: no input makes the element loops run forever.\<close>

theorem parse_record_total: "\<exists>r. parse_record inp lim = Some r"
  using parse_record_ok by blast

text \<open>C9. Whatever the parser accepts respects its limits: every decoded string is within
  \<open>max_decoded_string_bytes\<close>, nesting is below \<open>max_depth\<close>, names and classes are
  non-empty identifiers, tokens fit 64 bits, and the record itself was within
  \<open>max_record_bytes\<close>.\<close>

theorem parse_record_limits:
  assumes "parse_record inp lim = Some (Ok rec)"
  shows "record_wf lim rec \<and> length inp \<le> max_record_bytes lim"
  using assms parse_record_ok [of inp lim]
  by (auto simp: parse_record_def split: if_splits)

theorem parse_record_limits_witness:
  "record_wf default_limits Prompt \<and>
   length (as_bytes '' (gdb) '') \<le> max_record_bytes default_limits"
proof -
  have "parse_record (as_bytes '' (gdb) '') default_limits = Some (Ok Prompt)"
    by (simp add: parse_record_def trim_ascii_def is_ascii_whitespace_def byte_of_char_def
        default_limits_def)
  from parse_record_limits [OF this] show ?thesis .
qed

text \<open>C10. Every rejection is located: an unexpected-byte error names an offset of the record or
  its end and exactly the byte found there, and a limit error names a configured limit.\<close>

theorem parse_record_error_located:
  assumes "parse_record inp lim = Some (Err e)"
  shows "error_ok inp lim e"
  using assms parse_record_ok [of inp lim] by auto

theorem parse_record_error_located_witness:
  "error_ok [0x5E] default_limits (Unexpected 1 ''non-empty result or async class'' None)"
proof -
  have "parse_record [0x5E] default_limits =
      Some (Err (Unexpected 1 ''non-empty result or async class'' None))"
    by (simp add: parse_record_def trim_ascii_def is_ascii_whitespace_def byte_of_char_def
        default_limits_def parse_whole_def token_def take_byte_def peek_def is_ascii_digit_def
        prefix_record_def class_and_results_def scan_identifier.simps unexpected_def pbind_def)
  from parse_record_error_located [OF this] show ?thesis .
qed

text \<open>C11. The span-copying string decoder of the parser is equivalent to the decoder that takes
  one byte at a time and checks the limit at every byte, errors included.\<close>

theorem c_string_span_equiv:
  "c_string inp lim off =
     (case expect inp off b_quote ''opening quote'' of
        Inl e \<Rightarrow> Err e
      | Inr off1 \<Rightarrow> c_string_ref inp lim off1 [])"
  by (simp add: c_string_def c_string_loop_eq_ref split: sum.splits)

end
