(* ===== verification/MI_Roundtrip.thy ===== *)
theory MI_Roundtrip
  imports MI_Parser_Sound
begin

text \<open>
  Completeness of the MI parser: a printer for the grammar of GDB/MI output records, with
  strings quoted by the repository's own encoder, and the proof that parsing what it prints
  gives the record back.
\<close>

section \<open>The printer\<close>

fun join_comma :: "bytes list \<Rightarrow> bytes" where
  "join_comma [] = []"
| "join_comma [x] = x"
| "join_comma (x # y # zs) = x @ b_comma # join_comma (y # zs)"

definition render_string :: "bytes \<Rightarrow> bytes" where
  "render_string bs = as_bytes (quote_c_string bs)"

fun render_result :: "MiResult \<Rightarrow> bytes" and render_value :: "MiValue \<Rightarrow> bytes" where
  "render_result (MiResult name v) = as_bytes name @ b_equals # render_value v"
| "render_value (Const bs) = render_string bs"
| "render_value (Tuple rs) = b_lbrace # join_comma (map render_result rs) @ [b_rbrace]"
| "render_value (ValueList vs) = b_lbracket # join_comma (map render_value vs) @ [b_rbracket]"
| "render_value (ResultList rs) = b_lbracket # join_comma (map render_result rs) @ [b_rbracket]"

definition render_headed :: "u8 \<Rightarrow> nat option \<Rightarrow> string \<Rightarrow> MiResult list \<Rightarrow> bytes" where
  "render_headed prefix t cls rs =
     (case t of None \<Rightarrow> [] | Some n \<Rightarrow> as_bytes (show_nat n)) @ prefix # as_bytes cls @
     (if rs = [] then [] else b_comma # join_comma (map render_result rs))"

fun render_record :: "MiRecord \<Rightarrow> bytes" where
  "render_record (Result t cls rs) = render_headed 0x5E t cls rs"
| "render_record (ExecAsync t cls rs) = render_headed 0x2A t cls rs"
| "render_record (StatusAsync t cls rs) = render_headed 0x2B t cls rs"
| "render_record (NotifyAsync t cls rs) = render_headed 0x3D t cls rs"
| "render_record (ConsoleStream bs) = 0x7E # render_string bs"
| "render_record (TargetStream bs) = 0x40 # render_string bs"
| "render_record (LogStream bs) = 0x26 # render_string bs"
| "render_record Prompt = as_bytes ''(gdb)''"

section \<open>Text at an offset\<close>

definition at :: "bytes \<Rightarrow> nat \<Rightarrow> bytes \<Rightarrow> bool" where
  "at inp off s \<longleftrightarrow> off \<le> length inp \<and> starts_with (drop off inp) s"

lemma at_Nil [simp]: "at inp off [] \<longleftrightarrow> off \<le> length inp"
  by (simp add: at_def)

lemma at_Cons [simp]: "at inp off (b # s) \<longleftrightarrow> peek inp off = Some b \<and> at inp (off + 1) s"
proof (cases "off < length inp")
  case True
  then have "drop off inp = inp ! off # drop (Suc off) inp" by (simp add: Cons_nth_drop_Suc)
  with True show ?thesis by (auto simp: at_def peek_def)
next
  case False
  then show ?thesis by (auto simp: at_def peek_def)
qed

lemma at_append [simp]: "at inp off (s @ t) \<longleftrightarrow> at inp off s \<and> at inp (off + length s) t"
proof (induction s arbitrary: off)
  case Nil
  then show ?case by (auto simp: at_def)
next
  case (Cons b s)
  show ?case by (auto simp: Cons)
qed

lemma at_le: "at inp off s \<Longrightarrow> off + length s \<le> length inp"
  by (auto simp: at_def starts_with_iff dest!: arg_cong [where f = length])

lemma at_slice: "at inp off s \<Longrightarrow> slice inp off (off + length s) = s"
  by (auto simp: at_def starts_with_iff slice_def)

lemma at_whole: "at inp 0 inp"
  by (simp add: at_def starts_with_iff)

section \<open>Strings\<close>

lemma simple_escape_octal: "0x30 \<le> b \<Longrightarrow> b \<le> 0x37 \<Longrightarrow> simple_escape b = None"
  by (auto simp: simple_escape_def)

lemma octal_digit_byte:
  assumes "d < 8"
  shows "0x30 \<le> byte_of_char (digit_char d)" "byte_of_char (digit_char d) \<le> 0x37"
    and "byte_of_char (digit_char d) - 0x30 = word_of_nat d"
    and "simple_escape (byte_of_char (digit_char d)) = None"
    and "byte_of_char (digit_char d) \<noteq> 0x78"
proof -
  show ge: "0x30 \<le> byte_of_char (digit_char d)" and le: "byte_of_char (digit_char d) \<le> 0x37"
    using assms by (simp_all add: word_le_nat_alt digit_char_def)
  show "byte_of_char (digit_char d) - 0x30 = word_of_nat d"
    using assms by (simp add: digit_char_byte)
  show "simple_escape (byte_of_char (digit_char d)) = None"
    using ge le by (rule simple_escape_octal)
  show "byte_of_char (digit_char d) \<noteq> 0x78"
    using le by auto
qed

lemma octal_value:
  "(word_of_nat (unat b div 64) * 8 + word_of_nat (unat b div 8 mod 8)) * 8 +
     word_of_nat (unat b mod 8) = (b :: u8)"
proof -
  let ?n = "unat b"
  have "?n div 64 = ?n div 8 div 8" by (simp flip: div_mult2_eq)
  then have "?n div 64 * 8 + ?n div 8 mod 8 = ?n div 8" by simp
  then have "(?n div 64 * 8 + ?n div 8 mod 8) * 8 + ?n mod 8 = ?n" by simp
  then have "word_of_nat ((?n div 64 * 8 + ?n div 8 mod 8) * 8 + ?n mod 8) = b"
    by simp
  then show ?thesis by (simp only: of_nat_add of_nat_mult of_nat_numeral)
qed

lemma escape_octal3:
  assumes "at inp off (as_bytes (octal3 b))"
  shows "escape inp off = Ok (b, off + 3)"
proof -
  have d: "unat b div 64 < 8" "unat b div 8 mod 8 < 8" "unat b mod 8 < 8"
    using unat_u8_less [of b] by linarith+
  show ?thesis
    using assms octal_digit_byte [OF d(1)] octal_digit_byte [OF d(2)] octal_digit_byte [OF d(3)]
      octal_value [of b]
    by (auto simp: octal3_def escape_def take_byte_def numeral_2_eq_2)
qed

lemma quote_byte_forms:
  "(\<exists>c. quote_byte b = [CHR 0x5C, c] \<and> simple_escape (byte_of_char c) = Some b) \<or>
   quote_byte b = [char_of_byte b] \<and> plain_byte b \<or> quote_byte b = CHR 0x5C # octal3 b"
proof -
  consider "b = b_backslash" | "b = b_quote" | "b = b_nl" | "b = b_cr" | "b = b_tab"
    | "plain_byte b" "b \<noteq> b_tab"
    by (auto simp: plain_byte_def)
  then show ?thesis
    by cases (simp_all add: quote_byte_def simple_escape_def byte_of_char_def plain_byte_def)
qed

lemma quote_byte_cases:
  obtains (esc) c where "quote_byte b = [CHR 0x5C, c]" "simple_escape (byte_of_char c) = Some b"
  | (plain) "quote_byte b = [char_of_byte b]" "plain_byte b"
  | (octal) "quote_byte b = CHR 0x5C # octal3 b"
  using quote_byte_forms [of b] by blast

lemma c_string_ref_quoted:
  assumes "at inp off (as_bytes (concat (map quote_byte bs)) @ [b_quote])"
    and "length decoded + length bs \<le> max_decoded_string_bytes lim"
  shows "c_string_ref inp lim off decoded =
    Ok (decoded @ bs, off + length (concat (map quote_byte bs)) + 1)"
  using assms
proof (induction bs arbitrary: off decoded)
  case Nil
  then show ?case by (simp add: c_string_ref.simps [of inp lim off])
next
  case (Cons b bs)
  have room: "length decoded < max_decoded_string_bytes lim"
    "length (decoded @ [b]) + length bs \<le> max_decoded_string_bytes lim"
    using Cons.prems(2) by simp_all
  have bsl: "byte_of_char (CHR 0x5C) = b_backslash" by (simp add: byte_of_char_def)
  have rest: "c_string_ref inp lim (off + length (quote_byte b)) (decoded @ [b]) =
      Ok (decoded @ b # bs, off + length (concat (map quote_byte (b # bs))) + 1)"
    using Cons.IH [OF _ room(2), of "off + length (quote_byte b)"] Cons.prems(1)
    by (simp add: add.assoc)
  show ?case
  proof (cases b rule: quote_byte_cases)
    case (esc c)
    with Cons.prems(1) have "escape inp (off + 1) = Ok (b, off + 2)"
      by (simp add: escape_def take_byte_def)
    with esc Cons.prems(1) rest room bsl show ?thesis
      by (simp add: c_string_ref.simps [of inp lim off])
  next
    case plain
    with Cons.prems(1) have "off < length inp" "inp ! off = b" by (auto simp: peek_Some)
    with plain rest room show ?thesis by (simp add: c_string_ref_plain)
  next
    case octal
    with Cons.prems(1) have "escape inp (off + 1) = Ok (b, off + 4)"
      using escape_octal3 [of inp "off + 1" b] by simp
    moreover have "length (quote_byte b) = 4" using octal by (simp add: octal3_def)
    ultimately show ?thesis
      using octal Cons.prems(1) rest room bsl
      by (simp add: c_string_ref.simps [of inp lim off])
  qed
qed

lemma c_string_quoted:
  assumes "at inp off (render_string bs)" and "length bs \<le> max_decoded_string_bytes lim"
  shows "c_string inp lim off = Ok (bs, off + length (render_string bs))"
proof -
  have q: "byte_of_char (CHR 0x22) = b_quote" by (simp add: byte_of_char_def)
  have "at inp (off + 1) (as_bytes (concat (map quote_byte bs)) @ [b_quote])"
    and "peek inp off = Some b_quote"
    using assms(1) q by (simp_all add: render_string_def quote_c_string_def)
  with c_string_ref_quoted [OF this(1), of "[]" lim] assms(2) show ?thesis
    by (simp add: c_string_def c_string_loop_eq_ref expect_def render_string_def quote_c_string_def)
qed

section \<open>Values\<close>

lemma identifier_byte_not:
  assumes "identifier_byte b"
  shows "b \<notin> {b_equals, b_comma, b_rbracket, b_lbrace, b_rbrace, b_lbracket, b_quote}"
    and "\<not> is_ascii_whitespace b"
  using assms
  by (auto simp: identifier_byte_def is_ascii_alphanumeric_def is_ascii_digit_def
      is_ascii_whitespace_def)

lemma scan_identifier_at:
  assumes "at inp off s" "list_all identifier_byte s" "stop \<in> {b_equals, b_comma}"
    and "peek inp (off + length s) = Some stop \<or> off + length s = length inp"
  shows "scan_identifier inp stop msg off = Ok (off + length s)"
  using assms
proof (induction s arbitrary: off)
  case Nil
  then show ?case by (auto simp: scan_identifier.simps [of inp stop msg off] peek_def)
next
  case (Cons b s)
  then have "b \<noteq> stop" using identifier_byte_not(1) [of b] by auto
  with Cons show ?case by (simp add: scan_identifier.simps [of inp stop msg off])
qed

lemma looks_loop_at:
  assumes "at inp off s" "list_all identifier_byte s" "peek inp (off + length s) = Some b_equals"
    and "start < off + length s"
  shows "looks_loop inp start off"
  using assms
proof (induction s arbitrary: off)
  case Nil
  then show ?case by (simp add: looks_loop.simps [of inp start off])
next
  case (Cons b s)
  then show ?case
    using identifier_byte_not [of b] by (simp add: looks_loop.simps [of inp start off])
qed

lemma render_value_starts:
  obtains (quote) r where "render_value v = b_quote # r"
  | (brace) r where "render_value v = b_lbrace # r"
  | (bracket) r where "render_value v = b_lbracket # r"
proof (cases v)
  case (Const bs)
  then show thesis
    by (intro quote) (simp add: render_string_def quote_c_string_def byte_of_char_def)
qed (use brace bracket in auto)

lemma render_result_starts:
  assumes "identifier_string name"
  shows "\<exists>b r. render_result (MiResult name v) = b # r \<and> identifier_byte b"
  using assms by (cases name) (auto simp: identifier_string_def)

lemma join_comma_Cons_starts:
  "xs \<noteq> [] \<Longrightarrow> hd xs = b # r \<Longrightarrow> \<exists>r'. join_comma xs = b # r'"
  by (induction xs rule: join_comma.induct) auto

lemma join_comma_at_hd: "xs \<noteq> [] \<Longrightarrow> at inp off (join_comma xs) \<Longrightarrow> at inp off (hd xs)"
  by (induction xs rule: join_comma.induct) auto

lemma sep_loop_at:
  assumes "xs \<noteq> []" "at inp off (join_comma (map pr xs))"
    and "peek inp (off + length (join_comma (map pr xs))) \<noteq> Some b_comma"
    and "\<And>x i. x \<in> set xs \<Longrightarrow> at inp i (pr x) \<Longrightarrow> element i = Some (Inr (x, i + length (pr x)))"
  shows "sep_loop inp element off = Some (Inr (xs, off + length (join_comma (map pr xs))))"
  using assms
proof (induction xs arbitrary: off rule: induct_list012)
  case (2 x)
  then have "element off = Some (Inr (x, off + length (pr x)))" by simp
  with 2 show ?case by (simp add: sep_loop.simps [of inp element off])
next
  case (3 x y zs)
  have e: "element off = Some (Inr (x, off + length (pr x)))" using 3 by simp
  have "sep_loop inp element (off + length (pr x) + 1) =
      Some (Inr (y # zs, off + length (pr x) + 1 + length (join_comma (map pr (y # zs)))))"
    using "3.prems" by (intro "3.IH"(2)) (auto simp: add.assoc)
  with e "3.prems"(2) show ?case by (simp add: sep_loop.simps [of inp element off] add.assoc)
qed simp

lemma not_script_tuple:
  assumes "value_wf lim d v" "at inp off (render_value v)"
  shows "\<not> starts_with (drop off inp) [b_lbrace, b_quote]"
proof
  assume "starts_with (drop off inp) [b_lbrace, b_quote]"
  then have "at inp off [b_lbrace, b_quote]"
    using assms(2) by (auto simp: at_def)
  then have p: "peek inp off = Some b_lbrace" "peek inp (off + 1) = Some b_quote" by simp_all
  with assms(2) obtain rs where v: "v = Tuple rs"
    by (cases v) (auto simp: render_string_def quote_c_string_def byte_of_char_def)
  show False
  proof (cases rs)
    case Nil
    with v assms(2) p show False by simp
  next
    case (Cons r rs')
    obtain name w where r: "r = MiResult name w" by (cases r)
    with assms(1) v Cons obtain b t where "render_result r = b # t" "identifier_byte b"
      using render_result_starts [of name w] by auto
    moreover have "at inp (off + 1) (render_result r)"
      using assms(2) v Cons join_comma_at_hd [of "map render_result rs" inp "off + 1"] by simp
    ultimately show False using p identifier_byte_not(1) [of b] by simp
  qed
qed

lemma open_nested_at:
  "d < max_depth lim \<Longrightarrow> peek inp off = Some b \<Longrightarrow> open_nested inp lim d b s off = Ok (off + 1)"
  by (simp add: open_nested_Ok)

lemma close_with_at:
  "peek inp off = Some b \<Longrightarrow>
     close_with inp b s mk (Some (Inr (xs, off))) = Some (Inr (mk xs, off + 1))"
  by (simp add: close_with_def pbind_def expect_def)

lemma parse_result_at:
  assumes "identifier_string name" "value_wf lim d v"
    and "at inp off (render_result (MiResult name v))"
    and "\<And>i. at inp i (render_value v) \<Longrightarrow>
      parse_value inp lim d i = Some (Inr (v, i + length (render_value v)))"
  shows "parse_result inp lim d off =
    Some (Inr (MiResult name v, off + length (render_result (MiResult name v))))"
proof -
  let ?n = "length name"
  have a: "at inp off (as_bytes name)" "peek inp (off + ?n) = Some b_equals"
    "at inp (off + ?n + 1) (render_value v)"
    using assms(3) by auto
  have "scan_identifier inp b_equals ''result name followed by ='' off = Ok (off + ?n)"
    using scan_identifier_at [of inp off "as_bytes name" b_equals] a assms(1)
    by (simp add: identifier_string_def)
  moreover have "?n \<noteq> 0" using assms(1) by (simp add: identifier_string_def)
  moreover have "string_of_bytes (slice inp off (off + ?n)) = name"
    using at_slice [OF a(1)] by simp
  ultimately show ?thesis
    using a assms(4) [OF a(3)] not_script_tuple [OF assms(2) a(3)]
    by (simp add: parse_result.simps [of inp lim d off] Let_def pbind_def add.assoc)
qed

lemma peek_render_value:
  "at inp off (render_value v) \<Longrightarrow> peek inp off \<in> {Some b_quote, Some b_lbrace, Some b_lbracket}"
  by (cases v rule: render_value_starts) auto

lemma peek_render_result:
  "identifier_string (result_name r) \<Longrightarrow> at inp off (render_result r) \<Longrightarrow>
     \<exists>b. peek inp off = Some b \<and> identifier_byte b"
  by (cases r; cases "result_name r") (auto simp: identifier_string_def)

lemma looks_like_result_at:
  assumes "identifier_string (result_name r)" "at inp off (render_result r)"
  shows "looks_like_result inp off"
proof -
  obtain name v where r: "r = MiResult name v" by (cases r)
  with assms show ?thesis
    using looks_loop_at [of inp off "as_bytes name" off]
    by (auto simp: looks_like_result_def identifier_string_def)
qed

lemma not_looks_like_value:
  assumes "at inp off (render_value v)"
  shows "\<not> looks_like_result inp off"
  using peek_render_value [OF assms]
  by (auto simp: looks_like_result_def looks_loop.simps [of inp off off])

lemma parse_tuple_at:
  assumes "d < max_depth lim" "at inp off (render_value (Tuple rs))"
    and "\<And>r. r \<in> set rs \<Longrightarrow> identifier_string (result_name r)"
    and "\<And>r i. r \<in> set rs \<Longrightarrow> at inp i (render_result r) \<Longrightarrow>
      parse_result inp lim (d + 1) i = Some (Inr (r, i + length (render_result r)))"
  shows "parse_value inp lim d off = Some (Inr (Tuple rs, off + length (render_value (Tuple rs))))"
proof (cases "rs = []")
  case True
  with assms(1,2) show ?thesis
    by (simp add: parse_value.simps parse_tuple.simps open_nested_at close_with_at)
next
  case False
  let ?body = "join_comma (map render_result rs)"
  have a: "at inp (off + 1) ?body" "peek inp (off + 1 + length ?body) = Some b_rbrace"
    "peek inp off = Some b_lbrace"
    using assms(2) by (simp_all add: add.assoc)
  have "sep_loop inp (\<lambda>i. parse_result inp lim (d + 1) i) (off + 1) =
      Some (Inr (rs, off + 1 + length ?body))"
    using False a assms(4) by (intro sep_loop_at) auto
  moreover have "peek inp (off + 1) \<noteq> Some b_rbrace"
    using False a(1) join_comma_at_hd [of "map render_result rs" inp "off + 1"]
      peek_render_result [of "hd rs" inp "off + 1"] assms(3) [of "hd rs"] identifier_byte_not(1)
    by (fastforce simp: hd_map)
  ultimately show ?thesis
    using a assms(1)
    by (simp add: parse_value.simps parse_tuple.simps open_nested_at close_with_at)
qed

lemma parse_value_list_at:
  assumes "d < max_depth lim" "at inp off (render_value (ValueList vs))"
    and "\<And>v i. v \<in> set vs \<Longrightarrow> at inp i (render_value v) \<Longrightarrow>
      parse_value inp lim (d + 1) i = Some (Inr (v, i + length (render_value v)))"
  shows "parse_value inp lim d off =
    Some (Inr (ValueList vs, off + length (render_value (ValueList vs))))"
proof (cases "vs = []")
  case True
  with assms(1,2) show ?thesis
    by (simp add: parse_value.simps parse_list.simps open_nested_at)
next
  case False
  let ?body = "join_comma (map render_value vs)"
  have a: "at inp (off + 1) ?body" "peek inp (off + 1 + length ?body) = Some b_rbracket"
    "peek inp off = Some b_lbracket"
    using assms(2) by (simp_all add: add.assoc)
  have "sep_loop inp (\<lambda>i. parse_value inp lim (d + 1) i) (off + 1) =
      Some (Inr (vs, off + 1 + length ?body))"
    using False a assms(3) by (intro sep_loop_at) auto
  moreover have hd: "at inp (off + 1) (render_value (hd vs))"
    using False a(1) join_comma_at_hd [of "map render_value vs" inp "off + 1"] by (simp add: hd_map)
  ultimately show ?thesis
    using a assms(1) not_looks_like_value [OF hd] peek_render_value [OF hd]
    by (auto simp: parse_value.simps [of inp lim d] parse_list.simps open_nested_at close_with_at)
qed

lemma parse_result_list_at:
  assumes "d < max_depth lim" "at inp off (render_value (ResultList rs))" "rs \<noteq> []"
    and "\<And>r. r \<in> set rs \<Longrightarrow> identifier_string (result_name r)"
    and "\<And>r i. r \<in> set rs \<Longrightarrow> at inp i (render_result r) \<Longrightarrow>
      parse_result inp lim (d + 1) i = Some (Inr (r, i + length (render_result r)))"
  shows "parse_value inp lim d off =
    Some (Inr (ResultList rs, off + length (render_value (ResultList rs))))"
proof -
  let ?body = "join_comma (map render_result rs)"
  have a: "at inp (off + 1) ?body" "peek inp (off + 1 + length ?body) = Some b_rbracket"
    "peek inp off = Some b_lbracket"
    using assms(2) by (simp_all add: add.assoc)
  have "sep_loop inp (\<lambda>i. parse_result inp lim (d + 1) i) (off + 1) =
      Some (Inr (rs, off + 1 + length ?body))"
    using assms(3,5) a by (intro sep_loop_at) auto
  moreover have hd: "at inp (off + 1) (render_result (hd rs))"
    using assms(3) a(1) join_comma_at_hd [of "map render_result rs" inp "off + 1"]
    by (simp add: hd_map)
  moreover have id: "identifier_string (result_name (hd rs))" using assms(3,4) by simp
  ultimately show ?thesis
    using a assms(1) looks_like_result_at [OF id hd] peek_render_result [OF id hd]
      identifier_byte_not(1)
    by (auto simp: parse_value.simps [of inp lim d] parse_list.simps open_nested_at close_with_at)
qed

lemma parse_at:
  "result_wf lim d r \<Longrightarrow> at inp off (render_result r) \<Longrightarrow>
     parse_result inp lim d off = Some (Inr (r, off + length (render_result r)))"
  "value_wf lim d v \<Longrightarrow> at inp off (render_value v) \<Longrightarrow>
     parse_value inp lim d off = Some (Inr (v, off + length (render_value v)))"
proof (induction lim d r and lim d v arbitrary: off and off rule: result_wf_value_wf.induct)
  case (1 lim d name v)
  then show ?case by (intro parse_result_at) auto
next
  case (2 lim d bs)
  then have "peek inp off = Some b_quote"
    by (simp add: render_string_def quote_c_string_def byte_of_char_def)
  with 2 c_string_quoted [of inp off bs lim] show ?case
    by (simp add: parse_value.simps [of inp lim d] pbind_def)
next
  case (3 lim d rs)
  then have "identifier_string (result_name r)" if "r \<in> set rs" for r
    using that by (cases r) (auto simp: list_all_iff)
  with 3 show ?case by (intro parse_tuple_at) (auto simp: list_all_iff)
next
  case (4 lim d vs)
  then show ?case by (intro parse_value_list_at) (auto simp: list_all_iff)
next
  case (5 lim d rs)
  then have "identifier_string (result_name r)" if "r \<in> set rs" for r
    using that by (cases r) (auto simp: list_all_iff)
  with 5 show ?case by (intro parse_result_list_at) (auto simp: list_all_iff)
qed

section \<open>Records\<close>

lemma string_of_bytes_simps [simp]:
  "string_of_bytes [] = []"
  "string_of_bytes (b # bs) = char_of_byte b # string_of_bytes bs"
  by (simp_all add: string_of_bytes_def)

lemma token_at_None:
  "peek inp off = Some b \<Longrightarrow> \<not> is_ascii_digit b \<Longrightarrow> token inp off = Ok (None, off)"
  by (auto simp: token_def peek_Some Cons_nth_drop_Suc [symmetric])

lemma takeWhile_digits_at:
  assumes "at inp off s" "\<forall>b \<in> set s. is_ascii_digit b"
    and "peek inp (off + length s) = Some b" "\<not> is_ascii_digit b"
  shows "takeWhile is_ascii_digit (drop off inp) = s"
proof -
  from assms(1) obtain r where d: "drop off inp = s @ r"
    by (auto simp: at_def starts_with_iff)
  have "drop off inp ! length s = b" "length s < length (drop off inp)"
    using assms(1,3) by (auto simp: peek_Some)
  with d assms(2,4) show ?thesis
    by (cases r) (auto simp: takeWhile_append2 nth_append)
qed

lemma token_at_Some:
  assumes "at inp off (as_bytes (show_nat n))" "n < 2 ^ 64"
    and "peek inp (off + length (show_nat n)) = Some b" "\<not> is_ascii_digit b"
  shows "token inp off = Ok (Some n, off + length (show_nat n))"
proof -
  let ?s = "as_bytes (show_nat n)"
  have "\<forall>b \<in> set ?s. is_ascii_digit b" using show_nat_digits by (auto simp: as_bytes_def)
  with takeWhile_digits_at [OF assms(1) this, of b] assms(3,4)
  have "takeWhile is_ascii_digit (drop off inp) = ?s" by simp
  moreover have "slice inp off (off + length ?s) = ?s" using at_slice [OF assms(1)] .
  ultimately show ?thesis
    using from_str_radix_show_nat [OF assms(2)] by (simp add: token_def Let_def)
qed

lemma token_at:
  assumes "at inp 0 ((case t of None \<Rightarrow> [] | Some n \<Rightarrow> as_bytes (show_nat n)) @ b # s)"
    and "case t of None \<Rightarrow> True | Some n \<Rightarrow> n < 2 ^ 64" and "\<not> is_ascii_digit b"
  shows "token inp 0 = Ok (t, length (case t of None \<Rightarrow> [] | Some n \<Rightarrow> show_nat n))"
  using assms token_at_None [of inp 0 b] token_at_Some [of inp 0 _ b]
  by (cases t) auto

lemma class_and_results_at:
  assumes "identifier_string cls" "list_all (result_wf lim 0) rs"
    and "at inp off (as_bytes cls @ (if rs = [] then [] else b_comma # join_comma (map render_result rs)))"
    and "off + length (as_bytes cls @
      (if rs = [] then [] else b_comma # join_comma (map render_result rs))) = length inp"
  shows "class_and_results inp lim off = Some (Inr ((cls, rs), length inp))"
proof -
  let ?n = "length cls"
  have a: "at inp off (as_bytes cls)" using assms(3) by auto
  have n: "?n \<noteq> 0" and name: "string_of_bytes (slice inp off (off + ?n)) = cls"
    using assms(1) at_slice [OF a] by (simp_all add: identifier_string_def)
  have end_None: "peek inp (length inp) = None" by (simp add: peek_def)
  show ?thesis
  proof (cases "rs = []")
    case True
    then have "off + ?n = length inp" using assms(4) by simp
    moreover then have "scan_identifier inp b_comma ''result or async class'' off = Ok (off + ?n)"
      using scan_identifier_at [of inp off "as_bytes cls" b_comma] a assms(1)
      by (simp add: identifier_string_def)
    ultimately show ?thesis using True n name end_None
      by (auto simp: class_and_results_def Let_def)
  next
    case False
    let ?body = "join_comma (map render_result rs)"
    have p: "peek inp (off + ?n) = Some b_comma" "at inp (off + ?n + 1) ?body"
      and len: "off + ?n + 1 + length ?body = length inp"
      using assms(3,4) False by simp_all
    have "scan_identifier inp b_comma ''result or async class'' off = Ok (off + ?n)"
      using scan_identifier_at [of inp off "as_bytes cls" b_comma] a assms(1) p
      by (simp add: identifier_string_def)
    moreover have "sep_loop inp (\<lambda>i. parse_result inp lim 0 i) (off + ?n + 1) =
        Some (Inr (rs, off + ?n + 1 + length ?body))"
      using False p(2) len end_None assms(2)
      by (intro sep_loop_at) (auto simp: list_all_iff intro: parse_at(1))
    ultimately show ?thesis using n name p(1) len
      by (simp add: class_and_results_def Let_def pbind_def)
  qed
qed

lemma parse_headed:
  assumes "headed_wf lim t cls rs" and inp: "inp = render_headed prefix t cls rs"
    and "\<not> is_ascii_digit prefix"
    and "\<And>off. prefix_record inp lim t prefix off =
      pbind (class_and_results inp lim off) (\<lambda>(cls, rs) off'. Some (Inr (mk t cls rs, off')))"
  shows "parse_whole inp lim = Some (Ok (mk t cls rs))"
proof -
  let ?tail = "as_bytes cls @ (if rs = [] then [] else b_comma # join_comma (map render_result rs))"
  let ?tok = "case t of None \<Rightarrow> [] | Some n \<Rightarrow> as_bytes (show_nat n)"
  let ?n = "length ?tok"
  have i: "inp = ?tok @ prefix # ?tail" by (simp add: inp render_headed_def)
  have whole: "at inp 0 (?tok @ prefix # ?tail)" using at_whole [of inp] i by metis
  then have a: "peek inp ?n = Some prefix" "at inp (?n + 1) ?tail" by auto
  have tok: "token inp 0 = Ok (t, ?n)"
    using token_at [OF whole _ assms(3)] assms(1)
    by (cases t) (auto simp: headed_wf_def)
  have "class_and_results inp lim (?n + 1) = Some (Inr ((cls, rs), length inp))"
    using assms(1) a(2) i by (intro class_and_results_at) (auto simp: headed_wf_def)
  with tok a(1) assms(4) show ?thesis
    by (simp add: parse_whole_def take_byte_def pbind_def)
qed

lemma parse_stream:
  assumes "length bs \<le> max_decoded_string_bytes lim" and inp: "inp = prefix # render_string bs"
    and "\<not> is_ascii_digit prefix"
    and "\<And>off. prefix_record inp lim None prefix off =
      pbind (Some (c_string inp lim off)) (\<lambda>bs off'. Some (Inr (mk bs, off')))"
  shows "parse_whole inp lim = Some (Ok (mk bs))"
proof -
  have "at inp 0 (prefix # render_string bs)" using at_whole [of inp] inp by metis
  then have a: "peek inp 0 = Some prefix" "at inp 1 (render_string bs)" by simp_all
  have "token inp 0 = Ok (None, 0)" using token_at_None [OF a(1) assms(3)] .
  moreover have "c_string inp lim 1 = Ok (bs, 1 + length (render_string bs))"
    using c_string_quoted [OF a(2) assms(1)] .
  ultimately show ?thesis
    using a(1) assms(4) inp by (simp add: parse_whole_def take_byte_def pbind_def)
qed

lemma not_prompt:
  assumes "inp = b # s" "\<not> is_ascii_whitespace b" "b \<noteq> 0x28"
  shows "trim_ascii inp \<noteq> as_bytes ''(gdb)''"
proof -
  have "trim_ascii inp = rev (dropWhile is_ascii_whitespace (rev s @ [b]))"
    using assms by (simp add: trim_ascii_def)
  also have "\<dots> = b # rev (dropWhile is_ascii_whitespace (rev s))"
    using assms(2) by (cases "\<forall>x \<in> set (rev s). is_ascii_whitespace x")
      (auto simp: dropWhile_append)
  finally show ?thesis using assms(3) by (simp add: byte_of_char_def)
qed

lemma render_headed_starts:
  assumes "\<not> is_ascii_whitespace prefix" "prefix \<noteq> 0x28"
  shows "\<exists>b s. render_headed prefix t cls rs = b # s \<and> \<not> is_ascii_whitespace b \<and> b \<noteq> 0x28"
proof (cases t)
  case None
  with assms show ?thesis by (simp add: render_headed_def)
next
  case (Some n)
  obtain c r where c: "show_nat n = c # r" by (cases "show_nat n") auto
  then have "is_ascii_digit (byte_of_char c)" using show_nat_digits [of n] by auto
  with Some c show ?thesis
    by (auto simp: render_headed_def is_ascii_digit_def is_ascii_whitespace_def)
qed

lemma parse_record_whole:
  assumes "inp = b # s" "\<not> is_ascii_whitespace b" "b \<noteq> 0x28" "length inp \<le> max_record_bytes lim"
  shows "parse_record inp lim = parse_whole inp lim"
  using not_prompt [OF assms(1-3)] assms by (simp add: parse_record_def)

lemma parse_record_headed:
  assumes "headed_wf lim t cls rs" "length (render_headed prefix t cls rs) \<le> max_record_bytes lim"
    and "\<not> is_ascii_digit prefix" "\<not> is_ascii_whitespace prefix" "prefix \<noteq> 0x28"
    and "\<And>inp off. prefix_record inp lim t prefix off =
      pbind (class_and_results inp lim off) (\<lambda>(cls, rs) off'. Some (Inr (mk t cls rs, off')))"
  shows "parse_record (render_headed prefix t cls rs) lim = Some (Ok (mk t cls rs))"
  using parse_headed [where mk = mk, OF assms(1) refl assms(3,6)] render_headed_starts [OF assms(4,5), of t cls rs]
    parse_record_whole assms(2) by metis

lemma parse_record_stream:
  assumes "length bs \<le> max_decoded_string_bytes lim" "length (prefix # render_string bs) \<le> max_record_bytes lim"
    and "\<not> is_ascii_digit prefix" "\<not> is_ascii_whitespace prefix" "prefix \<noteq> 0x28"
    and "\<And>inp off. prefix_record inp lim None prefix off =
      pbind (Some (c_string inp lim off)) (\<lambda>bs off'. Some (Inr (mk bs, off')))"
  shows "parse_record (prefix # render_string bs) lim = Some (Ok (mk bs))"
  using parse_stream [where mk = mk, OF assms(1) refl assms(3,6)] parse_record_whole [OF refl assms(4,5,2)] by simp

lemmas record_prefixes = is_ascii_digit_def is_ascii_whitespace_def prefix_record_def

section \<open>Properties\<close>

text \<open>C12. The MI parser is lossless on the whole grammar: every well-formed record, printed with
  the repository's C-string encoder, parses back to itself whenever its text is within the
  record limit.\<close>

theorem parse_render_record:
  assumes "record_wf lim rec" and "length (render_record rec) \<le> max_record_bytes lim"
  shows "parse_record (render_record rec) lim = Some (Ok rec)"
proof (cases rec)
  case Prompt
  with assms show ?thesis
    by (simp add: parse_record_def trim_ascii_def is_ascii_whitespace_def byte_of_char_def)
qed (use assms in \<open>simp_all add: parse_record_headed parse_record_stream record_prefixes\<close>)

text \<open>A breakpoint stop with a nested tuple.\<close>

theorem parse_render_record_witness:
  "record_wf default_limits
     (ExecAsync None ''stopped'' [MiResult ''frame'' (Tuple [MiResult ''level'' (Const [0x30])])]) \<and>
   parse_record (as_bytes (''*stopped,frame={level='' @ [CHR 0x22, CHR ''0'', CHR 0x22] @ ''}''))
     default_limits =
   Some (Ok (ExecAsync None ''stopped'' [MiResult ''frame'' (Tuple [MiResult ''level'' (Const [0x30])])]))"
proof -
  let ?rec = "ExecAsync None ''stopped'' [MiResult ''frame'' (Tuple [MiResult ''level'' (Const [0x30])])]"
  have wf: "record_wf default_limits ?rec"
    by (simp add: headed_wf_def identifier_string_def identifier_byte_def is_ascii_alphanumeric_def
        is_ascii_digit_def byte_of_char_def default_limits_def)
  have shown: "render_record ?rec =
      as_bytes (''*stopped,frame={level='' @ [CHR 0x22, CHR ''0'', CHR 0x22] @ ''}'')"
    by (simp add: render_headed_def render_string_def quote_c_string_def quote_byte_def
        byte_of_char_def char_of_byte_def char_of_def bit_0)
  have len: "length (render_record ?rec) \<le> max_record_bytes default_limits"
    unfolding shown by (simp add: default_limits_def)
  from parse_render_record [OF wf len] wf show ?thesis unfolding shown by simp
qed



end
