(* ===== verification/Byte_Ring.thy ===== *)
theory Byte_Ring
  imports GDB_Prelude
begin

text \<open>
  The bounded output ring of \<open>crates/gdb-ai-core/src/ring.rs\<close>, which retains the newest
  inferior output under absolute 64-bit offsets.  The abstract contract is the list of all
  bytes ever appended; the locale \<open>byte_log\<close> states what a reader that follows a log by
  offsets relies on, and the ring is its instance.
\<close>

section \<open>Model\<close>

record ByteRing =
  ring_capacity :: nat
  ring_start :: nat
  ring_end :: nat
  ring_bytes :: bytes

record RingRead =
  requested_offset :: nat
  available_from :: nat
  next_offset :: nat
  read_gap :: bool
  read_bytes :: bytes

definition ring_new :: "nat \<Rightarrow> ByteRing" where
  "ring_new capacity =
     \<lparr>ring_capacity = max capacity 1, ring_start = 0, ring_end = 0, ring_bytes = []\<rparr>"

definition ring_append :: "ByteRing \<Rightarrow> bytes \<Rightarrow> nat \<times> ByteRing" where
  "ring_append r input =
     (let offset = ring_end r;
          end' = saturating_add (ring_end r) (length input)
      in if length input \<ge> ring_capacity r
         then (offset, r\<lparr>ring_end := end',
                 ring_bytes := drop (length input - ring_capacity r) input,
                 ring_start := end' - ring_capacity r\<rparr>)
         else
           let evicted = saturating_add (length (ring_bytes r)) (length input) - ring_capacity r
           in (offset, r\<lparr>ring_end := end',
                 ring_start := saturating_add (ring_start r) evicted,
                 ring_bytes := drop evicted (ring_bytes r) @ input\<rparr>))"

text \<open>\<open>VecDeque::as_slices\<close> gives the contents as two contiguous slices; where the first one
  ends is up to the deque's layout, which the parameter \<open>layout\<close> stands for.\<close>

definition ring_read :: "nat \<Rightarrow> ByteRing \<Rightarrow> nat \<Rightarrow> nat \<Rightarrow> RingRead" where
  "ring_read layout r after_offset max_bytes =
     (let actual_start = max (ring_start r) (min after_offset (ring_end r));
          skip = actual_start - ring_start r;
          len = min max_bytes (length (ring_bytes r) - skip);
          first = take layout (ring_bytes r);
          second = drop layout (ring_bytes r);
          bs = (if skip < length first then
                  let end' = min (skip + len) (length first);
                      head = take (end' - skip) (drop skip first)
                  in head @ take (len - length head) second
                else take len (drop (skip - length first) second))
      in \<lparr>requested_offset = after_offset, available_from = ring_start r,
          next_offset = actual_start + length bs, read_gap = after_offset < ring_start r,
          read_bytes = bs\<rparr>)"

definition dropped_bytes :: "ByteRing \<Rightarrow> nat" where
  "dropped_bytes r = ring_start r"

section \<open>Invariant and abstraction\<close>

text \<open>No allocation is larger than \<open>isize::MAX\<close>.\<close>

definition isize_max :: nat where
  "isize_max = 2 ^ 63 - 1"

lemma isize_max_sum: "2 * isize_max \<le> u64_max"
  by (simp add: isize_max_def u64_max_def)

text \<open>What keeps the source's subtractions and slices in range, also after the offsets have
  saturated: \<open>end - start\<close> never exceeds the retained bytes.\<close>

definition ring_inv :: "ByteRing \<Rightarrow> bool" where
  "ring_inv r \<longleftrightarrow>
     1 \<le> ring_capacity r \<and> ring_capacity r \<le> isize_max \<and>
     length (ring_bytes r) \<le> ring_capacity r \<and>
     ring_start r \<le> ring_end r \<and> ring_end r \<le> u64_max \<and>
     ring_end r - ring_start r \<le> length (ring_bytes r)"

text \<open>The ring holds the newest bytes of a history that has not exhausted the offsets.\<close>

definition ring_holds :: "ByteRing \<Rightarrow> bytes \<Rightarrow> bool" where
  "ring_holds r h \<longleftrightarrow>
     1 \<le> ring_capacity r \<and> ring_capacity r \<le> isize_max \<and> length h \<le> u64_max \<and>
     ring_end r = length h \<and> ring_start r = length h - ring_capacity r \<and>
     ring_bytes r = drop (length h - ring_capacity r) h"

section \<open>Following a log by offset\<close>

text \<open>A reader keeps a cursor, reads after every write and stops when a read reports a gap.
  \<open>follow\<close> collects what it has seen.\<close>

locale byte_log =
  fixes append :: "'s \<Rightarrow> bytes \<Rightarrow> nat \<times> 's"
    and read :: "'s \<Rightarrow> nat \<Rightarrow> nat \<Rightarrow> RingRead"
    and holds :: "'s \<Rightarrow> bytes \<Rightarrow> bool"
    and follow :: "'s \<Rightarrow> nat \<Rightarrow> (bytes \<times> nat) list \<Rightarrow> (bytes \<times> nat \<times> bool)"
  assumes append_holds: "holds s h \<Longrightarrow> length h + length x \<le> u64_max \<Longrightarrow>
        fst (append s x) = length h \<and> holds (snd (append s x)) (h @ x)"
    and read_exact: "holds s h \<Longrightarrow> off \<le> length h \<Longrightarrow> \<not> read_gap (read s off n) \<Longrightarrow>
        read_bytes (read s off n) = take n (drop off h) \<and>
        next_offset (read s off n) = off + length (read_bytes (read s off n))"
    and follow_Nil: "follow s cursor [] = ([], cursor, False)"
    and follow_Cons: "follow s cursor ((x, n) # ops) =
        (let s' = snd (append s x); r = read s' cursor n in
         if read_gap r then ([], cursor, True)
         else case follow s' (next_offset r) ops of
                (bs, c, g) \<Rightarrow> (read_bytes r @ bs, c, g))"
begin

lemma follow_exact:
  assumes "holds s h" "cursor \<le> length h"
    and "length h + length (concat (map fst ops)) \<le> u64_max"
    and "follow s cursor ops = (bs, c, g)"
  shows "c = cursor + length bs \<and> c \<le> length h + length (concat (map fst ops)) \<and>
    bs = take (length bs) (drop cursor (h @ concat (map fst ops)))"
  using assms
proof (induction ops arbitrary: s h cursor bs c g)
  case Nil
  then show ?case by (simp add: follow_Nil)
next
  case (Cons op ops)
  obtain x n where op: "op = (x, n)" by (cases op)
  define s' where "s' = snd (append s x)"
  define r where "r = read s' cursor n"
  have s': "holds s' (h @ x)"
    using append_holds [OF Cons.prems(1), of x] Cons.prems(3) op by (simp add: s'_def)
  show ?case
  proof (cases "read_gap r")
    case True
    with Cons.prems op show ?thesis by (simp add: follow_Cons s'_def r_def Let_def)
  next
    case False
    obtain bs' where bs': "follow s' (next_offset r) ops = (bs', c, g)" "bs = read_bytes r @ bs'"
      using Cons.prems(4) op False
      by (auto simp: follow_Cons s'_def r_def Let_def split: prod.splits)
    have r: "read_bytes r = take n (drop cursor (h @ x))"
      "next_offset r = cursor + length (read_bytes r)"
      using read_exact [OF s', of cursor n] Cons.prems(2) False by (simp_all add: r_def)
    define all where "all = h @ x @ concat (map fst ops)"
    have le: "next_offset r \<le> length (h @ x)" using r Cons.prems(2) by simp
    have IH: "c = next_offset r + length bs' \<and>
        c \<le> length (h @ x) + length (concat (map fst ops)) \<and>
        bs' = take (length bs') (drop (next_offset r) all)"
      using Cons.IH [OF s' le _ bs'(1)] Cons.prems(3) op unfolding all_def by simp
    have "read_bytes r = take (length (read_bytes r)) (drop cursor all)"
      using r(1) Cons.prems(2) by (simp add: min_def all_def)
    moreover have "take (length bs') (drop (length (read_bytes r)) (drop cursor all)) = bs'"
      using IH r(2) by (simp add: add.commute)
    ultimately have "take (length bs) (drop cursor all) = bs"
      using bs'(2) by (simp add: take_add)
    with IH bs'(2) r(2) op show ?thesis by (simp add: all_def)
  qed
qed

end

section \<open>The ring meets the contract\<close>

lemma ring_new_inv: "capacity \<le> isize_max \<Longrightarrow> ring_inv (ring_new capacity)"
  by (simp add: ring_inv_def ring_new_def isize_max_def u64_max_def)

lemma ring_new_holds: "capacity \<le> isize_max \<Longrightarrow> ring_holds (ring_new capacity) []"
  by (simp add: ring_holds_def ring_new_def isize_max_def u64_max_def)

lemma ring_append_inv:
  assumes "ring_inv r" and "length input \<le> isize_max"
  shows "ring_inv (snd (ring_append r input))"
proof (cases "length input \<ge> ring_capacity r")
  case True
  with assms isize_max_sum show ?thesis
    by (auto simp: ring_inv_def ring_append_def saturating_add_def Let_def min_def)
next
  case False
  have "saturating_add (length (ring_bytes r)) (length input) =
      length (ring_bytes r) + length input"
    using assms isize_max_sum by (intro saturating_add_exact) (auto simp: ring_inv_def)
  with assms False show ?thesis
    by (auto simp: ring_inv_def ring_append_def saturating_add_def Let_def min_def)
qed

lemma ring_append_holds:
  assumes "ring_holds r h" and "length h + length x \<le> u64_max"
  shows "fst (ring_append r x) = length h \<and> ring_holds (snd (ring_append r x)) (h @ x)"
proof (cases "length x \<ge> ring_capacity r")
  case True
  with assms show ?thesis
    by (auto simp: ring_holds_def ring_append_def saturating_add_def Let_def min_def)
next
  case False
  define c where "c = ring_capacity r"
  define evicted where "evicted = length (ring_bytes r) + length x - c"
  have B: "ring_bytes r = drop (length h - c) h" "ring_start r = length h - c"
    "ring_end r = length h" "1 \<le> c" "c \<le> isize_max" "length h \<le> u64_max"
    using assms(1) by (simp_all add: ring_holds_def c_def)
  have e: "saturating_add (length (ring_bytes r)) (length x) = length (ring_bytes r) + length x"
    using assms B by (intro saturating_add_exact) auto
  have ev: "length h - c + evicted = length h + length x - c"
    using B(1) by (auto simp: evicted_def)
  then have st: "saturating_add (length h - c) evicted = length h + length x - c"
    using assms(2) saturating_add_exact [of "length h - c" evicted] by linarith
  have dr: "drop evicted (drop (length h - c) h) @ x = drop (length h + length x - c) (h @ x)"
    using ev False by (simp add: add.commute c_def)
  have "ring_append r x =
      (ring_end r, r\<lparr>ring_end := saturating_add (ring_end r) (length x),
        ring_start := saturating_add (ring_start r) evicted,
        ring_bytes := drop evicted (ring_bytes r) @ x\<rparr>)"
    using False by (simp add: ring_append_def Let_def e evicted_def c_def)
  then show ?thesis
    using assms(2) B(4,5)
    by (simp only: ring_holds_def B(1-3) st dr saturating_add_exact ByteRing.simps
        fst_conv snd_conv length_append c_def [symmetric]) (simp add: c_def)
qed

text \<open>The layout of the deque does not matter: reading is one \<open>take\<close> of one \<open>drop\<close>.\<close>

lemma two_slices:
  assumes "skip + len \<le> length bs"
  shows "(if skip < length (take k bs) then
            take (min (skip + len) (length (take k bs)) - skip) (drop skip (take k bs)) @
            take (len - (min (skip + len) (length (take k bs)) - skip)) (drop k bs)
          else take len (drop (skip - length (take k bs)) (drop k bs))) =
         take len (drop skip bs)"
proof -
  define xs ys where "xs = take k bs" and "ys = drop k bs"
  have "bs = xs @ ys" by (simp add: xs_def ys_def)
  then have "take len (drop skip bs) =
      take len (drop skip xs) @ take (len - (length xs - skip)) (drop (skip - length xs) ys)"
    by simp
  then show ?thesis
    by (auto simp: min_def xs_def [symmetric] ys_def [symmetric])
qed

lemma ring_read_bytes:
  "read_bytes (ring_read layout r off n) =
     take n (drop (max (ring_start r) (min off (ring_end r)) - ring_start r) (ring_bytes r))"
  if "ring_inv r"
proof -
  define skip where "skip = max (ring_start r) (min off (ring_end r)) - ring_start r"
  define len where "len = min n (length (ring_bytes r) - skip)"
  have "skip + len \<le> length (ring_bytes r)"
    using that by (auto simp: ring_inv_def skip_def len_def)
  note two_slices [OF this, of layout]
  moreover have "take n (drop skip (ring_bytes r)) = take len (drop skip (ring_bytes r))"
    by (simp add: len_def min_def)
  moreover have "length (take (min (skip + len) (length (take layout (ring_bytes r))) - skip)
        (drop skip (take layout (ring_bytes r)))) =
      min (skip + len) (length (take layout (ring_bytes r))) - skip"
    by simp
  ultimately show ?thesis
    by (simp only: ring_read_def Let_def skip_def [symmetric] len_def [symmetric]
        RingRead.simps)
qed

lemma ring_read_meta [simp]:
  "next_offset (ring_read layout r off n) =
     max (ring_start r) (min off (ring_end r)) + length (read_bytes (ring_read layout r off n))"
  "read_gap (ring_read layout r off n) \<longleftrightarrow> off < ring_start r"
  "available_from (ring_read layout r off n) = ring_start r"
  "requested_offset (ring_read layout r off n) = off"
  by (simp_all add: ring_read_def Let_def)

lemma ring_holds_inv: "ring_holds r h \<Longrightarrow> ring_inv r"
  by (auto simp: ring_holds_def ring_inv_def)

lemma ring_read_history:
  assumes "ring_holds r h"
  shows "read_bytes (ring_read layout r off n) =
      take n (drop (max (ring_start r) (min off (length h))) h)"
  using assms ring_read_bytes [OF ring_holds_inv [OF assms]]
  by (simp add: ring_holds_def)

text \<open>The reader of the locale, run on the ring: every step appends what the inferior wrote and
  then reads on from the last \<open>next_offset\<close>.\<close>

fun ring_follow :: "nat \<Rightarrow> ByteRing \<Rightarrow> nat \<Rightarrow> (bytes \<times> nat) list \<Rightarrow> (bytes \<times> nat \<times> bool)" where
  "ring_follow layout r cursor [] = ([], cursor, False)"
| "ring_follow layout r cursor ((x, n) # ops) =
     (let r' = snd (ring_append r x); rd = ring_read layout r' cursor n in
      if read_gap rd then ([], cursor, True)
      else case ring_follow layout r' (next_offset rd) ops of
             (bs, c, g) \<Rightarrow> (read_bytes rd @ bs, c, g))"

interpretation ring_log: byte_log ring_append "ring_read layout" ring_holds "ring_follow layout"
  for layout
proof unfold_locales
  fix r h off n
  assume h: "ring_holds r h" and off: "off \<le> length h"
    and "\<not> read_gap (ring_read layout r off n)"
  then have "max (ring_start r) (min off (ring_end r)) = off"
    by (simp add: ring_holds_def)
  then show "read_bytes (ring_read layout r off n) = take n (drop off h) \<and>
      next_offset (ring_read layout r off n) =
      off + length (read_bytes (ring_read layout r off n))"
    using ring_read_history [OF h, of layout off n] h by (simp add: ring_holds_def)
qed (simp_all add: ring_append_holds)

section \<open>Properties\<close>

fun ring_appends :: "ByteRing \<Rightarrow> bytes list \<Rightarrow> ByteRing" where
  "ring_appends r [] = r"
| "ring_appends r (x # xs) = ring_appends (snd (ring_append r x)) xs"

lemma ring_appends_holds:
  assumes "ring_holds r h" and "length h + length (concat xs) \<le> u64_max"
  shows "ring_holds (ring_appends r xs) (h @ concat xs)"
  using assms
proof (induction xs arbitrary: r h)
  case (Cons x xs)
  then have "ring_holds (snd (ring_append r x)) (h @ x)"
    using ring_append_holds [of r h x] by simp
  with Cons.IH [OF this] Cons.prems show ?case by simp
qed simp

lemma ring_appends_inv:
  assumes "ring_inv r" and "\<forall>x\<in>set xs. length x \<le> isize_max"
  shows "ring_inv (ring_appends r xs)"
  using assms by (induction xs arbitrary: r) (simp_all add: ring_append_inv)

lemma ring_appends_capacity: "ring_capacity (ring_appends r xs) = ring_capacity r"
  by (induction xs arbitrary: r) (simp_all add: ring_append_def Let_def)

text \<open>C14.  Refinement: after any sequence of appends a ring of capacity \<open>cap\<close> holds exactly the
  newest \<open>cap\<close> bytes of everything appended, and a read at any offset returns the bytes of that
  history from the requested offset (clamped to what is retained), whatever the layout of the
  deque; a gap is reported exactly when the requested bytes were evicted.\<close>

theorem ring_reads_history:
  assumes "cap \<le> isize_max" and "length h \<le> u64_max" and h: "h = concat xs"
    and r: "r = ring_appends (ring_new cap) xs"
  shows "ring_bytes r = drop (length h - max cap 1) h \<and>
    read_bytes (ring_read layout r off n) =
      take n (drop (max (length h - max cap 1) (min off (length h))) h) \<and>
    (read_gap (ring_read layout r off n) \<longleftrightarrow> off < length h - max cap 1) \<and>
    dropped_bytes r = length h - max cap 1"
proof -
  have "ring_holds r h"
    using ring_appends_holds [OF ring_new_holds [OF assms(1)], of xs] assms(2)
    by (simp add: r h)
  moreover have "ring_capacity r = max cap 1"
    by (simp add: r ring_appends_capacity ring_new_def)
  ultimately show ?thesis
    using ring_read_history [of r h layout off n] by (simp add: ring_holds_def dropped_bytes_def)
qed

theorem ring_reads_history_witness:
  "read_bytes (ring_read 1 (ring_appends (ring_new 3) [[1, 2], [3, 4]]) 0 8) = [2, 3, 4]"
  using ring_reads_history [OF _ _ refl refl, of 3 "[[1, 2], [3, 4]]" 1 0 8]
  by (simp add: isize_max_def u64_max_def)

text \<open>C15.  Exactly-once delivery: a reader that follows the ring by \<open>next_offset\<close> while the inferior
  keeps writing collects, up to the first reported gap, exactly the consecutive bytes of the
  history from its starting cursor: nothing is lost, repeated or reordered.\<close>

theorem ring_follow_contiguous:
  assumes "ring_holds r h" and "cursor \<le> length h"
    and "length h + length (concat (map fst ops)) \<le> u64_max"
    and "ring_follow layout r cursor ops = (bs, c, g)"
  shows "c = cursor + length bs \<and> c \<le> length h + length (concat (map fst ops)) \<and>
    bs = take (length bs) (drop cursor (h @ concat (map fst ops)))"
  using assms by (rule ring_log.follow_exact)

theorem ring_follow_contiguous_witness:
  "ring_follow 1 (ring_new 4) 0 [([1, 2, 3], 2), ([4, 5], 4)] = ([1, 2, 3, 4, 5], 5, False) \<and>
   [1, 2, 3, 4, 5] = take 5 (drop 0 ([] @ concat (map fst [([1, 2, 3 :: u8], 2 :: nat), ([4, 5], 4)])))"
proof -
  have run: "ring_follow 1 (ring_new 4) 0 [([1, 2, 3], 2), ([4, 5], 4)] =
      ([1, 2, 3, 4, 5], 5, False)"
    by (simp add: ring_new_def ring_append_def ring_read_def saturating_add_def u64_max_def Let_def)
  with ring_follow_contiguous [OF ring_new_holds _ _ run]
  show ?thesis by (simp add: isize_max_def u64_max_def)
qed

text \<open>Safety of the arithmetic, also once the 64-bit offsets have saturated: after any
  appends the ring keeps at most its capacity, the start never passes the end, the bytes skipped
  by a read never exceed those retained (so no subtraction or slice of \<open>append\<close> and \<open>read\<close> is out
  of range), and a read returns at most the bytes asked for.\<close>

theorem ring_arithmetic_safe:
  assumes "cap \<le> isize_max" and "\<forall>x\<in>set xs. length x \<le> isize_max"
    and r: "r = ring_appends (ring_new cap) xs"
  shows "length (ring_bytes r) \<le> max cap 1 \<and> ring_start r \<le> ring_end r \<and> ring_end r \<le> u64_max \<and>
    max (ring_start r) (min off (ring_end r)) - ring_start r \<le> length (ring_bytes r) \<and>
    length (read_bytes (ring_read layout r off n)) \<le> min n (max cap 1)"
proof -
  have inv: "ring_inv r"
    unfolding r using assms(1,2) by (intro ring_appends_inv ring_new_inv)
  moreover have "ring_capacity r = max cap 1"
    by (simp add: r ring_appends_capacity ring_new_def)
  ultimately show ?thesis
    using ring_read_bytes [OF inv, of layout off n] by (auto simp: ring_inv_def)
qed

theorem ring_arithmetic_safe_witness:
  "length (ring_bytes (ring_appends (ring_new 2) [[1, 2, 3], [4]])) \<le> 2"
proof -
  have "\<forall>x\<in>set [[1, 2, 3 :: u8], [4]]. length x \<le> isize_max" and "(2 :: nat) \<le> isize_max"
    by (simp_all add: isize_max_def)
  then show ?thesis
    using ring_arithmetic_safe [OF _ _ refl, of 2 "[[1, 2, 3], [4]]"] by fastforce
qed

end
