(* ===== verification/BTree_Map.thy ===== *)
theory BTree_Map
  imports GDB_Prelude
begin

text \<open>
  \<open>std::collections::BTreeMap\<close> and \<open>BTreeSet\<close>, which hold every registry of the session state.
  The reducer iterates them in key order, so a map is the list of its entries with strictly
  ascending keys.  The locale \<open>registry\<close> is the contract the clients rely on (what a lookup gives
  after each operation) with the lemmas on predicates over all entries that the invariants of the
  session state are made of.
\<close>

section \<open>Operations\<close>

type_synonym ('k, 'v) btree = "('k \<times> 'v) list"

definition bt_wf :: "('k::linorder, 'v) btree \<Rightarrow> bool" where
  "bt_wf m \<longleftrightarrow> sorted_wrt (<) (map fst m)"

definition bt_get :: "('k, 'v) btree \<Rightarrow> 'k \<Rightarrow> 'v option" where
  "bt_get m k = map_of m k"

fun bt_insert :: "'k::linorder \<Rightarrow> 'v \<Rightarrow> ('k, 'v) btree \<Rightarrow> ('k, 'v) btree" where
  "bt_insert k v [] = [(k, v)]"
| "bt_insert k v ((k', v') # m) =
     (if k < k' then (k, v) # (k', v') # m
      else if k = k' then (k, v) # m
      else (k', v') # bt_insert k v m)"

definition bt_remove :: "'k \<Rightarrow> ('k, 'v) btree \<Rightarrow> ('k, 'v) btree" where
  "bt_remove k m = filter (\<lambda>(k', _). k' \<noteq> k) m"

text \<open>A loop over \<open>iter_mut\<close>, and \<open>get_mut\<close> followed by a change of the value.\<close>

definition bt_map :: "('k \<Rightarrow> 'v \<Rightarrow> 'v) \<Rightarrow> ('k, 'v) btree \<Rightarrow> ('k, 'v) btree" where
  "bt_map f m = map (\<lambda>(k, v). (k, f k v)) m"

definition bt_update :: "'k \<Rightarrow> ('v \<Rightarrow> 'v) \<Rightarrow> ('k, 'v) btree \<Rightarrow> ('k, 'v) btree" where
  "bt_update k f m = bt_map (\<lambda>k' v. if k' = k then f v else v) m"

text \<open>\<open>entry(k).or_insert_with(d)\<close>.\<close>

definition bt_entry :: "'k::linorder \<Rightarrow> 'v \<Rightarrow> ('k, 'v) btree \<Rightarrow> ('k, 'v) btree" where
  "bt_entry k d m = (case bt_get m k of Some _ \<Rightarrow> m | None \<Rightarrow> bt_insert k d m)"

definition bt_keys :: "('k, 'v) btree \<Rightarrow> 'k list" where
  "bt_keys m = map fst m"

definition bt_values :: "('k, 'v) btree \<Rightarrow> 'v list" where
  "bt_values m = map snd m"

fun find_map :: "('a \<Rightarrow> 'b option) \<Rightarrow> 'a list \<Rightarrow> 'b option" where
  "find_map f [] = None"
| "find_map f (x # xs) = (case f x of Some y \<Rightarrow> Some y | None \<Rightarrow> find_map f xs)"

section \<open>The contract\<close>

locale registry =
  fixes wf :: "'m \<Rightarrow> bool"
    and get :: "'m \<Rightarrow> 'k \<Rightarrow> 'v option"
    and insert :: "'k \<Rightarrow> 'v \<Rightarrow> 'm \<Rightarrow> 'm"
    and remove :: "'k \<Rightarrow> 'm \<Rightarrow> 'm"
    and adjust :: "('k \<Rightarrow> 'v \<Rightarrow> 'v) \<Rightarrow> 'm \<Rightarrow> 'm"
  assumes wf_insert: "wf m \<Longrightarrow> wf (insert k v m)"
    and wf_remove: "wf m \<Longrightarrow> wf (remove k m)"
    and wf_adjust: "wf m \<Longrightarrow> wf (adjust f m)"
    and get_insert: "wf m \<Longrightarrow> get (insert k v m) k' = (if k' = k then Some v else get m k')"
    and get_remove: "wf m \<Longrightarrow> get (remove k m) k' = (if k' = k then None else get m k')"
    and get_adjust: "wf m \<Longrightarrow> get (adjust f m) k' = map_option (f k') (get m k')"
begin

text \<open>Predicates over all entries.\<close>

lemma all_insert:
  assumes "wf m" "\<And>k v. get m k = Some v \<Longrightarrow> P k v" "P k v" "get (insert k v m) k' = Some v'"
  shows "P k' v'"
  using assms by (auto simp: get_insert split: if_splits)

lemma all_remove:
  assumes "wf m" "\<And>k v. get m k = Some v \<Longrightarrow> P k v" "get (remove k m) k' = Some v'"
  shows "P k' v'"
  using assms by (auto simp: get_remove split: if_splits)

lemma all_adjust:
  assumes "wf m" "\<And>k v. get m k = Some v \<Longrightarrow> P k (f k v)" "get (adjust f m) k' = Some v'"
  shows "P k' v'"
  using assms by (auto simp: get_adjust)

text \<open>A key function on the values that no two entries share.\<close>

lemma unique_insert:
  assumes "wf m"
    and "\<And>k k' v v'. get m k = Some v \<Longrightarrow> get m k' = Some v' \<Longrightarrow> h v = h v' \<Longrightarrow> k = k'"
    and "\<And>k' v'. get m k' = Some v' \<Longrightarrow> k' \<noteq> k \<Longrightarrow> h v' \<noteq> h v"
    and "get (insert k v m) k1 = Some v1" "get (insert k v m) k2 = Some v2" "h v1 = h v2"
  shows "k1 = k2"
  using assms by (auto simp: get_insert split: if_splits) metis+

end

section \<open>Sorted association lists meet it\<close>

lemma bt_wf_Nil [simp]: "bt_wf []"
  by (simp add: bt_wf_def)

lemma bt_get_Nil [simp]: "bt_get [] k = None"
  by (simp add: bt_get_def)

lemma bt_insert_keys: "set (map fst (bt_insert k v m)) = Set.insert k (set (map fst m))"
  by (induction k v m rule: bt_insert.induct) auto

lemma bt_insert_wf: "bt_wf m \<Longrightarrow> bt_wf (bt_insert k v m)"
proof (induction k v m rule: bt_insert.induct)
  case (2 k v k' v' m)
  have "bt_wf m" using "2.prems" by (simp add: bt_wf_def)
  then show ?case
    using "2.IH" "2.prems" bt_insert_keys [of k v m] by (auto simp: bt_wf_def)
qed (simp add: bt_wf_def)

lemma bt_insert_get: "bt_wf m \<Longrightarrow> bt_get (bt_insert k v m) k' = (if k' = k then Some v else bt_get m k')"
  by (induction k v m rule: bt_insert.induct) (auto simp: bt_get_def bt_wf_def)

lemma bt_remove_wf: "bt_wf m \<Longrightarrow> bt_wf (bt_remove k m)"
  by (induction m) (auto simp: bt_wf_def bt_remove_def)

lemma bt_remove_get: "bt_get (bt_remove k m) k' = (if k' = k then None else bt_get m k')"
  by (induction m) (auto simp: bt_get_def bt_remove_def)

lemma bt_map_keys: "map fst (bt_map f m) = map fst m"
  by (simp add: bt_map_def case_prod_beta')

lemma bt_map_wf: "bt_wf (bt_map f m) = bt_wf m"
  by (simp add: bt_wf_def bt_map_keys)

lemma bt_map_get: "bt_get (bt_map f m) k = map_option (f k) (bt_get m k)"
  by (induction m) (auto simp: bt_get_def bt_map_def)

interpretation btree: registry bt_wf bt_get bt_insert bt_remove bt_map
  by unfold_locales
    (simp_all add: bt_insert_wf bt_remove_wf bt_map_wf bt_insert_get bt_remove_get bt_map_get)

lemmas bt_wf_simps [simp] = bt_insert_wf bt_remove_wf bt_map_wf

lemmas bt_get_simps [simp] = bt_insert_get bt_remove_get bt_map_get

lemma bt_update_wf [simp]: "bt_wf (bt_update k f m) = bt_wf m"
  by (simp add: bt_update_def)

lemma bt_update_get [simp]:
  "bt_get (bt_update k f m) k' = (if k' = k then map_option f (bt_get m k) else bt_get m k')"
  by (cases "bt_get m k'") (auto simp: bt_update_def)

lemma bt_entry_wf [simp]: "bt_wf m \<Longrightarrow> bt_wf (bt_entry k d m)"
  by (simp add: bt_entry_def split: option.split)

lemma bt_entry_get [simp]:
  "bt_wf m \<Longrightarrow> bt_get (bt_entry k d m) k' =
     (if k' = k then Some (case bt_get m k of Some v \<Rightarrow> v | None \<Rightarrow> d) else bt_get m k')"
  by (auto simp: bt_entry_def split: option.split)

text \<open>Iteration sees exactly the entries.\<close>

lemma bt_get_iff_mem: "bt_wf m \<Longrightarrow> bt_get m k = Some v \<longleftrightarrow> (k, v) \<in> set m"
  by (auto simp: bt_get_def bt_wf_def strict_sorted_iff intro: map_of_is_SomeI dest: map_of_SomeD)

lemma bt_values_iff: "bt_wf m \<Longrightarrow> v \<in> set (bt_values m) \<longleftrightarrow> (\<exists>k. bt_get m k = Some v)"
  by (force simp: bt_values_def bt_get_iff_mem image_iff)

lemma bt_keys_iff: "k \<in> set (bt_keys m) \<longleftrightarrow> bt_get m k \<noteq> None"
  by (auto simp: bt_keys_def bt_get_def map_of_eq_None_iff)

lemma bt_get_None_iff: "bt_get m k = None \<longleftrightarrow> k \<notin> fst ` set m"
  by (simp add: bt_get_def map_of_eq_None_iff)

lemma find_map_Some: "find_map f xs = Some y \<Longrightarrow> \<exists>x\<in>set xs. f x = Some y"
  by (induction xs) (auto split: option.splits)

text \<open>The representation is canonical: two maps with the same lookups are equal.\<close>

lemma bt_ext:
  assumes "bt_wf m" "bt_wf m'" "\<And>k. bt_get m k = bt_get m' k"
  shows "m = m'"
proof -
  have "set m = set m'"
    using assms bt_get_iff_mem by (metis (no_types, lifting) subrelI subset_antisym)
  moreover have "sorted (map fst m)" "distinct (map fst m)" "sorted (map fst m')" "distinct (map fst m')"
    using assms(1,2) by (simp_all add: bt_wf_def strict_sorted_iff)
  ultimately show ?thesis
    using map_sorted_distinct_set_unique [of fst m m']
    by (metis (no_types, lifting) distinct_map sup.idem)
qed

text \<open>Operations that change nothing.\<close>

lemma bt_map_id: "bt_wf m \<Longrightarrow> (\<And>k v. bt_get m k = Some v \<Longrightarrow> f k v = v) \<Longrightarrow> bt_map f m = m"
  by (rule bt_ext) (auto simp: map_option_case split: option.split)

lemma bt_update_id: "bt_wf m \<Longrightarrow> (\<And>v. bt_get m k = Some v \<Longrightarrow> f v = v) \<Longrightarrow> bt_update k f m = m"
  unfolding bt_update_def by (rule bt_map_id) auto

lemma bt_remove_absent: "bt_wf m \<Longrightarrow> bt_get m k = None \<Longrightarrow> bt_remove k m = m"
  by (rule bt_ext) auto

lemma bt_entry_present: "bt_get m k = Some v \<Longrightarrow> bt_entry k d m = m"
  by (simp add: bt_entry_def)

end
