(* ===== verification/Json.thy ===== *)
theory Json
  imports BTree_Map
begin

text \<open>
  \<open>serde_json::Value\<close> as data, with the accessors the sources call on it.  Objects are key-sorted
  maps.  Numbers are integers: every number the modelled code reads goes through \<open>as_u64\<close>, which
  gives nothing for a fraction, and every number it writes is an integer.
\<close>

datatype Json =
  JNull
| JBool bool
| JNumber int
| JString string
| JArray "Json list"
| JObject "(string \<times> Json) list"

fun json_get :: "Json \<Rightarrow> string \<Rightarrow> Json option" where
  "json_get (JObject m) k = bt_get m k"
| "json_get _ k = None"

fun json_as_str :: "Json \<Rightarrow> string option" where
  "json_as_str (JString s) = Some s"
| "json_as_str _ = None"

fun json_as_bool :: "Json \<Rightarrow> bool option" where
  "json_as_bool (JBool b) = Some b"
| "json_as_bool _ = None"

fun json_as_u64 :: "Json \<Rightarrow> nat option" where
  "json_as_u64 (JNumber n) = (if 0 \<le> n \<and> nat n \<le> u64_max then Some (nat n) else None)"
| "json_as_u64 _ = None"

fun json_as_array :: "Json \<Rightarrow> Json list option" where
  "json_as_array (JArray xs) = Some xs"
| "json_as_array _ = None"

fun json_as_object :: "Json \<Rightarrow> (string, Json) btree option" where
  "json_as_object (JObject m) = Some m"
| "json_as_object _ = None"

text \<open>An object literal \<open>json!({...})\<close>: the entries inserted one by one.\<close>

definition json_object :: "(string \<times> Json) list \<Rightarrow> Json" where
  "json_object es = JObject (fold (\<lambda>(k, v). bt_insert k v) es [])"

end
