(* ===== verification/Domain.thy ===== *)
theory Domain
  imports Json MI_Ast
begin

text \<open>
  The vocabulary of \<open>crates/gdb-ai-core/src/domain.rs\<close> and \<open>error.rs\<close>: error codes, public
  identifiers and the handles derived from event sequence numbers, the session state with its
  registries, the domain events, and the guards on revisions and stops.  The lemmas show that a
  handle determines the sequence number it was made from and that addresses have one normal form.
\<close>

section \<open>Errors\<close>

datatype ErrorCode =
  InvalidArgument | InvalidState | StaleRevision | StaleContext | NotFound | AlreadyExists
| Conflict | WriteLeaseRequired | WriteLeaseExpired | PolicyDenied | CapabilityMissing
| Unsupported | TargetRunning | TargetStopped | TargetExited | TargetDisconnected
| TargetUnavailable | Timeout | Cancelled | EventGap | StreamClosed | OutputLimit
| MemoryPreconditionFailed | PartialRead | GdbError | GdbUnresponsive | GdbExited
| MiParseError | MiProtocolLimit | ConsistencyDirty | ConsistencyLost | Internal

definition is_independent_read_failure :: "ErrorCode \<Rightarrow> bool" where
  "is_independent_read_failure c \<longleftrightarrow>
     c \<in> {InvalidArgument, NotFound, CapabilityMissing, Unsupported, PolicyDenied,
          OutputLimit, PartialRead, GdbError}"

record Error =
  err_code :: ErrorCode
  err_message :: string
  err_retryable :: bool
  err_details :: "Json option"

definition new_error :: "ErrorCode \<Rightarrow> string \<Rightarrow> Error" where
  "new_error c msg =
     \<lparr>err_code = c, err_message = msg, err_retryable = False, err_details = None\<rparr>"

definition retryable :: "Error \<Rightarrow> Error" where
  "retryable e = e\<lparr>err_retryable := True\<rparr>"

definition with_details :: "Error \<Rightarrow> Json \<Rightarrow> Error" where
  "with_details e d = e\<lparr>err_details := Some d\<rparr>"

type_synonym 'a result = "(Error, 'a) res"

text \<open>The conversion of a parser error: \<open>{:?}\<close> of a printable character escapes the quote and the
  backslash.\<close>

definition display_byte :: "u8 option \<Rightarrow> string" where
  "display_byte found = (case found of
       Some b \<Rightarrow>
         if (0x21 \<le> b \<and> b \<le> 0x7e) \<or> b = 0x20 then
           [CHR 0x27] @
           (if b = 0x27 \<or> b = b_backslash then [CHR 0x5c, char_of_byte b] else [char_of_byte b]) @
           [CHR 0x27]
         else ''0x'' @ hex_fixed 2 (unat b)
     | None \<Rightarrow> ''end of record'')"

fun mi_error_string :: "MiError \<Rightarrow> string" where
  "mi_error_string MiError.Empty = ''empty MI record''"
| "mi_error_string (Unexpected off expected found) =
     ''unexpected byte at offset '' @ show_nat off @ '': expected '' @ expected @
     '', found '' @ display_byte found"
| "mi_error_string (InvalidToken off) = ''invalid numeric token at offset '' @ show_nat off"
| "mi_error_string (Limit kind lim) = ''MI '' @ kind @ '' exceeds limit '' @ show_nat lim"

definition error_of_mi :: "MiError \<Rightarrow> Error" where
  "error_of_mi e =
     new_error (case e of Limit _ _ \<Rightarrow> MiProtocolLimit | _ \<Rightarrow> MiParseError) (mi_error_string e)"

section \<open>Identifiers\<close>

type_synonym SessionId = string
type_synonym BreakpointId = string
type_synonym OperationId = string
type_synonym LeaseId = string
type_synonym TrackingId = string
type_synonym ValueId = string
type_synonym StopId = string
type_synonym InferiorId = string
type_synonym ThreadId = string
type_synonym FrameId = string

text \<open>The text of a ULID comes from the \<open>ulid\<close> crate and is a parameter.\<close>

definition short_ulid :: "string \<Rightarrow> string" where
  "short_ulid ulid = drop 10 ulid"

definition new_id :: "string \<Rightarrow> string \<Rightarrow> string" where
  "new_id pre ulid = pre @ ''_'' @ short_ulid ulid"

definition id_char :: "char \<Rightarrow> bool" where
  "id_char c \<longleftrightarrow> is_ascii_alphanumeric (byte_of_char c) \<or> c = CHR ''_'' \<or> c = CHR ''-''"

definition parse_id :: "string \<Rightarrow> string \<Rightarrow> string result" where
  "parse_id pre s =
     (case strip_prefix (pre @ ''_'') s of
        Some suffix \<Rightarrow>
          if suffix \<noteq> [] \<and> length suffix \<le> 256 \<and> list_all id_char suffix then Ok s
          else Err (new_error InvalidArgument (''invalid '' @ pre @ '' identifier''))
      | None \<Rightarrow> Err (new_error InvalidArgument (''invalid '' @ pre @ '' identifier'')))"

definition uses_compact_handles :: "SessionId \<Rightarrow> bool" where
  "uses_compact_handles session =
     (case strip_prefix ''sess_'' session of Some suffix \<Rightarrow> length suffix = 16 | None \<Rightarrow> False)"

text \<open>One character of output per character of input; the continuation bytes of a multi-byte
  character belong to the character before.\<close>

definition safe_component :: "string \<Rightarrow> string" where
  "safe_component s =
     map (\<lambda>c. if id_char c then c else CHR ''_'')
       (filter (\<lambda>c. \<not> utf8_cont (byte_of_char c)) s)"

definition stop_from_event :: "SessionId \<Rightarrow> nat \<Rightarrow> StopId" where
  "stop_from_event session seq =
     (if uses_compact_handles session then ''s'' @ show_nat seq
      else ''stop_'' @ session @ ''_'' @ show_nat seq)"

definition inferior_from_backend :: "SessionId \<Rightarrow> nat \<Rightarrow> string \<Rightarrow> InferiorId" where
  "inferior_from_backend session generation backend_id =
     (if uses_compact_handles session
      then ''i'' @ show_nat generation @ ''_'' @ safe_component backend_id
      else ''inf_'' @ session @ ''_'' @ show_nat generation @ ''_'' @ safe_component backend_id)"

definition thread_from_backend :: "InferiorId \<Rightarrow> nat \<Rightarrow> string \<Rightarrow> ThreadId" where
  "thread_from_backend inferior creation_generation backend_id =
     (if starts_with inferior ''inf_''
      then ''thr_'' @ inferior @ ''_'' @ show_nat creation_generation @ ''_'' @
           safe_component backend_id
      else ''t'' @ show_nat creation_generation @ ''_'' @ safe_component backend_id)"

definition new_frame_id :: "ThreadId \<Rightarrow> StopId \<Rightarrow> nat \<Rightarrow> FrameId" where
  "new_frame_id thread stop level =
     (if starts_with thread ''thr_'' \<or> starts_with stop ''stop_''
      then ''frm_'' @ thread @ ''_'' @ stop @ ''_'' @ show_nat level
      else ''f'' @ thread @ ''_'' @ stop @ ''_'' @ show_nat level)"

definition value_for_stop :: "StopId \<Rightarrow> string \<Rightarrow> ValueId" where
  "value_for_stop stop ulid = ''v'' @ stop @ ''_'' @ short_ulid ulid"

section \<open>Addresses\<close>

definition is_ascii_hexdigit :: "char \<Rightarrow> bool" where
  "is_ascii_hexdigit c \<longleftrightarrow> to_digit 16 c \<noteq> None"

definition parse_canonical_address :: "string \<Rightarrow> string result" where
  "parse_canonical_address s =
     (case strip_prefix ''0x'' s of
        None \<Rightarrow> Err (new_error InvalidArgument ''address must start with 0x'')
      | Some digits \<Rightarrow>
          if digits = [] \<or> length digits > 16 \<or> \<not> list_all is_ascii_hexdigit digits
          then Err (new_error InvalidArgument ''address must contain 1 to 16 hexadecimal digits'')
          else case from_str_radix 64 16 digits of
                 None \<Rightarrow> Err (new_error InvalidArgument ''invalid address'')
               | Some number \<Rightarrow> Ok (''0x'' @ hex_fixed 16 number))"

section \<open>Leases, values, operations\<close>

record WriteLease =
  lease_id :: LeaseId
  lease_session_id :: SessionId
  lease_owner :: string
  lease_expires_at_unix_ms :: nat
  lease_generation :: nat

definition lease_is_expired :: "WriteLease \<Rightarrow> nat \<Rightarrow> bool" where
  "lease_is_expired l now_unix_ms \<longleftrightarrow> now_unix_ms \<ge> lease_expires_at_unix_ms l"

record ValueBinding =
  vb_value_id :: ValueId
  vb_backend_name :: string
  vb_stop_id :: StopId
  vb_expression :: string
  vb_inferior_id :: "InferiorId option"
  vb_thread_id :: "ThreadId option"
  vb_frame_id :: "FrameId option"

datatype TrackingDefinition =
  TrackExpression TrackingId string nat
| TrackMemory TrackingId string nat nat

fun tracking_definition_id :: "TrackingDefinition \<Rightarrow> TrackingId" where
  "tracking_definition_id (TrackExpression i _ _) = i"
| "tracking_definition_id (TrackMemory i _ _ _) = i"

datatype OperationStatus =
  Accepted | WaitingForState | Completed | TimedOut | Cancelled | Failed

record WaitBaseline =
  wb_event_seq :: nat
  wb_execution_epoch :: nat
  wb_stop_id :: "StopId option"
  wb_terminal_inferiors :: "string list"
  wb_terminal_inferior_generations :: "(string, nat) btree"

record OperationRecord =
  op_operation_id :: OperationId
  op_session_id :: SessionId
  op_kind :: string
  op_status :: OperationStatus
  op_created_revision :: nat
  op_wait_baseline :: "WaitBaseline option"
  op_expected_execution_epoch :: "nat option"
  op_accepted_event_seq :: "nat option"
  op_completed_event_seq :: "nat option"
  op_error :: "string option"

section \<open>Session state\<close>

datatype SessionLifecycle = Creating | Ready | Active | Closing | Closed | Failed

datatype BackendHealth = Starting | Healthy | Busy | Unresponsive | Dead

datatype InferiorStatus =
  Empty | Connecting | Stopped | Running | Exited | Detached | Disconnected | Core | Unknown

datatype TargetOrigin = Unknown | Local | Attach | Remote | Core

datatype Consistency = Clean | ManagedDirty | Reconciling | Tainted | Lost

record FrameSummary =
  frame_level :: nat
  frame_address :: "string option"
  frame_function :: "string option"
  frame_module :: "string option"
  frame_source :: "string option"
  frame_line :: "nat option"

datatype StopReason =
  Breakpoint "string option" "string option"
| Watchpoint "string option" "string option" string
| Signal "string option" "string option"
| EndSteppingRange
| FunctionFinished
| LocationReached
| Interrupt
| Core
| Unknown string

fun stop_reason_string :: "StopReason \<Rightarrow> string" where
  "stop_reason_string (Breakpoint number _) =
     ''breakpoint:'' @ (case number of Some n \<Rightarrow> n | None \<Rightarrow> ''unknown'')"
| "stop_reason_string (Watchpoint number _ access) =
     access @ '':'' @ (case number of Some n \<Rightarrow> n | None \<Rightarrow> ''unknown'')"
| "stop_reason_string (Signal name _) =
     ''signal:'' @ (case name of Some n \<Rightarrow> n | None \<Rightarrow> ''unknown'')"
| "stop_reason_string EndSteppingRange = ''end-stepping-range''"
| "stop_reason_string FunctionFinished = ''function-finished''"
| "stop_reason_string LocationReached = ''location-reached''"
| "stop_reason_string Interrupt = ''interrupt''"
| "stop_reason_string StopReason.Core = ''core''"
| "stop_reason_string (StopReason.Unknown raw_reason) = raw_reason"

record ThreadState =
  thr_id :: ThreadId
  thr_backend_id :: string
  thr_running :: bool
  thr_frame :: "FrameSummary option"

record InferiorState =
  inf_id :: InferiorId
  inf_backend_id :: string
  inf_pid :: "nat option"
  inf_generation :: nat
  inf_status :: InferiorStatus
  inf_exit_code :: "string option"
  inf_threads :: "(string, ThreadState) btree"

datatype SnapshotStatus = Building | Ready | Failed

record SnapshotRef =
  snap_snapshot_id :: string
  snap_stop_id :: StopId
  snap_status :: SnapshotStatus
  snap_partial :: bool

record BreakpointLocationState =
  loc_id :: string
  loc_backend_number :: string
  loc_address :: "string option"
  loc_function :: "string option"

record BreakpointState =
  bp_id :: BreakpointId
  bp_backend_number :: string
  bp_enabled :: bool
  bp_pending :: bool
  bp_locations :: "BreakpointLocationState list"

record ModuleState =
  mod_id :: string
  mod_target_name :: "string option"
  mod_host_name :: "string option"
  mod_symbols_loaded :: "bool option"

record SignalPolicyState =
  sig_stop :: bool
  sig_print :: bool
  sig_pass :: bool

record SessionState =
  session_id :: SessionId
  lifecycle :: SessionLifecycle
  backend :: BackendHealth
  consistency :: Consistency
  reconciliation_required :: bool
  event_seq :: nat
  revision :: nat
  execution_epoch :: nat
  outcome_unknown_tokens :: "(nat, unit) btree"
  stop_id :: "StopId option"
  stop_reason :: "string option"
  stop_reason_detail :: "StopReason option"
  stopped_inferior_id :: "InferiorId option"
  stopped_thread_id :: "ThreadId option"
  target_origin :: TargetOrigin
  inferiors :: "(string, InferiorState) btree"
  breakpoints :: "(string, BreakpointState) btree"
  modules :: "(string, ModuleState) btree"
  signal_policies :: "(string, SignalPolicyState) btree"
  snapshot :: "SnapshotRef option"
  limitations :: "string list"

definition creating :: "SessionId \<Rightarrow> SessionState" where
  "creating session =
     \<lparr>session_id = session, lifecycle = SessionLifecycle.Creating,
      backend = BackendHealth.Starting, consistency = Consistency.Clean,
      reconciliation_required = False, event_seq = 0, revision = 0, execution_epoch = 0,
      outcome_unknown_tokens = [], stop_id = None, stop_reason = None,
      stop_reason_detail = None, stopped_inferior_id = None, stopped_thread_id = None,
      target_origin = TargetOrigin.Unknown, inferiors = [], breakpoints = [], modules = [],
      signal_policies = [], snapshot = None, limitations = []\<rparr>"

definition require_revision :: "nat \<Rightarrow> nat \<Rightarrow> unit result" where
  "require_revision current expected =
     (if current = expected then Ok ()
      else Err (new_error StaleRevision
        (''expected revision '' @ show_nat expected @ '', current revision is '' @
         show_nat current)))"

text \<open>\<open>{:?}\<close> of an optional stop identifier, whose characters need no escaping.\<close>

definition debug_stop :: "StopId option \<Rightarrow> string" where
  "debug_stop s = (case s of
       None \<Rightarrow> ''None''
     | Some x \<Rightarrow> ''Some(StopId('' @ [CHR 0x22] @ x @ [CHR 0x22] @ ''))'')"

definition require_stop :: "SessionState \<Rightarrow> StopId \<Rightarrow> unit result" where
  "require_stop s stop =
     (if stop_id s = Some stop then Ok ()
      else Err (new_error StaleContext
        (''context belongs to '' @ stop @ '', current stop is '' @ debug_stop (stop_id s))))"

definition stopped_frame :: "SessionState \<Rightarrow> FrameSummary option" where
  "stopped_frame s =
     Option.bind (stopped_inferior_id s) (\<lambda>inferior_id.
     Option.bind (stopped_thread_id s) (\<lambda>thread_id.
     Option.bind (find (\<lambda>i. inf_id i = inferior_id) (bt_values (inferiors s))) (\<lambda>i.
     Option.bind (find (\<lambda>t. thr_id t = thread_id) (bt_values (inf_threads i))) thr_frame)))"

definition attributed_inferior :: "SessionState \<Rightarrow> string option \<Rightarrow> string option" where
  "attributed_inferior s backend_id = (case backend_id of
       Some b \<Rightarrow> Some b
     | None \<Rightarrow> (case bt_keys (inferiors s) of
                 [] \<Rightarrow> None
               | [k] \<Rightarrow> Some k
               | _ # _ # _ \<Rightarrow> None))"

definition is_terminal :: "InferiorStatus \<Rightarrow> bool" where
  "is_terminal st \<longleftrightarrow>
     st \<in> {InferiorStatus.Exited, InferiorStatus.Detached, InferiorStatus.Disconnected}"

definition wait_baseline_from :: "SessionState \<Rightarrow> WaitBaseline" where
  "wait_baseline_from s =
     (let terminal = filter (\<lambda>(_, i). is_terminal (inf_status i)) (inferiors s)
      in \<lparr>wb_event_seq = event_seq s, wb_execution_epoch = execution_epoch s,
          wb_stop_id = stop_id s, wb_terminal_inferiors = map fst terminal,
          wb_terminal_inferior_generations =
            map (\<lambda>(k, i). (k, inf_generation i)) terminal\<rparr>)"

section \<open>Events\<close>

datatype OutputSource =
  InferiorPty | MiTargetStream | GdbConsoleStream | GdbLogStream | ServerDiagnostic

datatype DomainEvent =
  SessionClosing
| SessionClosed
| BackendStarted
| BackendExited "int option"
| TargetRunning "string list"
| TargetStopped "string option" "string option" string "StopReason option" "FrameSummary option"
| InferiorAdded string "nat option"
| InferiorRemoved string
| InferiorExited "string option" "string option" bool
| ThreadCreated string string
| ThreadExited "string option" string
| BreakpointCreated string bool bool
| BreakpointModified string bool bool
| BreakpointDeleted string
| BreakpointLocations string "BreakpointLocationState list"
| BreakpointRebound BreakpointId string string bool "string option"
| LibraryLoaded string "string option" "string option" "bool option"
| LibraryUnloaded string
| MemoryChanged
| RegisterChanged string
| ControllerChanged string
| EvidenceGap string
| SignalPolicyChanged string SignalPolicyState
| SnapshotStarted StopId
| SnapshotReady StopId "string option" bool
| SnapshotFailed StopId
| CommandOutcomeUnknown nat
| CommandOutcomeResolved nat
| ConsistencyDirty string
| ConsistencyReconciling
| ConsistencyTainted string
| ConsistencyRestored "string list"
| ConsistencyLost string
| TargetDisconnected
| TargetDetached
| CoreOpened string
| TargetConfigured TargetOrigin
| Output OutputSource bytes
| OutputAdvanced OutputSource nat nat nat
| UnknownBackendEvent string
| UnknownBackendNotification string

definition attributed_exit :: "SessionState \<Rightarrow> DomainEvent \<Rightarrow> bool" where
  "attributed_exit s event = (case event of
       InferiorExited backend_id _ _ \<Rightarrow> attributed_inferior s backend_id \<noteq> None
     | _ \<Rightarrow> False)"

record JournaledEvent =
  je_seq :: nat
  je_event :: DomainEvent

definition journaled_new :: "nat \<Rightarrow> DomainEvent \<Rightarrow> JournaledEvent" where
  "journaled_new seq event = \<lparr>je_seq = seq, je_event = event\<rparr>"

section \<open>Handles determine their sequence numbers\<close>

abbreviation digit_c :: "char \<Rightarrow> bool" where
  "digit_c c \<equiv> is_ascii_digit (byte_of_char c)"

lemma underscore_not_digit [simp]: "\<not> digit_c (CHR ''_'')" "\<not> digit_c (CHR ''s'')"
  by (simp_all add: is_ascii_digit_def byte_of_char_def)

lemma show_nat_prefix_inj:
  assumes "show_nat a @ CHR ''_'' # s = show_nat b @ CHR ''_'' # t"
  shows "a = b \<and> s = t"
proof -
  have tw: "takeWhile digit_c (show_nat n @ CHR ''_'' # u) = show_nat n" for n u
    using show_nat_digits [of n] by (simp add: takeWhile_append2)
  have "show_nat a = show_nat b"
    using tw [of a s] tw [of b t] assms by simp
  then show ?thesis using assms by simp
qed

lemma show_nat_suffix_inj:
  assumes "s @ c # show_nat a = t @ d # show_nat b" and "\<not> digit_c c" "\<not> digit_c d"
  shows "a = b \<and> c = d \<and> s = t"
proof -
  have tw: "takeWhile digit_c (rev (u @ e # show_nat n)) = rev (show_nat n)"
    if "\<not> digit_c e" for u e n
  proof -
    have "\<forall>c\<in>set (rev (show_nat n)). digit_c c" using show_nat_digits [of n] by simp
    then have "takeWhile digit_c (rev (show_nat n) @ e # rev u) = rev (show_nat n)"
      using that by (subst takeWhile_append2) auto
    then show ?thesis by simp
  qed
  have "rev (show_nat a) = rev (show_nat b)"
    using tw [OF assms(2)] tw [OF assms(3)] assms(1) by metis
  then show ?thesis using assms(1) by simp
qed

lemma stop_from_event_inj [simp]: "stop_from_event ses a = stop_from_event ses b \<longleftrightarrow> a = b"
  by (simp add: stop_from_event_def)

lemma inferior_generation_inj:
  "inferior_from_backend ses a x = inferior_from_backend ses b y \<Longrightarrow> a = b"
  by (auto simp: inferior_from_backend_def dest: show_nat_prefix_inj split: if_splits)

lemma show_nat_head:
  assumes "\<not> digit_c c"
  shows "\<not> starts_with (show_nat n @ s) (c # p)"
proof (cases "show_nat n")
  case (Cons d ds)
  then have "digit_c d" using show_nat_digits [of n] by simp
  with assms Cons show ?thesis by auto
qed simp

lemma letter_not_digit [simp]: "\<not> digit_c (CHR ''n'')" "\<not> digit_c (CHR ''t'')"
  by (simp_all add: is_ascii_digit_def byte_of_char_def)

lemma compact_inferior_prefix:
  "uses_compact_handles ses \<Longrightarrow> \<not> starts_with (inferior_from_backend ses g x) ''inf_''"
  using show_nat_head [OF letter_not_digit(1), of g] by (simp add: inferior_from_backend_def)

lemma thread_generation_inj:
  assumes "uses_compact_handles ses"
    and "thread_from_backend (inferior_from_backend ses i x) a t =
         thread_from_backend (inferior_from_backend ses j y) b u"
  shows "a = b"
  using assms
  by (auto simp: thread_from_backend_def compact_inferior_prefix dest: show_nat_prefix_inj)

text \<open>A compact frame handle names one frame: two frame handles are equal only when they were
  made for the same thread handle, the same stop event and the same level, so a handle of an
  earlier stop is never mistaken for one of the current stop.\<close>

theorem frame_id_injective:
  assumes "uses_compact_handles ses" and "\<not> starts_with t ''thr_''" and "\<not> starts_with u ''thr_''"
    and "new_frame_id t (stop_from_event ses a) l = new_frame_id u (stop_from_event ses b) m"
  shows "t = u \<and> a = b \<and> l = m"
proof -
  have form: "new_frame_id v (stop_from_event ses n) k =
      CHR ''f'' # (v @ [CHR ''_''] @ CHR ''s'' # show_nat n) @ CHR ''_'' # show_nat k"
    if "\<not> starts_with v ''thr_''" for v n k
  proof -
    have "\<not> starts_with (stop_from_event ses n) ''stop_''"
      using assms(1) show_nat_head [OF letter_not_digit(2), of n "[]"]
      by (simp add: stop_from_event_def)
    with that assms(1) show ?thesis by (simp add: new_frame_id_def stop_from_event_def)
  qed
  have "(t @ [CHR ''_''] @ CHR ''s'' # show_nat a) @ CHR ''_'' # show_nat l =
      (u @ [CHR ''_''] @ CHR ''s'' # show_nat b) @ CHR ''_'' # show_nat m"
    using assms(4) form [OF assms(2)] form [OF assms(3)] by simp
  note outer = show_nat_suffix_inj [OF this underscore_not_digit(1) underscore_not_digit(1)]
  then have "(t @ [CHR ''_'']) @ CHR ''s'' # show_nat a = (u @ [CHR ''_'']) @ CHR ''s'' # show_nat b"
    by simp
  note inner = show_nat_suffix_inj [OF this underscore_not_digit(2) underscore_not_digit(2)]
  from outer inner show ?thesis by simp
qed

theorem frame_id_injective_witness:
  "new_frame_id ''t4_1'' (stop_from_event ''sess_0123456789abcdef'' 7) 0 \<noteq>
   new_frame_id ''t4_1'' (stop_from_event ''sess_0123456789abcdef'' 9) 0"
  using frame_id_injective [of "''sess_0123456789abcdef''" "''t4_1''" "''t4_1''" 7 0 9 0]
  by (auto simp: uses_compact_handles_def strip_prefix_def)

section \<open>Parsing identifiers and addresses\<close>

lemma path_chars: "\<not> id_char (CHR ''/'')" "\<not> id_char (CHR ''.'')" "\<not> id_char (CHR 0x00)"
  "\<not> id_char (CHR 0x5c)"
  by (simp_all add: id_char_def is_ascii_alphanumeric_def is_ascii_digit_def byte_of_char_def)

text \<open>Identifiers are safe as path components: a parsed identifier is its input unchanged, has
  the required prefix and contains no slash, backslash, dot or NUL byte; and parsing accepts
  exactly the prefix followed by 1 to 256 identifier characters, reporting \<open>InvalidArgument\<close> for
  everything else.\<close>

theorem parse_id_safe:
  assumes "list_all id_char pre"
  shows "case parse_id pre s of
      Ok i \<Rightarrow> i = s \<and> starts_with s (pre @ ''_'') \<and>
        set s \<inter> {CHR ''/'', CHR 0x5c, CHR ''.'', CHR 0x00} = {}
    | Err e \<Rightarrow> err_code e = InvalidArgument \<and>
        (\<nexists>suffix. s = pre @ ''_'' @ suffix \<and> 1 \<le> length suffix \<and> length suffix \<le> 256 \<and>
          list_all id_char suffix)"
proof (cases "strip_prefix (pre @ ''_'') s")
  case None
  then have "\<nexists>suffix. s = (pre @ ''_'') @ suffix"
    by (metis option.distinct(1) strip_prefix_append)
  with None show ?thesis by (auto simp: parse_id_def new_error_def)
next
  case (Some suffix)
  then have s: "s = pre @ ''_'' @ suffix" by (simp add: strip_prefix_eq_Some)
  have "id_char (CHR ''_'')" by (simp add: id_char_def)
  with assms path_chars show ?thesis
    using Some s starts_with_append [of "pre @ ''_''" suffix]
    by (auto simp: parse_id_def new_error_def list_all_iff Suc_le_eq)
qed

theorem parse_id_safe_witness:
  "case parse_id ''sess'' ''sess_../x'' of Ok i \<Rightarrow> False | Err e \<Rightarrow> err_code e = InvalidArgument"
  using parse_id_safe [of "''sess''" "''sess_../x''"] path_chars
  by (auto simp: id_char_def is_ascii_alphanumeric_def is_ascii_digit_def byte_of_char_def
      split: sum.splits)

lemma to_digit_16_less: "to_digit 16 c = Some d \<Longrightarrow> d < 16"
  by (auto simp: to_digit_def Let_def split: if_splits)

lemma digits_value_hex_bound:
  "list_all is_ascii_hexdigit ds \<Longrightarrow>
     \<exists>n. digits_value 16 a ds = Some n \<and> n < (a + 1) * 16 ^ length ds"
proof (induction ds arbitrary: a)
  case (Cons c ds)
  then obtain d where d: "to_digit 16 c = Some d" "d < 16"
    by (auto simp: is_ascii_hexdigit_def to_digit_16_less)
  obtain n where n: "digits_value 16 (a * 16 + d) ds = Some n"
      "n < (a * 16 + d + 1) * 16 ^ length ds"
    using Cons.IH [of "a * 16 + d"] Cons.prems by auto
  have "(a * 16 + d + 1) * 16 ^ length ds \<le> ((a + 1) * 16) * 16 ^ length ds"
    using d(2) by (intro mult_right_mono) auto
  also have "\<dots> = (a + 1) * 16 ^ length (c # ds)" by (simp only: mult.assoc length_Cons power_Suc)
  finally have "n < (a + 1) * 16 ^ length (c # ds)" using n(2) by linarith
  with d n(1) show ?case by simp
qed simp

lemma hexdigit_not_plus: "is_ascii_hexdigit c \<Longrightarrow> c \<noteq> CHR ''+''"
  by (auto simp: is_ascii_hexdigit_def to_digit_def)

lemma hex_fixed_hexdigits: "list_all is_ascii_hexdigit (hex_fixed w n)"
  by (induction w n rule: hex_fixed.induct) (auto simp: is_ascii_hexdigit_def)

lemma from_str_radix_hex:
  assumes "list_all is_ascii_hexdigit ds" "ds \<noteq> []" "length ds \<le> 16"
  shows "\<exists>n. from_str_radix 64 16 ds = Some n \<and> digits_value 16 0 ds = Some n \<and> n < 16 ^ 16"
proof -
  obtain n where n: "digits_value 16 0 ds = Some n" "n < 16 ^ length ds"
    using digits_value_hex_bound [OF assms(1), of 0] by auto
  have "16 ^ length ds \<le> (16 :: nat) ^ 16" using assms(3) by (intro power_increasing) auto
  then have "n < 16 ^ 16" using n(2) by linarith
  moreover have "(case ds of c # c' # r \<Rightarrow> if c = CHR ''+'' then c' # r else ds | _ \<Rightarrow> ds) = ds"
    using assms(1) by (auto dest: hexdigit_not_plus split: list.splits)
  ultimately show ?thesis
    using n(1) assms(2) by (simp add: from_str_radix_def)
qed

lemma parse_canonical_address_Ok:
  "parse_canonical_address s = Ok x \<longleftrightarrow>
     (\<exists>ds n. s = ''0x'' @ ds \<and> ds \<noteq> [] \<and> length ds \<le> 16 \<and> list_all is_ascii_hexdigit ds \<and>
       digits_value 16 0 ds = Some n \<and> x = ''0x'' @ hex_fixed 16 n)"
proof (cases "strip_prefix ''0x'' s")
  case None
  then have "\<nexists>ds. s = ''0x'' @ ds" by (metis option.distinct(1) strip_prefix_append)
  with None show ?thesis by (auto simp: parse_canonical_address_def)
next
  case (Some ds)
  then have "s = ''0x'' @ ds" by (simp add: strip_prefix_eq_Some)
  with Some show ?thesis
    using from_str_radix_hex [of ds]
    by (auto simp: parse_canonical_address_def split: if_splits)
qed

text \<open>C16.  Addresses have one normal form: an accepted address becomes \<open>0x\<close> and sixteen digits, the
  normal form parses to itself, two accepted spellings have the same normal form exactly when
  they denote the same number, and every refusal is \<open>InvalidArgument\<close>.\<close>

theorem address_normal_form:
  "case parse_canonical_address a of
     Ok x \<Rightarrow> length x = 18 \<and> parse_canonical_address x = Ok x \<and>
       (\<forall>b y. parse_canonical_address b = Ok y \<longrightarrow>
          (x = y \<longleftrightarrow> digits_value 16 0 (drop 2 a) = digits_value 16 0 (drop 2 b)))
   | Err e \<Rightarrow> err_code e = InvalidArgument"
proof (cases "parse_canonical_address a")
  case (Inl e)
  then show ?thesis
    by (auto simp: parse_canonical_address_def new_error_def split: option.splits if_splits)
next
  case (Inr x)
  have bound: "n < 16 ^ 16" if "list_all is_ascii_hexdigit ds" "ds \<noteq> []" "length ds \<le> 16"
      "digits_value 16 0 ds = Some n" for ds n
    using from_str_radix_hex [OF that(1-3)] that(4) by auto
  have inj: "hex_fixed 16 m = hex_fixed 16 n \<longleftrightarrow> m = n" if "m < 16 ^ 16" "n < 16 ^ 16" for m n
    using that digits_value_hex_fixed by (metis option.inject)
  from Inr obtain ds n where a: "a = ''0x'' @ ds" "ds \<noteq> []" "length ds \<le> 16"
      "list_all is_ascii_hexdigit ds" "digits_value 16 0 ds = Some n" "x = ''0x'' @ hex_fixed 16 n"
    by (auto simp: parse_canonical_address_Ok)
  note n = bound [OF a(4,2,3,5)]
  have "hex_fixed 16 n \<noteq> []" "length (hex_fixed 16 n) \<le> 16"
    using length_hex_fixed [of 16 n] by fastforce+
  with a(6) digits_value_hex_fixed [OF n] hex_fixed_hexdigits [of 16 n]
  have "parse_canonical_address x = Ok x"
    unfolding parse_canonical_address_Ok by blast
  moreover have "x = y \<longleftrightarrow> digits_value 16 0 (drop 2 a) = digits_value 16 0 (drop 2 b)"
    if "parse_canonical_address b = Ok y" for b y
  proof -
    from that obtain es m where b: "b = ''0x'' @ es" "es \<noteq> []" "length es \<le> 16"
        "list_all is_ascii_hexdigit es" "digits_value 16 0 es = Some m" "y = ''0x'' @ hex_fixed 16 m"
      by (auto simp: parse_canonical_address_Ok)
    show ?thesis
      using inj [OF n bound [OF b(4,2,3,5)]] a b by (simp add: numeral_2_eq_2)
  qed
  ultimately show ?thesis using Inr a(6) by simp
qed

lemma hex_fixed_numeral:
  "hex_fixed (numeral k) n = hex_fixed (pred_numeral k) (n div 16) @ [digit_char (n mod 16)]"
  by (simp only: numeral_eq_Suc [of k] hex_fixed.simps)

theorem address_normal_form_witness:
  "parse_canonical_address ''0x0A'' = Ok ''0x000000000000000a'' \<and>
   parse_canonical_address ''0x000000000000000a'' = Ok ''0x000000000000000a''"
proof -
  have "digits_value 16 0 ''0A'' = Some 10" "list_all is_ascii_hexdigit ''0A''"
    by (simp_all add: to_digit_def is_ascii_hexdigit_def)
  moreover have "digit_char 0 = CHR ''0''" "digit_char 10 = CHR ''a''"
    by (simp_all add: digit_char_def char_of_def bit_0)
  then have "hex_fixed 16 10 = ''000000000000000a''"
    by (simp add: hex_fixed_numeral)
  ultimately have ok: "parse_canonical_address ''0x0A'' = Ok ''0x000000000000000a''"
    unfolding parse_canonical_address_Ok by (intro exI [of _ "''0A''"] exI [of _ 10]) simp
  with address_normal_form [of "''0x0A''", unfolded ok sum.case] show ?thesis by blast
qed

end
