(* ===== verification/Reducer.thy ===== *)
theory Reducer
  imports Domain
begin

text \<open>
  The session state machine of \<open>crates/gdb-ai-core/src/reducer.rs\<close>: every change of the session
  state is one \<open>apply_event\<close> of a numbered domain event, or the fail-closed transition of a lost
  journal.  One definition per branch of \<open>StateMutator::reduce\<close>; each returns the new state and
  whether it counts as a change of the public revision.  Sequence numbers and revisions are
  unbounded here (a \<open>u64\<close> counter of events does not wrap).
\<close>

section \<open>Limitations\<close>

definition max_limitations :: nat where
  "max_limitations = 64"

definition limitations_omitted :: string where
  "limitations_omitted = ''additional limitations omitted''"

definition push_limitation :: "string list \<Rightarrow> string \<Rightarrow> string list" where
  "push_limitation ls limitation =
     (if limitation \<in> set ls \<or> limitations_omitted \<in> set ls then ls
      else if length ls < max_limitations - 1 then ls @ [limitation]
      else ls @ [limitations_omitted])"

definition push_limitations :: "string list \<Rightarrow> string list \<Rightarrow> string list" where
  "push_limitations ls warnings = fold (\<lambda>w l. push_limitation l w) warnings ls"

section \<open>Shared transitions\<close>

definition clear_stop_context :: "SessionState \<Rightarrow> SessionState" where
  "clear_stop_context s =
     s\<lparr>stop_id := None, stop_reason := None, stop_reason_detail := None,
       stopped_inferior_id := None, stopped_thread_id := None, snapshot := None\<rparr>"

definition new_inferior :: "SessionId \<Rightarrow> nat \<Rightarrow> string \<Rightarrow> InferiorState" where
  "new_inferior session generation backend_id =
     \<lparr>inf_id = inferior_from_backend session generation backend_id,
      inf_backend_id = backend_id, inf_pid = None, inf_generation = generation,
      inf_status = InferiorStatus.Empty, inf_exit_code = None, inf_threads = []\<rparr>"

definition ensure_inferior :: "SessionState \<Rightarrow> string \<Rightarrow> nat \<Rightarrow> SessionState" where
  "ensure_inferior s backend_id generation =
     s\<lparr>inferiors :=
         bt_entry backend_id (new_inferior (session_id s) generation backend_id) (inferiors s)\<rparr>"

definition fails_backend :: "InferiorStatus \<Rightarrow> bool" where
  "fails_backend st \<longleftrightarrow> st \<noteq> InferiorStatus.Empty \<and> \<not> is_terminal st"

definition fail_backend :: "SessionState \<Rightarrow> SessionState \<times> bool" where
  "fail_backend s =
     (let changed = lifecycle s \<noteq> SessionLifecycle.Failed \<or> backend s \<noteq> BackendHealth.Dead \<or>
            stop_id s \<noteq> None \<or> list_ex (\<lambda>i. fails_backend (inf_status i)) (bt_values (inferiors s))
      in (clear_stop_context
            (s\<lparr>lifecycle := SessionLifecycle.Failed, backend := BackendHealth.Dead,
               inferiors := bt_map (\<lambda>_ i. if fails_backend (inf_status i)
                   then i\<lparr>inf_status := InferiorStatus.Disconnected\<rparr> else i) (inferiors s)\<rparr>),
          changed))"

section \<open>Inferiors\<close>

definition add_inferior :: "SessionId \<Rightarrow> nat \<Rightarrow> string \<Rightarrow> nat option \<Rightarrow> InferiorState \<Rightarrow> InferiorState"
  where
  "add_inferior session seq backend_id pid i =
     (let i1 = (if pid \<noteq> None \<and> (inf_pid i \<noteq> pid \<or> is_terminal (inf_status i))
                then new_inferior session seq backend_id else i);
          i2 = i1\<lparr>inf_pid := pid\<rparr>
      in if pid \<noteq> None \<and> inf_status i2 = InferiorStatus.Empty
         then i2\<lparr>inf_status := InferiorStatus.Connecting\<rparr> else i2)"

definition reduce_inferior_added ::
  "SessionState \<Rightarrow> string \<Rightarrow> nat option \<Rightarrow> SessionState \<times> bool" where
  "reduce_inferior_added s backend_id pid =
     (let seq = event_seq s;
          s1 = ensure_inferior s backend_id seq;
          s2 = s1\<lparr>inferiors := bt_update backend_id
                    (add_inferior (session_id s) seq backend_id pid) (inferiors s1)\<rparr>
      in (if pid \<noteq> None then s2\<lparr>lifecycle := SessionLifecycle.Active\<rparr> else s2, True))"

definition reduce_inferior_removed :: "SessionState \<Rightarrow> string \<Rightarrow> SessionState \<times> bool" where
  "reduce_inferior_removed s backend_id =
     (case bt_get (inferiors s) backend_id of
        None \<Rightarrow> (s, False)
      | Some removed \<Rightarrow>
          let s1 = s\<lparr>inferiors := bt_remove backend_id (inferiors s)\<rparr>
          in (if stopped_inferior_id s1 = Some (inf_id removed) then clear_stop_context s1 else s1,
              True))"

definition reduce_inferior_exited ::
  "SessionState \<Rightarrow> string option \<Rightarrow> string option \<Rightarrow> bool \<Rightarrow> SessionState \<times> bool" where
  "reduce_inferior_exited s backend_opt exit_code from_stop_record =
     (case attributed_inferior s backend_opt of
        None \<Rightarrow> (s, False)
      | Some backend_id \<Rightarrow>
          let known = bt_get (inferiors s) backend_id;
              disconnected = target_origin s = TargetOrigin.Remote \<and> \<not> from_stop_record \<and>
                exit_code = None \<and>
                (case known of None \<Rightarrow> True | Some i \<Rightarrow> inf_status i \<noteq> InferiorStatus.Exited);
              invalidates_stop = (case known of None \<Rightarrow> False
                | Some i \<Rightarrow> stopped_inferior_id s = Some (inf_id i));
              s1 = ensure_inferior s backend_id (event_seq s);
              s2 = s1\<lparr>inferiors := bt_update backend_id
                (\<lambda>i. let i1 = i\<lparr>inf_status := if disconnected then InferiorStatus.Disconnected
                                            else InferiorStatus.Exited\<rparr>
                     in if exit_code \<noteq> None then i1\<lparr>inf_exit_code := exit_code\<rparr> else i1)
                (inferiors s1)\<rparr>
          in (if invalidates_stop then clear_stop_context s2 else s2, True))"

section \<open>Running and stopping\<close>

definition any_running :: "SessionState \<Rightarrow> bool" where
  "any_running s \<longleftrightarrow> list_ex (\<lambda>i. inf_status i = InferiorStatus.Running) (bt_values (inferiors s))"

definition run_inferior :: "InferiorState \<Rightarrow> InferiorState" where
  "run_inferior i =
     i\<lparr>inf_status := InferiorStatus.Running,
       inf_threads := bt_map (\<lambda>_ t. t\<lparr>thr_running := True, thr_frame := None\<rparr>) (inf_threads i)\<rparr>"

definition reduce_target_running :: "SessionState \<Rightarrow> string list \<Rightarrow> SessionState \<times> bool" where
  "reduce_target_running s backend_inferiors =
     (let was_running = any_running s;
          previous_lifecycle = lifecycle s;
          had_stop = stop_id s \<noteq> None;
          s1 = (if inferiors s = []
                then ensure_inferior s
                       (case backend_inferiors of [] \<Rightarrow> ''i1'' | b # _ \<Rightarrow> b) (event_seq s)
                else s);
          selected = (\<lambda>b. backend_inferiors = [] \<or> b \<in> set backend_inferiors);
          status_changed = list_ex (\<lambda>(b, i). selected b \<and> inf_status i \<noteq> InferiorStatus.Running)
            (inferiors s1);
          s2 = s1\<lparr>inferiors := bt_map (\<lambda>b i. if selected b then run_inferior i else i) (inferiors s1),
                  lifecycle := SessionLifecycle.Active\<rparr>;
          running_edge = (\<not> was_running \<and> any_running s2);
          s3 = (if running_edge then s2\<lparr>execution_epoch := execution_epoch s2 + 1\<rparr> else s2)
      in (clear_stop_context s3,
          running_edge \<or> status_changed \<or> had_stop \<or>
          previous_lifecycle \<noteq> SessionLifecycle.Active))"

definition stop_owner :: "SessionState \<Rightarrow> string option \<Rightarrow> string option \<Rightarrow> string" where
  "stop_owner s backend_inferior backend_thread =
     (case backend_inferior of
        Some b \<Rightarrow> b
      | None \<Rightarrow>
          (case Option.bind backend_thread (\<lambda>t.
                  find_map (\<lambda>(b, i). if bt_get (inf_threads i) t \<noteq> None then Some b else None)
                    (inferiors s)) of
             Some b \<Rightarrow> b
           | None \<Rightarrow> (case bt_keys (inferiors s) of b # _ \<Rightarrow> b | [] \<Rightarrow> ''i1'')))"

definition stop_inferior :: "InferiorState \<Rightarrow> InferiorState" where
  "stop_inferior i =
     (if \<not> is_terminal (inf_status i)
      then i\<lparr>inf_status := InferiorStatus.Stopped,
             inf_threads := bt_map (\<lambda>_ t. t\<lparr>thr_running := False\<rparr>) (inf_threads i)\<rparr>
      else i)"

definition stopped_thread_handle :: "InferiorState \<Rightarrow> nat \<Rightarrow> string \<Rightarrow> ThreadId" where
  "stopped_thread_handle i seq backend_thread =
     (case bt_get (inf_threads i) backend_thread of
        Some t \<Rightarrow> thr_id t
      | None \<Rightarrow> thread_from_backend (inf_id i) seq backend_thread)"

definition stop_thread :: "nat \<Rightarrow> string \<Rightarrow> FrameSummary option \<Rightarrow> InferiorState \<Rightarrow> InferiorState" where
  "stop_thread seq backend_thread frame i =
     i\<lparr>inf_threads := bt_insert backend_thread
         \<lparr>thr_id = stopped_thread_handle i seq backend_thread, thr_backend_id = backend_thread,
          thr_running = False, thr_frame = frame\<rparr> (inf_threads i)\<rparr>"

definition building_snapshot :: "StopId \<Rightarrow> SnapshotRef" where
  "building_snapshot stop =
     \<lparr>snap_snapshot_id = ''snap_'' @ stop, snap_stop_id = stop,
      snap_status = SnapshotStatus.Building, snap_partial = False\<rparr>"

definition reduce_target_stopped ::
  "SessionState \<Rightarrow> string option \<Rightarrow> string option \<Rightarrow> string \<Rightarrow> StopReason option \<Rightarrow>
   FrameSummary option \<Rightarrow> SessionState \<times> bool" where
  "reduce_target_stopped s backend_inferior backend_thread reason reason_detail frame =
     (let backend_id = stop_owner s backend_inferior backend_thread;
          seq = event_seq s;
          s1 = ensure_inferior s backend_id seq;
          s2 = s1\<lparr>inferiors := bt_map (\<lambda>_. stop_inferior) (inferiors s1)\<rparr>;
          owner = bt_get (inferiors s2) backend_id;
          stopped_inferior = map_option inf_id owner;
          stopped_thread = Option.bind backend_thread (\<lambda>t.
            map_option (\<lambda>i. stopped_thread_handle i seq t) owner);
          s3 = (case backend_thread of
                  None \<Rightarrow> s2
                | Some t \<Rightarrow> s2\<lparr>inferiors :=
                    bt_update backend_id (stop_thread seq t frame) (inferiors s2)\<rparr>);
          stop = stop_from_event (session_id s) (event_seq s)
      in (s3\<lparr>stop_id := Some stop, stop_reason := Some reason,
             stop_reason_detail := (case reason_detail of
                Some d \<Rightarrow> Some d | None \<Rightarrow> Some (StopReason.Unknown reason)),
             stopped_inferior_id := stopped_inferior, stopped_thread_id := stopped_thread,
             snapshot := Some (building_snapshot stop),
             lifecycle := SessionLifecycle.Active, backend := BackendHealth.Healthy\<rparr>, True))"

section \<open>Threads\<close>

definition create_thread :: "nat \<Rightarrow> string \<Rightarrow> InferiorState \<Rightarrow> InferiorState \<times> bool" where
  "create_thread seq backend_thread i =
     (let running = (inf_status i = InferiorStatus.Running)
      in case bt_get (inf_threads i) backend_thread of
           Some t \<Rightarrow>
             (i\<lparr>inf_threads := bt_update backend_thread (\<lambda>t. t\<lparr>thr_running := running\<rparr>)
                 (inf_threads i)\<rparr>, thr_running t \<noteq> running)
         | None \<Rightarrow>
             (i\<lparr>inf_threads := bt_insert backend_thread
                 \<lparr>thr_id = thread_from_backend (inf_id i) seq backend_thread,
                  thr_backend_id = backend_thread, thr_running = running, thr_frame = None\<rparr>
                 (inf_threads i)\<rparr>, True))"

definition reduce_thread_created :: "SessionState \<Rightarrow> string \<Rightarrow> string \<Rightarrow> SessionState \<times> bool" where
  "reduce_thread_created s backend_inferior backend_thread =
     (let seq = event_seq s;
          s1 = ensure_inferior s backend_inferior seq
      in (s1\<lparr>inferiors := bt_update backend_inferior
               (\<lambda>i. fst (create_thread seq backend_thread i)) (inferiors s1)\<rparr>,
          case bt_get (inferiors s1) backend_inferior of
            Some i \<Rightarrow> snd (create_thread seq backend_thread i) | None \<Rightarrow> False))"

definition exit_thread :: "string \<Rightarrow> InferiorState \<Rightarrow> InferiorState" where
  "exit_thread backend_thread i =
     i\<lparr>inf_threads := bt_remove backend_thread (inf_threads i)\<rparr>"

definition has_thread :: "string \<Rightarrow> InferiorState \<Rightarrow> bool" where
  "has_thread backend_thread i \<longleftrightarrow> bt_get (inf_threads i) backend_thread \<noteq> None"

text \<open>\<open>values_mut().any(remove)\<close> stops at the first inferior that had the thread.\<close>

fun exit_first_thread ::
  "string \<Rightarrow> (string, InferiorState) btree \<Rightarrow> (string, InferiorState) btree \<times> bool" where
  "exit_first_thread t [] = ([], False)"
| "exit_first_thread t ((b, i) # m) =
     (if has_thread t i then ((b, exit_thread t i) # m, True)
      else case exit_first_thread t m of (m', removed) \<Rightarrow> ((b, i) # m', removed))"

definition reduce_thread_exited :: "SessionState \<Rightarrow> string option \<Rightarrow> string \<Rightarrow> SessionState \<times> bool" where
  "reduce_thread_exited s backend_inferior backend_thread =
     (case backend_inferior of
        Some b \<Rightarrow>
          (s\<lparr>inferiors := bt_update b (exit_thread backend_thread) (inferiors s)\<rparr>,
           case bt_get (inferiors s) b of Some i \<Rightarrow> has_thread backend_thread i | None \<Rightarrow> False)
      | None \<Rightarrow>
          (case exit_first_thread backend_thread (inferiors s) of
             (m, removed) \<Rightarrow> (s\<lparr>inferiors := m\<rparr>, removed)))"

section \<open>Breakpoints\<close>

definition breakpoint_handle :: "SessionState \<Rightarrow> string \<Rightarrow> BreakpointId" where
  "breakpoint_handle s backend_number =
     (let number = map (\<lambda>c. if c = CHR ''.'' then CHR ''_'' else c) backend_number
      in if uses_compact_handles (session_id s)
         then ''b'' @ show_nat (event_seq s) @ ''_'' @ number
         else ''bp_'' @ session_id s @ ''_'' @ show_nat (event_seq s) @ ''_'' @ number)"

definition reduce_breakpoint_upsert ::
  "SessionState \<Rightarrow> string \<Rightarrow> bool \<Rightarrow> bool \<Rightarrow> SessionState \<times> bool" where
  "reduce_breakpoint_upsert s backend_number enabled pending =
     (let known = bt_get (breakpoints s) backend_number;
          i = (case known of Some b \<Rightarrow> bp_id b | None \<Rightarrow> breakpoint_handle s backend_number);
          locations = (case known of Some b \<Rightarrow> bp_locations b | None \<Rightarrow> [])
      in (s\<lparr>breakpoints := bt_insert backend_number
              \<lparr>bp_id = i, bp_backend_number = backend_number, bp_enabled = enabled,
               bp_pending = pending, bp_locations = locations\<rparr> (breakpoints s)\<rparr>, True))"

definition reduce_breakpoint_rebound ::
  "SessionState \<Rightarrow> BreakpointId \<Rightarrow> string \<Rightarrow> string \<Rightarrow> bool \<Rightarrow> string option \<Rightarrow> SessionState \<times> bool"
  where
  "reduce_breakpoint_rebound s i old_number new_number enabled address =
     (s\<lparr>breakpoints := bt_insert new_number
          \<lparr>bp_id = i, bp_backend_number = new_number, bp_enabled = enabled,
           bp_pending = (address = None),
           bp_locations = (case address of None \<Rightarrow> [] | Some a \<Rightarrow>
             [\<lparr>loc_id = ''bpl_'' @ i @ ''_'' @ show_nat (event_seq s) @ ''_1'',
               loc_backend_number = new_number, loc_address = Some a, loc_function = None\<rparr>])\<rparr>
          (bt_remove new_number (bt_remove old_number (breakpoints s)))\<rparr>, True)"

definition reduce_breakpoint_locations ::
  "SessionState \<Rightarrow> string \<Rightarrow> BreakpointLocationState list \<Rightarrow> SessionState \<times> bool" where
  "reduce_breakpoint_locations s backend_number locations =
     (case bt_get (breakpoints s) backend_number of
        Some _ \<Rightarrow> (s\<lparr>breakpoints :=
                     bt_update backend_number (\<lambda>b. b\<lparr>bp_locations := locations\<rparr>) (breakpoints s)\<rparr>, True)
      | None \<Rightarrow> (s, False))"

section \<open>Snapshots\<close>

definition snapshot_ready :: "SessionState \<Rightarrow> bool" where
  "snapshot_ready s \<longleftrightarrow>
     (case snapshot s of Some sn \<Rightarrow> snap_status sn = SnapshotStatus.Ready | None \<Rightarrow> False)"

definition reduce_snapshot_started :: "SessionState \<Rightarrow> StopId \<Rightarrow> SessionState \<times> bool" where
  "reduce_snapshot_started s stop =
     (if stop_id s \<noteq> Some stop \<or> snapshot_ready s then (s, False)
      else (s\<lparr>snapshot := Some (building_snapshot stop)\<rparr>, True))"

definition reduce_snapshot_ready ::
  "SessionState \<Rightarrow> StopId \<Rightarrow> string option \<Rightarrow> bool \<Rightarrow> SessionState \<times> bool" where
  "reduce_snapshot_ready s stop snapshot_id partial =
     (if stop_id s \<noteq> Some stop then (s, False)
      else (s\<lparr>snapshot := map_option (\<lambda>sn.
              (case snapshot_id of Some i \<Rightarrow> sn\<lparr>snap_snapshot_id := i\<rparr> | None \<Rightarrow> sn)
              \<lparr>snap_status := SnapshotStatus.Ready, snap_partial := partial\<rparr>) (snapshot s)\<rparr>, True))"

definition reduce_snapshot_failed :: "SessionState \<Rightarrow> StopId \<Rightarrow> SessionState \<times> bool" where
  "reduce_snapshot_failed s stop =
     (if stop_id s \<noteq> Some stop \<or> snapshot_ready s then (s, False)
      else (s\<lparr>snapshot := map_option (\<lambda>sn.
              sn\<lparr>snap_status := SnapshotStatus.Failed, snap_partial := True\<rparr>) (snapshot s)\<rparr>, True))"

section \<open>Evidence and consistency\<close>

definition evidence_gap_prefix :: string where
  "evidence_gap_prefix = ''evidence gap: ''"

definition reduce_evidence_gap :: "SessionState \<Rightarrow> string \<Rightarrow> SessionState \<times> bool" where
  "reduce_evidence_gap s reason =
     (let limitation = evidence_gap_prefix @ reason; ls = limitations s
      in (if limitation \<in> set ls then s
          else let ls1 = limitation # ls
               in s\<lparr>limitations :=
                    if length ls1 > max_limitations
                    then take (max_limitations - 1) ls1 @ [limitations_omitted] else ls1\<rparr>,
          True))"

definition mark_dirty :: "SessionState \<Rightarrow> SessionState" where
  "mark_dirty s =
     (if consistency s \<noteq> Consistency.Tainted
      then s\<lparr>consistency := Consistency.ManagedDirty\<rparr> else s)"

definition reduce_outcome_unknown :: "SessionState \<Rightarrow> nat \<Rightarrow> SessionState \<times> bool" where
  "reduce_outcome_unknown s token =
     (mark_dirty (s\<lparr>outcome_unknown_tokens := bt_insert token () (outcome_unknown_tokens s),
        backend := BackendHealth.Unresponsive\<rparr>), True)"

definition reduce_outcome_resolved :: "SessionState \<Rightarrow> nat \<Rightarrow> SessionState \<times> bool" where
  "reduce_outcome_resolved s token =
     (let removed = bt_get (outcome_unknown_tokens s) token \<noteq> None;
          s1 = s\<lparr>outcome_unknown_tokens := bt_remove token (outcome_unknown_tokens s)\<rparr>
      in (if outcome_unknown_tokens s1 = []
          then s1\<lparr>backend := BackendHealth.Healthy, reconciliation_required := True\<rparr> else s1,
          removed))"

definition reduce_dirty :: "SessionState \<Rightarrow> string \<Rightarrow> SessionState \<times> bool" where
  "reduce_dirty s limitation =
     ((mark_dirty s)\<lparr>reconciliation_required := True,
        limitations := push_limitation (limitations s) limitation\<rparr>, True)"

definition reduce_reconciling :: "SessionState \<Rightarrow> SessionState \<times> bool" where
  "reduce_reconciling s =
     (if consistency s = Consistency.Tainted then (s, False)
      else (s\<lparr>consistency := Consistency.Reconciling\<rparr>, True))"

definition reduce_tainted :: "SessionState \<Rightarrow> string \<Rightarrow> SessionState \<times> bool" where
  "reduce_tainted s limitation =
     (s\<lparr>consistency := Consistency.Tainted, reconciliation_required := True,
        limitations := push_limitation (limitations s) limitation\<rparr>, True)"

definition reduce_restored :: "SessionState \<Rightarrow> string list \<Rightarrow> SessionState \<times> bool" where
  "reduce_restored s warnings =
     (let s1 = s\<lparr>reconciliation_required := False\<rparr>
      in if consistency s = Consistency.Tainted
         then (s1\<lparr>limitations := push_limitations (limitations s) warnings\<rparr>, warnings \<noteq> [])
         else (s1\<lparr>consistency := Consistency.Clean,
                  limitations := push_limitations
                    (filter (\<lambda>l. starts_with l evidence_gap_prefix) (limitations s)) warnings\<rparr>,
               True))"

definition reduce_lost :: "SessionState \<Rightarrow> string \<Rightarrow> SessionState \<times> bool" where
  "reduce_lost s reason =
     (s\<lparr>consistency := Consistency.Lost, reconciliation_required := False,
        limitations := push_limitation (limitations s) reason\<rparr>, True)"

definition set_all_status :: "InferiorStatus \<Rightarrow> SessionState \<Rightarrow> SessionState" where
  "set_all_status st s =
     s\<lparr>inferiors := bt_map (\<lambda>_ i. i\<lparr>inf_status := st\<rparr>) (inferiors s)\<rparr>"

definition reduce_core_opened :: "SessionState \<Rightarrow> string \<Rightarrow> SessionState \<times> bool" where
  "reduce_core_opened s backend_id =
     (let s1 = ensure_inferior s backend_id (event_seq s)
      in (s1\<lparr>inferiors := bt_update backend_id (\<lambda>i. i\<lparr>inf_status := InferiorStatus.Core\<rparr>)
               (inferiors s1),
             target_origin := TargetOrigin.Core, lifecycle := SessionLifecycle.Active\<rparr>, True))"

section \<open>The transition function\<close>

fun reduce :: "SessionState \<Rightarrow> DomainEvent \<Rightarrow> SessionState \<times> bool" where
  "reduce s SessionClosing = (s\<lparr>lifecycle := SessionLifecycle.Closing\<rparr>, True)"
| "reduce s SessionClosed =
     (s\<lparr>lifecycle := SessionLifecycle.Closed, backend := BackendHealth.Dead\<rparr>, True)"
| "reduce s BackendStarted =
     (s\<lparr>lifecycle := SessionLifecycle.Ready, backend := BackendHealth.Healthy\<rparr>, True)"
| "reduce s (BackendExited _) = fail_backend s"
| "reduce s (InferiorAdded backend_id pid) = reduce_inferior_added s backend_id pid"
| "reduce s (InferiorRemoved backend_id) = reduce_inferior_removed s backend_id"
| "reduce s (InferiorExited backend_id exit_code from_stop_record) =
     reduce_inferior_exited s backend_id exit_code from_stop_record"
| "reduce s (DomainEvent.TargetRunning backend_inferiors) =
     reduce_target_running s backend_inferiors"
| "reduce s (DomainEvent.TargetStopped backend_inferior backend_thread reason detail frame) =
     reduce_target_stopped s backend_inferior backend_thread reason detail frame"
| "reduce s (ThreadCreated backend_inferior backend_thread) =
     reduce_thread_created s backend_inferior backend_thread"
| "reduce s (ThreadExited backend_inferior backend_thread) =
     reduce_thread_exited s backend_inferior backend_thread"
| "reduce s (BreakpointCreated number enabled pending) =
     reduce_breakpoint_upsert s number enabled pending"
| "reduce s (BreakpointModified number enabled pending) =
     reduce_breakpoint_upsert s number enabled pending"
| "reduce s (BreakpointDeleted number) =
     (s\<lparr>breakpoints := bt_remove number (breakpoints s)\<rparr>, bt_get (breakpoints s) number \<noteq> None)"
| "reduce s (BreakpointLocations number locations) =
     reduce_breakpoint_locations s number locations"
| "reduce s (BreakpointRebound i old_number new_number enabled address) =
     reduce_breakpoint_rebound s i old_number new_number enabled address"
| "reduce s (LibraryLoaded i target_name host_name symbols_loaded) =
     (s\<lparr>modules := bt_insert i \<lparr>mod_id = i, mod_target_name = target_name,
        mod_host_name = host_name, mod_symbols_loaded = symbols_loaded\<rparr> (modules s)\<rparr>, True)"
| "reduce s (LibraryUnloaded i) =
     (s\<lparr>modules := bt_remove i (modules s)\<rparr>, bt_get (modules s) i \<noteq> None)"
| "reduce s MemoryChanged = (s\<lparr>snapshot := None\<rparr>, True)"
| "reduce s (RegisterChanged _) = (s\<lparr>snapshot := None\<rparr>, True)"
| "reduce s (ControllerChanged _) = (s, True)"
| "reduce s (EvidenceGap reason) = reduce_evidence_gap s reason"
| "reduce s (SignalPolicyChanged signal policy) =
     (s\<lparr>signal_policies := bt_insert signal policy (signal_policies s)\<rparr>, True)"
| "reduce s (SnapshotStarted stop) = reduce_snapshot_started s stop"
| "reduce s (SnapshotReady stop snapshot_id partial) =
     reduce_snapshot_ready s stop snapshot_id partial"
| "reduce s (SnapshotFailed stop) = reduce_snapshot_failed s stop"
| "reduce s (CommandOutcomeUnknown token) = reduce_outcome_unknown s token"
| "reduce s (CommandOutcomeResolved token) = reduce_outcome_resolved s token"
| "reduce s (DomainEvent.ConsistencyDirty reason) = reduce_dirty s reason"
| "reduce s ConsistencyReconciling = reduce_reconciling s"
| "reduce s (ConsistencyTainted reason) = reduce_tainted s reason"
| "reduce s (ConsistencyRestored warnings) = reduce_restored s warnings"
| "reduce s (DomainEvent.ConsistencyLost reason) = reduce_lost s reason"
| "reduce s DomainEvent.TargetDisconnected =
     (clear_stop_context (set_all_status InferiorStatus.Disconnected s), True)"
| "reduce s TargetDetached =
     (clear_stop_context (set_all_status InferiorStatus.Detached s), True)"
| "reduce s (CoreOpened backend_id) = reduce_core_opened s backend_id"
| "reduce s (TargetConfigured origin) = (s\<lparr>target_origin := origin\<rparr>, True)"
| "reduce s (UnknownBackendEvent cls) =
     reduce_tainted s (''unknown backend event: '' @ cls)"
| "reduce s (UnknownBackendNotification cls) =
     reduce_dirty s (''unknown backend notification: '' @ cls)"
| "reduce s (Output _ _) = (s, False)"
| "reduce s (OutputAdvanced _ _ _ _) = (s, False)"

definition bump_revision :: "SessionState \<times> bool \<Rightarrow> SessionState \<times> bool" where
  "bump_revision r = (if snd r then ((fst r)\<lparr>revision := revision (fst r) + 1\<rparr>, True) else r)"

definition fail_closed :: "SessionState \<Rightarrow> SessionState \<times> bool" where
  "fail_closed s = bump_revision (fail_backend s)"

definition apply_event :: "SessionState \<Rightarrow> nat \<Rightarrow> DomainEvent \<Rightarrow> (SessionState \<times> bool) result" where
  "apply_event s sequence event =
     (if sequence \<le> event_seq s then
        Err (new_error InvalidState
          (''event sequence '' @ show_nat sequence @ '' is not greater than '' @
           show_nat (event_seq s)))
      else Ok (bump_revision (reduce (s\<lparr>event_seq := sequence\<rparr>) event)))"

end
