(* ===== verification/Reducer_Registry.thy ===== *)
theory Reducer_Registry
  imports Reducer
begin

text \<open>
  How events change the registry of inferiors and threads.  \<open>registry_step\<close> says what one event
  numbered \<open>n\<close> may do: keep an entry with its generation and thread handles, drop it, or make at
  most one new inferior generation and at most one new thread handle, both stamped \<open>n\<close>.  Every
  branch of the reducer is such a step, from which well-formedness of the registry, uniqueness of
  the public handles and their freshness follow.
\<close>

section \<open>Well-formed registries\<close>

definition inferior_wf :: "SessionId \<Rightarrow> nat \<Rightarrow> string \<Rightarrow> InferiorState \<Rightarrow> bool" where
  "inferior_wf ses n b i \<longleftrightarrow>
     inf_backend_id i = b \<and> inf_generation i \<le> n \<and>
     inf_id i = inferior_from_backend ses (inf_generation i) b \<and> bt_wf (inf_threads i) \<and>
     (\<forall>t th. bt_get (inf_threads i) t = Some th \<longrightarrow>
        thr_backend_id th = t \<and> (\<exists>g \<le> n. thr_id th = thread_from_backend (inf_id i) g t))"

definition registry_wf :: "SessionId \<Rightarrow> nat \<Rightarrow> (string, InferiorState) btree \<Rightarrow> bool" where
  "registry_wf ses n m \<longleftrightarrow>
     bt_wf m \<and> (\<forall>b i. bt_get m b = Some i \<longrightarrow> inferior_wf ses n b i) \<and>
     (\<forall>b b' i i'. bt_get m b = Some i \<longrightarrow> bt_get m b' = Some i' \<longrightarrow>
        inf_generation i = inf_generation i' \<longrightarrow> b = b')"

text \<open>No two threads of the session share a handle.\<close>

definition thread_handles_unique :: "(string, InferiorState) btree \<Rightarrow> bool" where
  "thread_handles_unique m \<longleftrightarrow>
     (\<forall>b b' i i' t t' th th'.
        bt_get m b = Some i \<longrightarrow> bt_get (inf_threads i) t = Some th \<longrightarrow>
        bt_get m b' = Some i' \<longrightarrow> bt_get (inf_threads i') t' = Some th' \<longrightarrow>
        thr_id th = thr_id th' \<longrightarrow> b = b' \<and> t = t')"

section \<open>One step\<close>

definition thread_kept :: "InferiorState option \<Rightarrow> InferiorState \<Rightarrow> string \<Rightarrow> ThreadState \<Rightarrow> bool" where
  "thread_kept io i' t th' \<longleftrightarrow>
     (\<exists>i th. io = Some i \<and> inf_generation i = inf_generation i' \<and>
        bt_get (inf_threads i) t = Some th \<and> thr_id th = thr_id th' \<and>
        thr_backend_id th = thr_backend_id th')"

definition inferior_step ::
  "SessionId \<Rightarrow> nat \<Rightarrow> string \<Rightarrow> bool \<Rightarrow> string \<Rightarrow> InferiorState option \<Rightarrow> InferiorState \<Rightarrow> bool" where
  "inferior_step ses n t0 new b io i' \<longleftrightarrow>
     inf_backend_id i' = b \<and> inf_id i' = inferior_from_backend ses (inf_generation i') b \<and>
     bt_wf (inf_threads i') \<and>
     ((\<exists>i. io = Some i \<and> inf_generation i = inf_generation i') \<or> new \<and> inf_generation i' = n) \<and>
     (\<forall>t th'. bt_get (inf_threads i') t = Some th' \<longrightarrow>
        thread_kept io i' t th' \<or>
        new \<and> t = t0 \<and> thr_backend_id th' = t \<and> thr_id th' = thread_from_backend (inf_id i') n t)"

definition registry_step ::
  "SessionId \<Rightarrow> nat \<Rightarrow> string \<Rightarrow> string \<Rightarrow> (string, InferiorState) btree \<Rightarrow>
   (string, InferiorState) btree \<Rightarrow> bool" where
  "registry_step ses n b0 t0 m m' \<longleftrightarrow>
     bt_wf m' \<and>
     (\<forall>b i'. bt_get m' b = Some i' \<longrightarrow> inferior_step ses n t0 (b = b0) b (bt_get m b) i')"

text \<open>What an update of an inferior has to keep for its entry to be a step.\<close>

definition keeps_handles :: "InferiorState \<Rightarrow> InferiorState \<Rightarrow> bool" where
  "keeps_handles i i' \<longleftrightarrow>
     inf_backend_id i' = inf_backend_id i \<and> inf_id i' = inf_id i \<and>
     inf_generation i' = inf_generation i \<and> (bt_wf (inf_threads i) \<longrightarrow> bt_wf (inf_threads i')) \<and>
     (\<forall>t th'. bt_wf (inf_threads i) \<longrightarrow> bt_get (inf_threads i') t = Some th' \<longrightarrow>
        (\<exists>th. bt_get (inf_threads i) t = Some th \<and> thr_id th = thr_id th' \<and>
              thr_backend_id th = thr_backend_id th'))"

lemma keeps_handles_step:
  assumes "inferior_wf ses k b i" and "keeps_handles i i'"
  shows "inferior_step ses n t0 new b (Some i) i'"
  using assms unfolding inferior_wf_def keeps_handles_def inferior_step_def thread_kept_def
  by fastforce

lemma keeps_handles_refl [simp]: "keeps_handles i i"
  by (simp add: keeps_handles_def)

lemma registry_step_map:
  assumes "registry_wf ses k m" and "\<And>b i. keeps_handles i (f b i)"
  shows "registry_step ses n b0 t0 m (bt_map f m)"
  using assms by (auto simp: registry_step_def registry_wf_def intro!: keeps_handles_step [where k = k])

lemma registry_step_refl: "registry_wf ses k m \<Longrightarrow> registry_step ses n b0 t0 m m"
  by (auto simp: registry_step_def registry_wf_def intro!: keeps_handles_step [where k = k])

lemma registry_step_update:
  assumes "registry_wf ses k m" and "\<And>i. keeps_handles i (f i)"
  shows "registry_step ses n b0 t0 m (bt_update b f m)"
  unfolding bt_update_def using assms by (intro registry_step_map) auto

lemma registry_step_remove:
  "registry_wf ses k m \<Longrightarrow> registry_step ses n b0 t0 m (bt_remove b m)"
  by (auto simp: registry_step_def registry_wf_def intro!: keeps_handles_step [where k = k] split: if_splits)

text \<open>The entry \<open>b0\<close> may get a new generation or a new thread.\<close>

lemma registry_step_put:
  assumes "registry_wf ses k m" and "inferior_step ses n t0 True b0 (bt_get m b0) i"
  shows "registry_step ses n b0 t0 m (bt_insert b0 i m)"
  using assms by (auto simp: registry_step_def registry_wf_def intro!: keeps_handles_step [where k = k])

lemma new_inferior_step: "inferior_step ses n t0 True b io (new_inferior ses n b)"
  by (simp add: inferior_step_def new_inferior_def)

lemma registry_step_entry:
  assumes "registry_wf ses k m"
  shows "registry_step ses n b t0 m (bt_entry b (new_inferior ses n b) m)"
  unfolding bt_entry_def
  using registry_step_refl [OF assms] registry_step_put [OF assms new_inferior_step]
  by (simp split: option.split)

lemma inferior_step_trans:
  assumes "inferior_step ses n t0 new b (Some i') i''" and "inferior_step ses n t0 new b io i'"
  shows "inferior_step ses n t0 new b io i''"
proof -
  have "inf_id i'' = inf_id i'" if "inf_generation i'' = inf_generation i'"
    using assms that by (simp add: inferior_step_def)
  then have "thread_kept io i'' t th \<or>
      new \<and> t = t0 \<and> thr_backend_id th = t \<and> thr_id th = thread_from_backend (inf_id i'') n t"
    if th: "bt_get (inf_threads i'') t = Some th" for t th
    using assms th unfolding inferior_step_def thread_kept_def by fastforce
  with assms show ?thesis unfolding inferior_step_def by auto
qed

lemma registry_step_trans:
  assumes "registry_step ses n b0 t0 m m'" and "registry_step ses n b0 t0 m' m''"
  shows "registry_step ses n b0 t0 m m''"
  unfolding registry_step_def
proof (intro conjI allI impI)
  show "bt_wf m''" using assms(2) by (simp add: registry_step_def)
  fix b i''
  assume i'': "bt_get m'' b = Some i''"
  then have s: "inferior_step ses n t0 (b = b0) b (bt_get m' b) i''"
    using assms(2) by (simp add: registry_step_def)
  show "inferior_step ses n t0 (b = b0) b (bt_get m b) i''"
  proof (cases "bt_get m' b")
    case None
    with s show ?thesis by (auto simp: inferior_step_def thread_kept_def)
  next
    case (Some i')
    then have "inferior_step ses n t0 (b = b0) b (bt_get m b) i'"
      using assms(1) by (simp add: registry_step_def)
    with s Some show ?thesis by (auto intro: inferior_step_trans)
  qed
qed

section \<open>What steps preserve\<close>

lemma inferior_step_wf:
  assumes "k < n" and "inferior_step ses n t0 new b io i'"
    and "\<And>i. io = Some i \<Longrightarrow> inferior_wf ses k b i"
  shows "inferior_wf ses n b i'"
proof -
  have "thr_backend_id th = t \<and> (\<exists>g \<le> n. thr_id th = thread_from_backend (inf_id i') g t)"
    if th: "bt_get (inf_threads i') t = Some th" for t th
  proof (cases "thread_kept io i' t th")
    case True
    then obtain i th0 where i: "io = Some i" "inf_generation i = inf_generation i'"
        "bt_get (inf_threads i) t = Some th0" "thr_id th0 = thr_id th"
        "thr_backend_id th0 = thr_backend_id th"
      by (auto simp: thread_kept_def)
    then have "inferior_wf ses k b i" using assms(3) by simp
    then have wf: "inf_id i = inferior_from_backend ses (inf_generation i) b"
        "thr_backend_id th0 = t" "\<exists>g \<le> k. thr_id th0 = thread_from_backend (inf_id i) g t"
      using i(3) unfolding inferior_wf_def by blast+
    have "inf_id i = inf_id i'"
      using assms(2) i(2) wf(1) by (simp add: inferior_step_def)
    with i wf assms(1) show ?thesis by (metis less_imp_le_nat order_trans)
  next
    case False
    with assms(2) th show ?thesis unfolding inferior_step_def by blast
  qed
  moreover have "inf_generation i' \<le> n"
    using assms unfolding inferior_step_def inferior_wf_def by fastforce
  ultimately show ?thesis
    using assms(2) by (simp add: inferior_step_def inferior_wf_def)
qed

lemma registry_step_wf:
  assumes "k < n" and wf: "registry_wf ses k m" and st: "registry_step ses n b0 t0 m m'"
  shows "registry_wf ses n m'"
proof -
  have one: "inferior_wf ses n b i" if "bt_get m' b = Some i" for b i
    using inferior_step_wf [OF assms(1), of ses t0 "b = b0" b "bt_get m b" i] that wf st
    by (simp add: registry_wf_def registry_step_def)
  have gen: "(\<exists>j. bt_get m b = Some j \<and> inf_generation j = inf_generation i) \<or>
      b = b0 \<and> inf_generation i = n" if "bt_get m' b = Some i" for b i
    using that st by (auto simp: registry_step_def inferior_step_def)
  have old: "inf_generation j < n" if "bt_get m b = Some j" for b j
    using that wf assms(1) by (fastforce simp: registry_wf_def inferior_wf_def)
  have "b = b'" if "bt_get m' b = Some i" "bt_get m' b' = Some i'"
      "inf_generation i = inf_generation i'" for b b' i i'
    using gen [OF that(1)] gen [OF that(2)] that(3) old wf
    unfolding registry_wf_def by (metis less_irrefl)
  with one st show ?thesis by (auto simp: registry_wf_def registry_step_def)
qed

lemma registry_wf_mono: "registry_wf ses k m \<Longrightarrow> k \<le> n \<Longrightarrow> registry_wf ses n m"
  unfolding registry_wf_def inferior_wf_def by (meson order_trans)

lemma registry_step_threads_unique:
  assumes "uses_compact_handles ses" "k < n" and wf: "registry_wf ses k m"
    and uniq: "thread_handles_unique m" and st: "registry_step ses n b0 t0 m m'"
  shows "thread_handles_unique m'"
proof -
  have wf': "registry_wf ses n m'" using registry_step_wf assms by blast
  have origin: "(\<exists>j th0. bt_get m b = Some j \<and> bt_get (inf_threads j) t = Some th0 \<and>
        thr_id th0 = thr_id th) \<or>
      b = b0 \<and> t = t0 \<and> thr_id th = thread_from_backend (inf_id i) n t"
    if "bt_get m' b = Some i" "bt_get (inf_threads i) t = Some th" for b i t th
    using that st unfolding registry_step_def inferior_step_def thread_kept_def by blast
  have older: "thr_id th0 \<noteq> thread_from_backend (inf_id i) n t'"
    if old: "bt_get m b = Some j" "bt_get (inf_threads j) t = Some th0"
      and new: "bt_get m' b' = Some i" for b j t th0 b' i t'
  proof -
    obtain g where g: "g \<le> k" "thr_id th0 = thread_from_backend (inf_id j) g t"
        "inf_id j = inferior_from_backend ses (inf_generation j) b"
      using old wf unfolding registry_wf_def inferior_wf_def by blast
    moreover have "inf_id i = inferior_from_backend ses (inf_generation i) b'"
      using new wf' unfolding registry_wf_def inferior_wf_def by blast
    ultimately show ?thesis
      using thread_generation_inj [OF assms(1)] assms(2) by (metis linorder_not_less)
  qed
  show ?thesis
    unfolding thread_handles_unique_def
  proof (intro allI impI)
    fix b b' i i' t t' th th'
    assume a: "bt_get m' b = Some i" "bt_get (inf_threads i) t = Some th"
      "bt_get m' b' = Some i'" "bt_get (inf_threads i') t' = Some th'" "thr_id th = thr_id th'"
    show "b = b' \<and> t = t'"
      using origin [OF a(1,2)] origin [OF a(3,4)] a older uniq
      unfolding thread_handles_unique_def by metis
  qed
qed

section \<open>Every branch is a step\<close>

lemma keeps_handles_simps [simp]:
  "keeps_handles i (run_inferior i)"
  "keeps_handles i (stop_inferior i)"
  "keeps_handles i (exit_thread t i)"
  "keeps_handles i (i\<lparr>inf_status := st\<rparr>)"
  "keeps_handles i (i\<lparr>inf_status := st, inf_exit_code := c\<rparr>)"
  by (auto simp: keeps_handles_def run_inferior_def stop_inferior_def exit_thread_def
      split: if_splits)

lemma registry_step_update_new:
  assumes "registry_wf ses k m"
    and "\<And>i. bt_get m b = Some i \<Longrightarrow> inferior_wf ses k b i \<Longrightarrow> inferior_step ses n t0 True b (Some i) (f i)"
  shows "registry_step ses n b t0 m (bt_update b f m)"
  using assms
  by (auto simp: registry_step_def registry_wf_def intro!: keeps_handles_step [where k = k])

lemma thread_insert_step:
  assumes "inferior_wf ses k b i" and "thr_backend_id th = t"
    and "thr_id th = stopped_thread_handle i n t"
  shows "inferior_step ses n t True b (Some i) (i\<lparr>inf_threads := bt_insert t th (inf_threads i)\<rparr>)"
  using assms
  by (auto simp: inferior_step_def inferior_wf_def thread_kept_def stopped_thread_handle_def
      split: option.splits)

lemma add_inferior_step:
  assumes "inferior_wf ses k b i"
  shows "inferior_step ses n t0 True b (Some i) (add_inferior ses n b pid i)"
proof -
  have new: "inferior_step ses n t0 True b (Some i) (j\<lparr>inf_pid := p, inf_status := st\<rparr>)"
    if "j = i \<or> j = new_inferior ses n b" for j p st
    using that assms
    by (auto simp: inferior_step_def inferior_wf_def thread_kept_def new_inferior_def)
  define j where "j = (if pid \<noteq> None \<and> (inf_pid i \<noteq> pid \<or> is_terminal (inf_status i))
      then new_inferior ses n b else i)"
  have "add_inferior ses n b pid i = j\<lparr>inf_pid := pid, inf_status :=
      if pid \<noteq> None \<and> inf_status j = InferiorStatus.Empty then InferiorStatus.Connecting
      else inf_status j\<rparr>"
    unfolding add_inferior_def Let_def j_def [symmetric] by (cases j) simp
  moreover have "j = i \<or> j = new_inferior ses n b" by (simp add: j_def)
  ultimately show ?thesis using new by metis
qed

lemma create_thread_step:
  assumes "inferior_wf ses k b i"
  shows "inferior_step ses n t True b (Some i) (fst (create_thread n t i))"
proof (cases "bt_get (inf_threads i) t")
  case None
  then show ?thesis
    using thread_insert_step [OF assms, of _ t n]
    by (simp add: create_thread_def Let_def stopped_thread_handle_def)
next
  case (Some th)
  then show ?thesis
    by (auto simp: create_thread_def Let_def keeps_handles_def
        intro!: keeps_handles_step [OF assms])
qed

lemma exit_first_thread_update:
  assumes "bt_wf m"
  shows "fst (exit_first_thread t m) = m \<or>
    (\<exists>b. fst (exit_first_thread t m) = bt_update b (exit_thread t) m)"
  using assms
proof (induction t m rule: exit_first_thread.induct)
  case (2 t b i m)
  have other: "bt_update b (exit_thread t) m = m"
    using "2.prems" by (force simp: bt_update_def bt_map_def bt_wf_def intro!: map_idI)
  show ?case
  proof (cases "has_thread t i")
    case True
    then have "fst (exit_first_thread t ((b, i) # m)) = bt_update b (exit_thread t) ((b, i) # m)"
      using other by (simp add: bt_update_def bt_map_def)
    then show ?thesis by blast
  next
    case False
    have "bt_wf m" using "2.prems" by (simp add: bt_wf_def)
    then consider "fst (exit_first_thread t m) = m"
      | c where "fst (exit_first_thread t m) = bt_update c (exit_thread t) m" "bt_get m c \<noteq> None"
      | c where "fst (exit_first_thread t m) = bt_update c (exit_thread t) m" "bt_get m c = None"
      using "2.IH" [OF False] by blast
    then show ?thesis
    proof cases
      case (2 c)
      then have "c \<noteq> b" using "2.prems" by (auto simp: bt_wf_def bt_get_None_iff)
      with 2 False have "fst (exit_first_thread t ((b, i) # m)) = bt_update c (exit_thread t) ((b, i) # m)"
        by (simp add: case_prod_beta bt_update_def bt_map_def)
      then show ?thesis by blast
    next
      case (3 c)
      then have "fst (exit_first_thread t m) = m"
        by (force simp: bt_update_def bt_map_def bt_get_None_iff intro!: map_idI)
      with False show ?thesis by (simp add: case_prod_beta)
    qed (use False in \<open>simp add: case_prod_beta\<close>)
  qed
qed simp

lemma registry_step_ensure:
  assumes "registry_wf ses k m" "k < n"
    and "\<And>m1. registry_wf ses n m1 \<Longrightarrow> registry_step ses n b t0 m1 (g m1)"
  shows "registry_step ses n b t0 m (g (bt_entry b (new_inferior ses n b) m))"
proof -
  note entry = registry_step_entry [OF assms(1), of n b t0]
  from entry assms(3) [OF registry_step_wf [OF assms(2,1) entry]]
  show ?thesis by (rule registry_step_trans)
qed

lemma clear_stop_context_inferiors [simp]: "inferiors (clear_stop_context s) = inferiors s"
  by (simp add: clear_stop_context_def)

text \<open>The state on which \<open>reduce\<close> runs: the event number is already set, the registry is that of
  an earlier number.\<close>

definition numbered :: "SessionId \<Rightarrow> nat \<Rightarrow> nat \<Rightarrow> SessionState \<Rightarrow> bool" where
  "numbered ses k n s \<longleftrightarrow>
     registry_wf ses k (inferiors s) \<and> k < n \<and> event_seq s = n \<and> session_id s = ses"

lemma numberedD:
  assumes "numbered ses k n s"
  shows "registry_wf ses k (inferiors s)" "k < n" "event_seq s = n" "session_id s = ses"
  using assms by (simp_all add: numbered_def)

lemma fail_backend_registry:
  assumes "numbered ses k n s"
  shows "registry_step ses n b0 t0 (inferiors s) (inferiors (fst (fail_backend s)))"
  using registry_step_map [OF numberedD(1) [OF assms]] by (simp add: fail_backend_def Let_def)

lemma inferior_added_registry:
  assumes "numbered ses k n s"
  shows "registry_step ses n b t0 (inferiors s) (inferiors (fst (reduce_inferior_added s b pid)))"
proof -
  have "registry_step ses n b t0 (inferiors s)
      (bt_update b (add_inferior ses n b pid) (bt_entry b (new_inferior ses n b) (inferiors s)))"
    using numberedD(1,2) [OF assms]
    by (rule registry_step_ensure) (blast intro: registry_step_update_new add_inferior_step)
  then show ?thesis
    by (cases pid)
      (simp_all add: reduce_inferior_added_def ensure_inferior_def Let_def numberedD [OF assms])
qed

lemma inferior_removed_registry:
  assumes "numbered ses k n s"
  shows "registry_step ses n b0 t0 (inferiors s) (inferiors (fst (reduce_inferior_removed s b)))"
  using registry_step_remove [OF numberedD(1) [OF assms]]
    registry_step_refl [OF numberedD(1) [OF assms]]
  by (simp add: reduce_inferior_removed_def Let_def split: option.split)

lemma ensure_update_registry:
  assumes "numbered ses k n s" and "\<And>i. keeps_handles i (f i)"
  shows "registry_step ses n b t0 (inferiors s)
    (bt_update b f (bt_entry b (new_inferior ses n b) (inferiors s)))"
  by (rule registry_step_ensure [OF numberedD(1,2) [OF assms(1)]])
    (rule registry_step_update [OF _ assms(2)])

lemma inferior_exited_registry:
  assumes "numbered ses k n s"
  shows "\<exists>b0. registry_step ses n b0 t0 (inferiors s)
     (inferiors (fst (reduce_inferior_exited s bo exit_code from_stop)))"
proof (cases "attributed_inferior s bo")
  case None
  then show ?thesis
    using registry_step_refl [OF numberedD(1) [OF assms]] by (auto simp: reduce_inferior_exited_def)
next
  case (Some b)
  with ensure_update_registry [OF assms] show ?thesis
    by (auto simp: reduce_inferior_exited_def ensure_inferior_def Let_def numberedD [OF assms]
        intro!: exI [of _ b])
qed

lemma ensure_map_registry:
  assumes "numbered ses k n s" and "\<And>b i. keeps_handles i (f b i)"
  shows "registry_step ses n b t0 (inferiors s)
    (bt_map f (bt_entry b (new_inferior ses n b) (inferiors s)))"
  by (rule registry_step_ensure [OF numberedD(1,2) [OF assms(1)]])
    (rule registry_step_map [OF _ assms(2)])

lemma target_running_registry:
  assumes "numbered ses k n s"
  shows "\<exists>b0. registry_step ses n b0 t0 (inferiors s) (inferiors (fst (reduce_target_running s bs)))"
proof -
  define f where "f = (\<lambda>b i. if bs = [] \<or> b \<in> set bs then run_inferior i else i)"
  define b where "b = (case bs of [] \<Rightarrow> ''i1'' | b # _ \<Rightarrow> b)"
  have f: "keeps_handles i (f b i)" for b i by (simp add: f_def)
  have "inferiors (fst (reduce_target_running s bs)) =
      bt_map f (if inferiors s = [] then bt_entry b (new_inferior ses n b) (inferiors s)
                else inferiors s)"
    by (simp add: reduce_target_running_def ensure_inferior_def Let_def numberedD [OF assms]
        f_def b_def)
  then show ?thesis
    using ensure_map_registry [OF assms, of f b t0] f
      registry_step_map [OF numberedD(1) [OF assms], of f n b t0]
    by (cases "inferiors s = []") auto
qed

lemma target_stopped_registry:
  assumes "numbered ses k n s"
  shows "\<exists>b0 t0. registry_step ses n b0 t0 (inferiors s)
     (inferiors (fst (reduce_target_stopped s bo to reason detail frame)))"
proof -
  define b where "b = stop_owner s bo to"
  define m where "m = bt_map (\<lambda>_. stop_inferior) (bt_entry b (new_inferior ses n b) (inferiors s))"
  have one: "registry_step ses n b t (inferiors s) m" for t
    unfolding m_def by (rule ensure_map_registry [OF assms]) simp
  have "registry_step ses n b t (inferiors s) (bt_update b (stop_thread n t frame) m)" for t
  proof (rule registry_step_trans [OF one])
    show "registry_step ses n b t m (bt_update b (stop_thread n t frame) m)"
      using registry_step_wf [OF numberedD(2,1) [OF assms] one] thread_insert_step
      by (intro registry_step_update_new) (auto simp: stop_thread_def)
  qed
  moreover have "inferiors (fst (reduce_target_stopped s bo to reason detail frame)) =
      (case to of None \<Rightarrow> m | Some t \<Rightarrow> bt_update b (stop_thread n t frame) m)"
    by (simp add: reduce_target_stopped_def ensure_inferior_def Let_def numberedD [OF assms]
        b_def m_def split: option.split)
  ultimately show ?thesis using one by (auto split: option.split)
qed

lemma thread_created_registry:
  assumes "numbered ses k n s"
  shows "registry_step ses n b t (inferiors s) (inferiors (fst (reduce_thread_created s b t)))"
proof -
  have "registry_step ses n b t (inferiors s)
      (bt_update b (\<lambda>i. fst (create_thread n t i)) (bt_entry b (new_inferior ses n b) (inferiors s)))"
    using numberedD(1,2) [OF assms]
    by (rule registry_step_ensure) (blast intro: registry_step_update_new create_thread_step)
  then show ?thesis
    by (simp add: reduce_thread_created_def ensure_inferior_def Let_def numberedD [OF assms])
qed

lemma thread_exited_registry:
  assumes "numbered ses k n s"
  shows "registry_step ses n b0 t0 (inferiors s) (inferiors (fst (reduce_thread_exited s bo t)))"
proof (cases bo)
  case None
  note wf = numberedD(1) [OF assms]
  then have "bt_wf (inferiors s)" by (simp add: registry_wf_def)
  from exit_first_thread_update [OF this, of t] None show ?thesis
    using registry_step_refl [OF wf] registry_step_update [OF wf, of "exit_thread t"]
    by (auto simp: reduce_thread_exited_def case_prod_beta)
next
  case (Some b)
  then show ?thesis
    using registry_step_update [OF numberedD(1) [OF assms]] by (simp add: reduce_thread_exited_def)
qed

lemma core_opened_registry:
  assumes "numbered ses k n s"
  shows "registry_step ses n b t0 (inferiors s) (inferiors (fst (reduce_core_opened s b)))"
  using ensure_update_registry [OF assms, of "\<lambda>i. i\<lparr>inf_status := InferiorStatus.Core\<rparr>" b t0]
  by (simp add: reduce_core_opened_def ensure_inferior_def Let_def numberedD [OF assms])

text \<open>The other branches leave the inferiors alone.\<close>

named_theorems branch_defs \<open>definitions of the branches of the reducer\<close>

declare reduce_breakpoint_upsert_def [branch_defs] reduce_breakpoint_rebound_def [branch_defs]
  reduce_breakpoint_locations_def [branch_defs] reduce_snapshot_started_def [branch_defs]
  reduce_snapshot_ready_def [branch_defs] reduce_snapshot_failed_def [branch_defs]
  reduce_evidence_gap_def [branch_defs] reduce_outcome_unknown_def [branch_defs]
  reduce_outcome_resolved_def [branch_defs] reduce_dirty_def [branch_defs]
  reduce_reconciling_def [branch_defs] reduce_tainted_def [branch_defs]
  reduce_restored_def [branch_defs] reduce_lost_def [branch_defs] mark_dirty_def [branch_defs]

definition registry_event :: "DomainEvent \<Rightarrow> bool" where
  "registry_event e = (case e of
       BackendExited _ \<Rightarrow> True | InferiorAdded _ _ \<Rightarrow> True | InferiorRemoved _ \<Rightarrow> True
     | InferiorExited _ _ _ \<Rightarrow> True | DomainEvent.TargetRunning _ \<Rightarrow> True
     | DomainEvent.TargetStopped _ _ _ _ _ \<Rightarrow> True | ThreadCreated _ _ \<Rightarrow> True
     | ThreadExited _ _ \<Rightarrow> True | DomainEvent.TargetDisconnected \<Rightarrow> True | TargetDetached \<Rightarrow> True
     | CoreOpened _ \<Rightarrow> True | _ \<Rightarrow> False)"

lemma reduce_inferiors_unchanged:
  "\<not> registry_event e \<Longrightarrow> inferiors (fst (reduce s e)) = inferiors s"
  by (cases e) (auto simp: registry_event_def branch_defs Let_def split: option.splits)

lemma reduce_registry_step:
  assumes "numbered ses k n s"
  shows "\<exists>b0 t0. registry_step ses n b0 t0 (inferiors s) (inferiors (fst (reduce s e)))"
proof (cases "registry_event e")
  case False
  then show ?thesis
    using registry_step_refl [OF numberedD(1) [OF assms]] by (auto simp: reduce_inferiors_unchanged)
next
  case True
  have all: "registry_step ses n b0 t0 (inferiors s) (inferiors (set_all_status st s))" for st b0 t0
    using registry_step_map [OF numberedD(1) [OF assms]] by (simp add: set_all_status_def)
  show ?thesis
  proof (cases e)
    case (BackendExited status)
    then show ?thesis by simp (blast intro: fail_backend_registry [OF assms])
  next
    case (InferiorAdded b pid)
    then show ?thesis by simp (blast intro: inferior_added_registry [OF assms])
  next
    case (InferiorRemoved b)
    then show ?thesis by simp (blast intro: inferior_removed_registry [OF assms])
  next
    case (InferiorExited b code from_stop)
    then show ?thesis
      using inferior_exited_registry [OF assms, of "[]" b code from_stop] by auto
  next
    case (TargetRunning bs)
    then show ?thesis
      using target_running_registry [OF assms, of "[]" bs] by auto
  next
    case (TargetStopped bo to reason detail frame)
    then show ?thesis by simp (blast intro: target_stopped_registry [OF assms])
  next
    case (ThreadCreated b t)
    then show ?thesis by simp (blast intro: thread_created_registry [OF assms])
  next
    case (ThreadExited b t)
    then show ?thesis by simp (blast intro: thread_exited_registry [OF assms])
  next
    case (CoreOpened b)
    then show ?thesis by simp (blast intro: core_opened_registry [OF assms])
  next
    case TargetDisconnected
    then show ?thesis by simp (blast intro: all)
  next
    case TargetDetached
    then show ?thesis by simp (blast intro: all)
  qed (use True in \<open>simp_all add: registry_event_def\<close>)
qed

end
