(* ===== verification/Reducer_Inv.thy ===== *)
theory Reducer_Inv
  imports Reducer_Registry
begin

text \<open>
  The invariant of the session state, the transition relation of the reducer and the properties
  that need only one state or one event: what the invariant says of every reachable state, what a
  revision stands for, and what each kind of event does.
\<close>

section \<open>The invariant\<close>

text \<open>A stop context is complete or absent, and its snapshot is of the current stop.\<close>

definition stop_wf :: "SessionState \<Rightarrow> bool" where
  "stop_wf s \<longleftrightarrow> (case stop_id s of
       None \<Rightarrow> stop_reason s = None \<and> stop_reason_detail s = None \<and>
         stopped_inferior_id s = None \<and> stopped_thread_id s = None \<and> snapshot s = None
     | Some x \<Rightarrow> (\<exists>k \<le> event_seq s. x = stop_from_event (session_id s) k) \<and>
         stop_reason s \<noteq> None \<and> stop_reason_detail s \<noteq> None \<and> stopped_inferior_id s \<noteq> None \<and>
         (\<forall>sn. snapshot s = Some sn \<longrightarrow> snap_stop_id sn = x))"

definition limitations_ok :: "string list \<Rightarrow> bool" where
  "limitations_ok ls \<longleftrightarrow>
     length ls \<le> max_limitations \<or>
     length ls = max_limitations + 1 \<and> limitations_omitted \<in> set ls"

text \<open>The threads of a running inferior are running and have no frame.\<close>

definition running_ok :: "InferiorState \<Rightarrow> bool" where
  "running_ok i \<longleftrightarrow> (inf_status i = InferiorStatus.Running \<longrightarrow>
     (\<forall>t th. bt_get (inf_threads i) t = Some th \<longrightarrow> thr_running th \<and> thr_frame th = None))"

definition session_wf :: "SessionState \<Rightarrow> bool" where
  "session_wf s \<longleftrightarrow>
     registry_wf (session_id s) (event_seq s) (inferiors s) \<and>
     (\<forall>b i. bt_get (inferiors s) b = Some i \<longrightarrow> running_ok i) \<and>
     stop_wf s \<and>
     bt_wf (breakpoints s) \<and>
     (\<forall>k bp. bt_get (breakpoints s) k = Some bp \<longrightarrow> bp_backend_number bp = k) \<and>
     bt_wf (modules s) \<and> (\<forall>k m. bt_get (modules s) k = Some m \<longrightarrow> mod_id m = k) \<and>
     bt_wf (signal_policies s) \<and> bt_wf (outcome_unknown_tokens s) \<and>
     limitations_ok (limitations s) \<and> execution_epoch s \<le> revision s"

lemma creating_wf: "session_wf (creating ses)"
  by (simp add: session_wf_def creating_def registry_wf_def stop_wf_def limitations_ok_def)

section \<open>Transitions\<close>

inductive reducer_step :: "SessionState \<Rightarrow> SessionState \<Rightarrow> bool" where
  event: "apply_event s n e = Ok (s', changed) \<Longrightarrow> reducer_step s s'"
| closed: "reducer_step s (fst (fail_closed s))"

lemma apply_event_Ok:
  "apply_event s n e = Ok (s', c) \<longleftrightarrow>
     event_seq s < n \<and> (s', c) = bump_revision (reduce (s\<lparr>event_seq := n\<rparr>) e)"
  by (auto simp: apply_event_def)

lemma bump_revision_sel [simp]:
  "session_id (fst (bump_revision r)) = session_id (fst r)"
  "event_seq (fst (bump_revision r)) = event_seq (fst r)"
  "inferiors (fst (bump_revision r)) = inferiors (fst r)"
  "breakpoints (fst (bump_revision r)) = breakpoints (fst r)"
  "modules (fst (bump_revision r)) = modules (fst r)"
  "signal_policies (fst (bump_revision r)) = signal_policies (fst r)"
  "outcome_unknown_tokens (fst (bump_revision r)) = outcome_unknown_tokens (fst r)"
  "limitations (fst (bump_revision r)) = limitations (fst r)"
  "execution_epoch (fst (bump_revision r)) = execution_epoch (fst r)"
  "consistency (fst (bump_revision r)) = consistency (fst r)"
  "stop_id (fst (bump_revision r)) = stop_id (fst r)"
  "stop_wf (fst (bump_revision r)) = stop_wf (fst r)"
  "snd (bump_revision r) = snd r"
  by (cases r; simp add: bump_revision_def stop_wf_def split: option.split)+

lemma bump_revision_revision:
  "revision (fst (bump_revision r)) = revision (fst r) + (if snd r then 1 else 0)"
  by (simp add: bump_revision_def)

lemmas registry_branch_defs =
  fail_backend_def reduce_inferior_added_def reduce_inferior_removed_def
  reduce_inferior_exited_def reduce_target_running_def reduce_target_stopped_def
  reduce_thread_created_def reduce_thread_exited_def reduce_core_opened_def
  ensure_inferior_def set_all_status_def clear_stop_context_def

text \<open>Fields no event changes; the counters each branch leaves alone.\<close>

lemma reduce_fixed [simp]:
  "session_id (fst (reduce s e)) = session_id s"
  "event_seq (fst (reduce s e)) = event_seq s"
  "revision (fst (reduce s e)) = revision s"
  by (cases e; auto simp: branch_defs registry_branch_defs Let_def split: option.splits prod.splits)+

lemma reduce_epoch:
  "execution_epoch (fst (reduce s e)) \<le> execution_epoch s + (if snd (reduce s e) then 1 else 0)"
  by (cases e)
    (auto simp: branch_defs registry_branch_defs Let_def split: option.splits prod.splits)

section \<open>Preservation\<close>

lemma push_limitation_ok: "limitations_ok ls \<Longrightarrow> limitations_ok (push_limitation ls l)"
  by (auto simp: limitations_ok_def push_limitation_def max_limitations_def)

lemma push_limitations_ok: "limitations_ok ls \<Longrightarrow> limitations_ok (push_limitations ls ws)"
  unfolding push_limitations_def by (induction ws arbitrary: ls) (simp_all add: push_limitation_ok)

lemma omitted_not_gap: "\<not> starts_with limitations_omitted evidence_gap_prefix"
  by (simp add: limitations_omitted_def evidence_gap_prefix_def)

lemma filter_gaps_ok:
  assumes "limitations_ok ls"
  shows "limitations_ok (filter (\<lambda>l. starts_with l evidence_gap_prefix) ls)"
proof (cases "limitations_omitted \<in> set ls")
  case True
  then have "length (filter (\<lambda>l. starts_with l evidence_gap_prefix) ls) < length ls"
    using omitted_not_gap by (intro length_filter_less) auto
  with assms show ?thesis by (auto simp: limitations_ok_def)
next
  case False
  with assms have "length ls \<le> max_limitations" by (auto simp: limitations_ok_def)
  then have "length (filter (\<lambda>l. starts_with l evidence_gap_prefix) ls) \<le> max_limitations"
    by (rule order_trans [OF length_filter_le])
  then show ?thesis by (simp add: limitations_ok_def)
qed

lemma reduce_limitations_ok:
  "limitations_ok (limitations s) \<Longrightarrow> limitations_ok (limitations (fst (reduce s e)))"
proof (cases e)
  case (EvidenceGap reason)
  assume "limitations_ok (limitations s)"
  with EvidenceGap show ?thesis
    by (auto simp: reduce_evidence_gap_def Let_def limitations_ok_def max_limitations_def)
qed (auto simp: branch_defs registry_branch_defs Let_def push_limitation_ok push_limitations_ok
    filter_gaps_ok split: option.splits prod.splits)

lemma stop_wf_clear [simp]: "stop_wf (clear_stop_context s)"
  by (simp add: stop_wf_def clear_stop_context_def)

lemma stop_wf_cong:
  assumes "stop_id s' = stop_id s" "stop_reason s' = stop_reason s"
    "stop_reason_detail s' = stop_reason_detail s" "stopped_inferior_id s' = stopped_inferior_id s"
    "stopped_thread_id s' = stopped_thread_id s" "snapshot s' = snapshot s"
    "event_seq s \<le> event_seq s'" "session_id s' = session_id s" "stop_wf s"
  shows "stop_wf s'"
  using assms by (fastforce simp: stop_wf_def split: option.splits intro: order_trans)

lemma stop_wf_stopped:
  "stop_wf (fst (reduce_target_stopped s bo to reason detail frame))"
  if "bt_wf (inferiors s)"
  using that
  by (auto simp: reduce_target_stopped_def stop_wf_def Let_def building_snapshot_def
      ensure_inferior_def split: option.splits)

lemma reduce_stop_wf:
  assumes "stop_wf s" "bt_wf (inferiors s)"
  shows "stop_wf (fst (reduce s e))"
proof (cases e)
  case (TargetStopped bo to reason detail frame)
  then show ?thesis using assms(2) by (simp add: stop_wf_stopped)
next
  case (SnapshotStarted stop)
  then show ?thesis
    using assms by (auto simp: branch_defs stop_wf_def building_snapshot_def split: option.splits)
next
  case (SnapshotReady stop i partial)
  then show ?thesis
    using assms by (auto simp: branch_defs stop_wf_def split: option.splits)
next
  case (SnapshotFailed stop)
  then show ?thesis
    using assms by (auto simp: branch_defs stop_wf_def split: option.splits)
next
  case MemoryChanged
  then show ?thesis using assms by (auto simp: stop_wf_def split: option.splits)
next
  case (RegisterChanged r)
  then show ?thesis using assms by (auto simp: stop_wf_def split: option.splits)
next
  case (InferiorRemoved b)
  then show ?thesis
    using assms
    by (auto simp: reduce_inferior_removed_def Let_def split: option.splits
        intro: stop_wf_cong [OF _ _ _ _ _ _ _ _ assms(1)])
next
  case (InferiorExited b code from_stop)
  then show ?thesis
    using assms
    by (auto simp: reduce_inferior_exited_def Let_def ensure_inferior_def split: option.splits
        intro: stop_wf_cong [OF _ _ _ _ _ _ _ _ assms(1)])
next
  case (ThreadExited b t)
  then show ?thesis
    using assms
    by (auto simp: reduce_thread_exited_def split: option.splits prod.splits
        intro: stop_wf_cong [OF _ _ _ _ _ _ _ _ assms(1)])
qed (use assms in \<open>auto simp: branch_defs Let_def fail_backend_def reduce_inferior_added_def
    reduce_target_running_def reduce_thread_created_def reduce_core_opened_def ensure_inferior_def
    split: option.splits intro: stop_wf_cong [OF _ _ _ _ _ _ _ _ assms(1)]\<close>)

text \<open>Running inferiors.\<close>

lemma running_ok_simps [simp]:
  "running_ok (new_inferior ses n b)"
  "running_ok (run_inferior i)"
  "st \<noteq> InferiorStatus.Running \<Longrightarrow> running_ok (i\<lparr>inf_status := st\<rparr>)"
  "running_ok (i\<lparr>inf_exit_code := c\<rparr>) = running_ok i"
  by (auto simp: running_ok_def new_inferior_def run_inferior_def)

lemma running_ok_stop: "running_ok i \<Longrightarrow> running_ok (stop_inferior i)"
  by (auto simp: running_ok_def stop_inferior_def)

lemma running_ok_stop_thread: "running_ok (stop_thread n t frame (stop_inferior i))"
  by (auto simp: running_ok_def stop_inferior_def stop_thread_def is_terminal_def)

lemma running_ok_add: "running_ok i \<Longrightarrow> running_ok (add_inferior ses n b pid i)"
  by (auto simp: running_ok_def add_inferior_def new_inferior_def Let_def)

lemma running_ok_create:
  "bt_wf (inf_threads i) \<Longrightarrow> running_ok i \<Longrightarrow> running_ok (fst (create_thread n t i))"
  by (auto simp: running_ok_def create_thread_def Let_def split: option.split)

lemma running_ok_exit_thread: "running_ok i \<Longrightarrow> running_ok (exit_thread t i)"
  by (auto simp: running_ok_def exit_thread_def)

definition running_all :: "(string, InferiorState) btree \<Rightarrow> bool" where
  "running_all m \<longleftrightarrow> (\<forall>b i. bt_get m b = Some i \<longrightarrow> running_ok i)"

lemma running_all_map: "running_all m \<Longrightarrow> (\<And>b i. running_ok i \<Longrightarrow> running_ok (f b i)) \<Longrightarrow> running_all (bt_map f m)"
  by (auto simp: running_all_def)

lemma running_all_update: "running_all m \<Longrightarrow> (\<And>i. bt_get m b = Some i \<Longrightarrow> running_ok i \<Longrightarrow> running_ok (f i)) \<Longrightarrow> running_all (bt_update b f m)"
  by (auto simp: running_all_def)

lemma running_all_entry: "bt_wf m \<Longrightarrow> running_all m \<Longrightarrow> running_all (bt_entry b (new_inferior ses n b) m)"
  by (auto simp: running_all_def split: option.splits if_splits)

lemma running_all_remove: "running_all m \<Longrightarrow> running_all (bt_remove b m)"
  by (auto simp: running_all_def split: if_splits)

lemmas running_all_intros =
  running_all_map running_all_update running_all_entry running_all_remove running_ok_add
  running_ok_exit_thread running_ok_stop

lemma stopped_running_all:
  assumes "running_all (inferiors s)" "bt_wf (inferiors s)"
  shows "running_all (inferiors (fst (reduce_target_stopped s bo to reason detail frame)))"
proof -
  define b where "b = stop_owner s bo to"
  define m where "m = bt_map (\<lambda>_. stop_inferior)
    (bt_entry b (new_inferior (session_id s) (event_seq s) b) (inferiors s))"
  have m: "running_all m"
    unfolding m_def using assms by (intro running_all_intros)
  have "running_all (bt_update b (stop_thread n t frame) m)" for n t
    using m by (rule running_all_update) (auto simp: m_def assms(2) running_ok_stop_thread)
  with m show ?thesis
    by (auto simp: reduce_target_stopped_def ensure_inferior_def Let_def b_def [symmetric]
        m_def [symmetric] split: option.split)
qed

lemma created_running_all:
  assumes "running_all (inferiors s)" "registry_wf ses k (inferiors s)"
  shows "running_all (inferiors (fst (reduce_thread_created s b t)))"
proof -
  have wf: "bt_wf (inferiors s)" using assms(2) by (simp add: registry_wf_def)
  have "bt_wf (inf_threads i)"
    if "bt_get (bt_entry b (new_inferior (session_id s) n b) (inferiors s)) b = Some i" for i n
    using that assms(2) wf
    by (auto simp: registry_wf_def inferior_wf_def new_inferior_def split: option.splits)
  then show ?thesis
    using assms(1) wf
    by (auto simp: reduce_thread_created_def ensure_inferior_def Let_def
        intro!: running_all_update running_all_entry running_ok_create)
qed

lemma reduce_running_all:
  assumes "running_all (inferiors s)" "registry_wf ses k (inferiors s)"
  shows "running_all (inferiors (fst (reduce s e)))"
proof (cases "registry_event e")
  case False
  then show ?thesis using assms(1) by (simp add: reduce_inferiors_unchanged)
next
  case True
  have wf: "bt_wf (inferiors s)" using assms(2) by (simp add: registry_wf_def)
  show ?thesis
  proof (cases e)
    case (TargetStopped bo to reason detail frame)
    then show ?thesis using stopped_running_all [OF assms(1) wf] by simp
  next
    case (ThreadCreated b t)
    then show ?thesis using created_running_all [OF assms] by simp
  next
    case (ThreadExited b t)
    then show ?thesis
      using assms(1) exit_first_thread_update [OF wf, of t]
      by (auto simp: reduce_thread_exited_def case_prod_beta
          split: option.split intro!: running_all_update running_ok_exit_thread)
  next
    case (InferiorExited b code from_stop)
    then show ?thesis
      using assms(1) wf
      by (auto simp: reduce_inferior_exited_def ensure_inferior_def Let_def
          split: option.split intro!: running_all_update running_all_entry)
  qed (use True assms(1) wf in \<open>auto simp: registry_event_def registry_branch_defs Let_def
      split: option.split intro!: running_all_intros\<close>)
qed

text \<open>The remaining registries.\<close>

lemma reduce_breakpoints_wf:
  assumes "bt_wf (breakpoints s)" "\<And>k bp. bt_get (breakpoints s) k = Some bp \<Longrightarrow> bp_backend_number bp = k"
  shows "bt_wf (breakpoints (fst (reduce s e))) \<and>
    (\<forall>k bp. bt_get (breakpoints (fst (reduce s e))) k = Some bp \<longrightarrow> bp_backend_number bp = k)"
  by (cases e) (use assms in \<open>auto simp: branch_defs registry_branch_defs Let_def
      split: option.splits prod.splits if_splits\<close>)

lemma reduce_modules_wf:
  assumes "bt_wf (modules s)" "\<And>k m. bt_get (modules s) k = Some m \<Longrightarrow> mod_id m = k"
  shows "bt_wf (modules (fst (reduce s e))) \<and>
    (\<forall>k m. bt_get (modules (fst (reduce s e))) k = Some m \<longrightarrow> mod_id m = k)"
  by (cases e) (use assms in \<open>auto simp: branch_defs registry_branch_defs Let_def
      split: option.splits prod.splits if_splits\<close>)

lemma reduce_sets_wf:
  assumes "bt_wf (signal_policies s)" "bt_wf (outcome_unknown_tokens s)"
  shows "bt_wf (signal_policies (fst (reduce s e))) \<and>
    bt_wf (outcome_unknown_tokens (fst (reduce s e)))"
  by (cases e) (use assms in \<open>auto simp: branch_defs registry_branch_defs Let_def
      split: option.splits prod.splits\<close>)

lemma fail_backend_reduce: "fail_backend s = reduce s (BackendExited None)"
  by simp

lemma reduce_wf:
  assumes wf: "session_wf s" and n: "event_seq s < n"
  shows "session_wf (fst (bump_revision (reduce (s\<lparr>event_seq := n\<rparr>) e)))"
proof -
  let ?s = "s\<lparr>event_seq := n\<rparr>"
  have reg: "registry_wf (session_id s) (event_seq s) (inferiors s)"
    using wf by (simp add: session_wf_def)
  then have num: "numbered (session_id s) (event_seq s) n ?s" using n by (simp add: numbered_def)
  obtain b0 t0 where
    "registry_step (session_id s) n b0 t0 (inferiors s) (inferiors (fst (reduce ?s e)))"
    using reduce_registry_step [OF num, of e] by auto
  from registry_step_wf [OF n reg this]
  have r1: "registry_wf (session_id s) n (inferiors (fst (reduce ?s e)))" .
  have r2: "running_all (inferiors (fst (reduce ?s e)))"
    using wf reg by (intro reduce_running_all) (auto simp: session_wf_def running_all_def)
  have "stop_wf ?s"
    using wf n by (intro stop_wf_cong [of ?s s]) (simp_all add: session_wf_def)
  then have r3: "stop_wf (fst (reduce ?s e))"
    using reg by (intro reduce_stop_wf) (simp_all add: registry_wf_def)
  have r4: "execution_epoch (fst (reduce ?s e)) \<le> revision s + (if snd (reduce ?s e) then 1 else 0)"
    using reduce_epoch [of ?s e] wf by (simp add: session_wf_def split: if_splits)
  show ?thesis
    using r1 r2 r3 r4 wf reduce_breakpoints_wf [of ?s e] reduce_modules_wf [of ?s e]
      reduce_sets_wf [of ?s e] reduce_limitations_ok [of ?s e]
    by (simp add: session_wf_def running_all_def bump_revision_revision)
qed

lemma inferior_wf_status [simp]: "inferior_wf ses n b (i\<lparr>inf_status := st\<rparr>) = inferior_wf ses n b i"
  by (simp add: inferior_wf_def)

lemma fail_closed_wf:
  assumes "session_wf s"
  shows "session_wf (fst (fail_closed s))"
proof -
  have reg: "registry_wf (session_id s) (event_seq s) (inferiors s)"
    using assms by (simp add: session_wf_def)
  have inf: "registry_wf (session_id s) (event_seq s) (inferiors (fst (fail_backend s)))"
    using reg by (auto simp: registry_wf_def fail_backend_def Let_def)
  have "running_all (inferiors (fst (fail_backend s)))"
    using reduce_running_all [of s _ _ "BackendExited None"] assms reg
    by (auto simp: session_wf_def running_all_def)
  then show ?thesis
    using assms inf reduce_breakpoints_wf [of s "BackendExited None"]
      reduce_modules_wf [of s "BackendExited None"] reduce_sets_wf [of s "BackendExited None"]
      reduce_fixed [of s "BackendExited None"] reduce_epoch [of s "BackendExited None"]
      reduce_limitations_ok [of s "BackendExited None"]
      reduce_stop_wf [of s "BackendExited None"] reg
    by (simp add: session_wf_def running_all_def fail_closed_def bump_revision_revision
        registry_wf_def [of _ _ "inferiors s"] split: if_splits)
qed

lemma reducer_step_facts:
  assumes "reducer_step s s'" "session_wf s"
  shows "session_wf s'" "session_id s' = session_id s" "event_seq s \<le> event_seq s'"
    "revision s \<le> revision s'"
proof -
  have "session_wf s' \<and> session_id s' = session_id s \<and> event_seq s \<le> event_seq s' \<and>
      revision s \<le> revision s'"
    using assms(1)
  proof (cases rule: reducer_step.cases)
    case (event n e c)
    then have "event_seq s < n" "s' = fst (bump_revision (reduce (s\<lparr>event_seq := n\<rparr>) e))"
      by (auto simp: apply_event_Ok) (metis fst_conv)
    then show ?thesis
      using reduce_wf [OF assms(2)] by (simp add: bump_revision_revision)
  next
    case closed
    then show ?thesis
      using fail_closed_wf [OF assms(2)] reduce_fixed [of s "BackendExited None"]
      by (simp add: fail_closed_def bump_revision_revision)
  qed
  then show "session_wf s'" "session_id s' = session_id s" "event_seq s \<le> event_seq s'"
    "revision s \<le> revision s'" by blast+
qed

end
