(* ===== verification/Reducer_Props.thy ===== *)
theory Reducer_Props
  imports Reducer_Inv
begin

text \<open>
  The properties of the session state machine.  The locale \<open>fresh_handles\<close> states when handles
  stamped with a clock can never be taken for each other over time; stops, inferiors and threads
  are its instances.
\<close>

section \<open>Handles over time\<close>

locale fresh_handles =
  fixes inv :: "'s \<Rightarrow> bool"
    and step :: "'s \<Rightarrow> 's \<Rightarrow> bool"
    and clock :: "'s \<Rightarrow> nat"
    and live :: "'s \<Rightarrow> 'h \<Rightarrow> bool"
    and stamped :: "'h \<Rightarrow> nat \<Rightarrow> bool"
  assumes stamp_unique: "stamped h k \<Longrightarrow> stamped h k' \<Longrightarrow> k = k'"
    and step_inv: "inv s \<Longrightarrow> step s s' \<Longrightarrow> inv s'"
    and clock_mono: "inv s \<Longrightarrow> step s s' \<Longrightarrow> clock s \<le> clock s'"
    and live_stamped: "inv s \<Longrightarrow> live s h \<Longrightarrow> \<exists>k \<le> clock s. stamped h k"
    and fresh: "inv s \<Longrightarrow> step s s' \<Longrightarrow> live s' h \<Longrightarrow> \<not> live s h \<Longrightarrow> \<exists>k. stamped h k \<and> clock s < k"
begin

lemma run_inv: "step\<^sup>*\<^sup>* s s' \<Longrightarrow> inv s \<Longrightarrow> inv s' \<and> clock s \<le> clock s'"
proof (induction rule: rtranclp_induct)
  case (step y z)
  then show ?case using step_inv clock_mono by (meson order_trans)
qed simp

lemma retired:
  assumes "step\<^sup>*\<^sup>* s s'" "inv s" "stamped h k" "k \<le> clock s" "\<not> live s h"
  shows "\<not> live s' h"
  using assms
proof (induction rule: rtranclp_induct)
  case (step y z)
  have y: "inv y" "clock s \<le> clock y" using run_inv [OF step.hyps(1)] step.prems(1) by auto
  have "\<not> live y h" using step.IH step.prems by blast
  show ?case
  proof
    assume "live z h"
    with fresh [OF y(1) step.hyps(2) _ \<open>\<not> live y h\<close>] obtain k' where "stamped h k'" "clock y < k'"
      by blast
    with stamp_unique step.prems(2,3) y(2) show False
      by (metis le_trans linorder_not_less)
  qed
qed simp

lemma never_revives:
  assumes "inv s0" "live s0 h" "step\<^sup>*\<^sup>* s0 s1" "\<not> live s1 h" "step\<^sup>*\<^sup>* s1 s2"
  shows "\<not> live s2 h"
proof -
  obtain k where "k \<le> clock s0" "stamped h k" using live_stamped [OF assms(1,2)] by blast
  moreover have "inv s1" "clock s0 \<le> clock s1" using run_inv [OF assms(3)] assms(1) by auto
  ultimately show ?thesis using retired [OF assms(5)] assms(4) by (meson order_trans)
qed

end

text \<open>The states of one session.\<close>

definition in_session :: "SessionId \<Rightarrow> SessionState \<Rightarrow> bool" where
  "in_session ses s \<longleftrightarrow> session_wf s \<and> session_id s = ses"

lemma in_session_step: "in_session ses s \<Longrightarrow> reducer_step s s' \<Longrightarrow> in_session ses s'"
  using reducer_step_facts by (simp add: in_session_def)

lemma creating_in_session: "in_session ses (creating ses)"
  using creating_wf by (simp add: in_session_def creating_def)

lemma reachable_in_session:
  "reducer_step\<^sup>*\<^sup>* (creating ses) s \<Longrightarrow> in_session ses s"
  by (induction rule: rtranclp_induct) (auto intro: creating_in_session in_session_step)

lemma in_session_registry: "in_session ses s \<Longrightarrow> registry_wf ses (event_seq s) (inferiors s)"
  by (auto simp: in_session_def session_wf_def)

section \<open>Stops\<close>

definition stop_live :: "SessionState \<Rightarrow> StopId \<Rightarrow> bool" where
  "stop_live s x \<longleftrightarrow> stop_id s = Some x"

lemma reduce_stop_id:
  "stop_id (fst (reduce s e)) \<in>
     {stop_id s, None, Some (stop_from_event (session_id s) (event_seq s))}"
  by (cases e) (auto simp: branch_defs registry_branch_defs Let_def split: option.splits prod.splits)

lemma step_stop_fresh:
  assumes "in_session ses s" "reducer_step s s'" "stop_live s' x" "\<not> stop_live s x"
  shows "\<exists>k. x = stop_from_event ses k \<and> event_seq s < k"
  using assms(2)
proof (cases rule: reducer_step.cases)
  case (event n e c)
  then have n: "event_seq s < n" and s': "s' = fst (bump_revision (reduce (s\<lparr>event_seq := n\<rparr>) e))"
    by (auto simp: apply_event_Ok) (metis fst_conv)
  then show ?thesis
    using reduce_stop_id [of "s\<lparr>event_seq := n\<rparr>" e] assms n
    by (auto simp: stop_live_def in_session_def)
next
  case closed
  then show ?thesis
    using assms by (simp add: stop_live_def fail_closed_def fail_backend_def Let_def
        clear_stop_context_def)
qed

interpretation stops: fresh_handles "in_session ses" reducer_step event_seq stop_live
  "\<lambda>x k. x = stop_from_event ses k" for ses
proof unfold_locales
  fix s s' x
  show "\<exists>k \<le> event_seq s. x = stop_from_event ses k" if "in_session ses s" "stop_live s x"
    using that by (auto simp: in_session_def session_wf_def stop_wf_def stop_live_def)
  show "\<exists>k. x = stop_from_event ses k \<and> event_seq s < k"
    if "in_session ses s" "reducer_step s s'" "stop_live s' x" "\<not> stop_live s x"
    using step_stop_fresh that by blast
qed (use in_session_step reducer_step_facts in \<open>auto simp: in_session_def\<close>)

section \<open>Inferiors and threads\<close>

definition inferior_live :: "SessionState \<Rightarrow> InferiorId \<Rightarrow> bool" where
  "inferior_live s h \<longleftrightarrow> (\<exists>b i. bt_get (inferiors s) b = Some i \<and> inf_id i = h)"

definition thread_live :: "SessionState \<Rightarrow> ThreadId \<Rightarrow> bool" where
  "thread_live s h \<longleftrightarrow>
     (\<exists>b i t th. bt_get (inferiors s) b = Some i \<and> bt_get (inf_threads i) t = Some th \<and>
        thr_id th = h)"

text \<open>A step of the reducer is a registry step, of the event's number or, for the fail-closed
  transition, one that makes nothing new.\<close>

lemma step_registry:
  assumes "in_session ses s" "reducer_step s s'"
  obtains n b0 t0 where "event_seq s < n"
    "registry_step ses n b0 t0 (inferiors s) (inferiors s')"
  using assms(2)
proof (cases rule: reducer_step.cases)
  case (event n e c)
  then have n: "event_seq s < n" and s': "s' = fst (bump_revision (reduce (s\<lparr>event_seq := n\<rparr>) e))"
    by (auto simp: apply_event_Ok) (metis fst_conv)
  have "numbered ses (event_seq s) n (s\<lparr>event_seq := n\<rparr>)"
    using in_session_registry [OF assms(1)] assms(1) n by (simp add: numbered_def in_session_def)
  from reduce_registry_step [OF this, of e] show ?thesis
    using n s' that by auto
next
  case closed
  have "registry_wf ses (event_seq s) (inferiors s)"
    using in_session_registry [OF assms(1)] .
  then have "registry_step ses (event_seq s + 1) [] [] (inferiors s) (inferiors s')"
    using registry_step_map closed by (simp add: fail_closed_def fail_backend_def Let_def)
  then show ?thesis using that by (metis less_add_one)
qed

lemma step_inferior_fresh:
  assumes "in_session ses s" "reducer_step s s'" "inferior_live s' h" "\<not> inferior_live s h"
  shows "\<exists>k. (\<exists>b. h = inferior_from_backend ses k b) \<and> event_seq s < k"
proof -
  obtain n b0 t0 where n: "event_seq s < n"
    and st: "registry_step ses n b0 t0 (inferiors s) (inferiors s')"
    using step_registry [OF assms(1,2)] by blast
  obtain b i where i: "bt_get (inferiors s') b = Some i" "inf_id i = h"
    using assms(3) by (auto simp: inferior_live_def)
  then have step: "inferior_step ses n t0 (b = b0) b (bt_get (inferiors s) b) i"
    using st by (simp add: registry_step_def)
  have "inf_generation i = n"
  proof (rule ccontr)
    assume "inf_generation i \<noteq> n"
    then obtain j where j: "bt_get (inferiors s) b = Some j" "inf_generation j = inf_generation i"
      using step by (auto simp: inferior_step_def)
    then have "inf_id j = inf_id i"
      using step assms(1)
      by (fastforce simp: inferior_step_def in_session_def session_wf_def registry_wf_def
          inferior_wf_def)
    with j i(2) assms(4) show False by (auto simp: inferior_live_def)
  qed
  with step i(2) n show ?thesis by (auto simp: inferior_step_def)
qed

interpretation inferior_handles: fresh_handles "in_session ses" reducer_step event_seq inferior_live
  "\<lambda>h k. \<exists>b. h = inferior_from_backend ses k b" for ses
proof unfold_locales
  fix s s' h
  show "\<exists>k \<le> event_seq s. \<exists>b. h = inferior_from_backend ses k b"
    if "in_session ses s" "inferior_live s h"
    using that
    by (fastforce simp: in_session_def session_wf_def registry_wf_def inferior_wf_def inferior_live_def)
  show "\<exists>k. (\<exists>b. h = inferior_from_backend ses k b) \<and> event_seq s < k"
    if "in_session ses s" "reducer_step s s'" "inferior_live s' h" "\<not> inferior_live s h"
    using step_inferior_fresh that by blast
qed (use in_session_step reducer_step_facts inferior_generation_inj in \<open>auto simp: in_session_def\<close>)

lemma step_thread_fresh:
  assumes "in_session ses s" "reducer_step s s'" "thread_live s' h" "\<not> thread_live s h"
  shows "\<exists>k g b t. h = thread_from_backend (inferior_from_backend ses g b) k t \<and> event_seq s < k"
proof -
  obtain n b0 t0 where n: "event_seq s < n"
    and st: "registry_step ses n b0 t0 (inferiors s) (inferiors s')"
    using step_registry [OF assms(1,2)] by blast
  obtain b i t th where i: "bt_get (inferiors s') b = Some i" "bt_get (inf_threads i) t = Some th"
      "thr_id th = h"
    using assms(3) by (auto simp: thread_live_def)
  then have step: "inferior_step ses n t0 (b = b0) b (bt_get (inferiors s) b) i"
    using st by (simp add: registry_step_def)
  have "\<not> thread_kept (bt_get (inferiors s) b) i t th"
    using assms(4) i(3) by (auto simp: thread_kept_def thread_live_def)
  with step i(2) have "thr_id th = thread_from_backend (inf_id i) n t"
    unfolding inferior_step_def by blast
  moreover have "inf_id i = inferior_from_backend ses (inf_generation i) b"
    using step unfolding inferior_step_def by blast
  ultimately show ?thesis using i(3) n by metis
qed

interpretation thread_handles: fresh_handles
  "\<lambda>s. in_session ses s \<and> uses_compact_handles ses" reducer_step event_seq thread_live
  "\<lambda>h k. uses_compact_handles ses \<and>
     (\<exists>g b t. h = thread_from_backend (inferior_from_backend ses g b) k t)" for ses
proof unfold_locales
  fix s s' h
  show "\<exists>k \<le> event_seq s. uses_compact_handles ses \<and>
      (\<exists>g b t. h = thread_from_backend (inferior_from_backend ses g b) k t)"
    if "in_session ses s \<and> uses_compact_handles ses" "thread_live s h"
    using that in_session_registry
    by (fastforce simp: registry_wf_def inferior_wf_def thread_live_def)
  show "\<exists>k. (uses_compact_handles ses \<and>
      (\<exists>g b t. h = thread_from_backend (inferior_from_backend ses g b) k t)) \<and> event_seq s < k"
    if "in_session ses s \<and> uses_compact_handles ses" "reducer_step s s'"
      "thread_live s' h" "\<not> thread_live s h"
    using step_thread_fresh that by blast
qed (use in_session_step reducer_step_facts thread_generation_inj in
  \<open>auto simp: in_session_def\<close>)

lemma reachable_threads_unique:
  assumes "uses_compact_handles ses" and "reducer_step\<^sup>*\<^sup>* (creating ses) s"
  shows "thread_handles_unique (inferiors s)"
  using assms(2)
proof (induction rule: rtranclp_induct)
  case base
  then show ?case by (simp add: thread_handles_unique_def creating_def)
next
  case (step y z)
  have y: "in_session ses y" using reachable_in_session [OF step.hyps(1)] .
  obtain n b0 t0 where "event_seq y < n" "registry_step ses n b0 t0 (inferiors y) (inferiors z)"
    using step_registry [OF y step.hyps(2)] by blast
  then show ?case
    using registry_step_threads_unique [OF assms(1) _ in_session_registry [OF y] step.IH] by blast
qed

section \<open>Sequences of events\<close>

lemmas one_step = r_into_rtranclp [of reducer_step]

fun apply_all :: "SessionState \<Rightarrow> (nat \<times> DomainEvent) list \<Rightarrow> SessionState result" where
  "apply_all s [] = Ok s"
| "apply_all s ((n, e) # es) =
     (case apply_event s n e of Err er \<Rightarrow> Err er | Ok (s', _) \<Rightarrow> apply_all s' es)"

lemma apply_all_steps: "apply_all s es = Ok s' \<Longrightarrow> reducer_step\<^sup>*\<^sup>* s s'"
proof (induction s es rule: apply_all.induct)
  case (2 s n e es)
  then obtain s1 c where "apply_event s n e = Ok (s1, c)" "apply_all s1 es = Ok s'"
    by (auto split: sum.splits prod.splits)
  then show ?case
    using 2 by (metis (no_types, lifting) converse_rtranclp_into_rtranclp reducer_step.event)
qed simp

lemma apply_event_step: "event_seq s < n \<Longrightarrow> reducer_step s (fst (bump_revision (reduce (s\<lparr>event_seq := n\<rparr>) e)))"
  by (rule reducer_step.event [where n = n and e = e and changed = "snd (reduce (s\<lparr>event_seq := n\<rparr>) e)"])
    (simp add: apply_event_Ok prod_eq_iff)

section \<open>Properties\<close>

text \<open>C17.  Invariant: in every state reachable from a new session by events and the fail-closed
  transition, all registries are sorted and keyed by their own entries, every inferior and thread
  handle is the one derived from its creation event, no two inferiors share a generation, running
  inferiors have only running threads without frames, the stop context is complete or absent and
  its snapshot belongs to the current stop, the limitations are bounded, and the execution epoch
  never exceeds the revision.\<close>

theorem reachable_session_wf:
  assumes "reducer_step\<^sup>*\<^sup>* (creating ses) s"
  shows "session_wf s \<and> session_id s = ses"
  using reachable_in_session [OF assms] by (simp add: in_session_def)

theorem reachable_session_wf_witness:
  "session_wf (fst (bump_revision (reduce ((creating ''sess_w'')\<lparr>event_seq := 3\<rparr>)
     (ThreadCreated ''i1'' ''1''))))"
proof -
  have "reducer_step\<^sup>*\<^sup>* (creating ''sess_w'') (fst (bump_revision (reduce
      ((creating ''sess_w'')\<lparr>event_seq := 3\<rparr>) (ThreadCreated ''i1'' ''1''))))"
    by (intro one_step apply_event_step) (simp add: creating_def)
  from reachable_session_wf [OF this] show ?thesis by blast
qed

text \<open>C18.  Stale stops stay stale: once a stop is no longer current (the target was resumed, exited,
  detached or stopped again), no later sequence of events makes it current again, so a handle
  bound to it is refused with \<open>StaleContext\<close> for the rest of the session.\<close>

theorem stop_never_current_again:
  assumes "reducer_step\<^sup>*\<^sup>* (creating ses) s0" and "stop_id s0 = Some x"
    and "reducer_step\<^sup>*\<^sup>* s0 s1" and "stop_id s1 \<noteq> Some x" and "reducer_step\<^sup>*\<^sup>* s1 s2"
  shows "stop_id s2 \<noteq> Some x \<and> (\<exists>e. require_stop s2 x = Err e \<and> err_code e = StaleContext)"
proof -
  have "\<not> stop_live s2 x"
    using stops.never_revives [OF reachable_in_session [OF assms(1)] _ assms(3) _ assms(5), of x]
      assms(2,4) by (simp add: stop_live_def)
  then show ?thesis by (simp add: stop_live_def require_stop_def new_error_def)
qed

text \<open>A two-event history: a stop and the resume after it.\<close>

lemma stop_then_run:
  obtains s0 s1 where "reducer_step\<^sup>*\<^sup>* (creating ses) s0"
    "stop_id s0 = Some (stop_from_event ses 1)" "reducer_step s0 s1" "stop_id s1 = None"
proof -
  define s0 where "s0 = fst (bump_revision (reduce ((creating ses)\<lparr>event_seq := 1\<rparr>)
    (DomainEvent.TargetStopped None None ''x'' None None)))"
  define s1 where "s1 = fst (bump_revision (reduce (s0\<lparr>event_seq := 2\<rparr>)
    (DomainEvent.TargetRunning [])))"
  have "reducer_step (creating ses) s0"
    unfolding s0_def by (intro apply_event_step) (simp add: creating_def)
  moreover have "event_seq s0 = 1" unfolding s0_def by (simp del: reduce.simps)
  then have "reducer_step s0 s1" unfolding s1_def by (intro apply_event_step) simp
  moreover have "stop_id s0 = Some (stop_from_event ses 1)"
    by (simp add: s0_def reduce_target_stopped_def Let_def creating_def)
  moreover have "stop_id s1 = None"
    by (simp add: s1_def reduce_target_running_def Let_def clear_stop_context_def)
  ultimately show ?thesis using that by blast
qed

theorem stop_never_current_again_witness:
  "\<exists>s0 s1 s2. reducer_step\<^sup>*\<^sup>* (creating ''sess_w'') s0 \<and> reducer_step s0 s1 \<and> reducer_step s1 s2 \<and>
     stop_id s0 \<noteq> None \<and> stop_id s2 \<noteq> None \<and> stop_id s2 \<noteq> stop_id s0"
proof -
  obtain s0 s1 where s: "reducer_step\<^sup>*\<^sup>* (creating ''sess_w'') s0"
      "stop_id s0 = Some (stop_from_event ''sess_w'' 1)" "reducer_step s0 s1" "stop_id s1 = None"
    by (rule stop_then_run)
  define s2 where "s2 = fst (bump_revision (reduce (s1\<lparr>event_seq := event_seq s1 + 1\<rparr>)
    (DomainEvent.TargetStopped None None ''x'' None None)))"
  have s2: "reducer_step s1 s2" unfolding s2_def by (rule apply_event_step) simp
  have "stop_id s2 \<noteq> None" by (simp add: s2_def reduce_target_stopped_def Let_def)
  then show ?thesis
    using s s2 stop_never_current_again [OF s(1,2) one_step [OF s(3)] _ one_step [OF s2]]
    by (intro exI [of _ s0] exI [of _ s1] exI [of _ s2]) auto
qed

text \<open>C19.  Thread handles are never reused: in a session with compact handles, a public thread handle
  that has disappeared (its thread exited or its inferior was replaced) never names a thread again,
  even when GDB reuses the backend thread number.\<close>

theorem thread_handle_never_reused:
  assumes "uses_compact_handles ses"
    and "reducer_step\<^sup>*\<^sup>* (creating ses) s0" and "thread_live s0 h"
    and "reducer_step\<^sup>*\<^sup>* s0 s1" and "\<not> thread_live s1 h" and "reducer_step\<^sup>*\<^sup>* s1 s2"
  shows "\<not> thread_live s2 h"
  using thread_handles.never_revives [OF _ assms(3,4,5,6), of ses]
    reachable_in_session [OF assms(2)] assms(1) by blast

lemma compact_example: "uses_compact_handles ''sess_0123456789abcdef''"
  by (simp add: uses_compact_handles_def strip_prefix_def)

theorem thread_handle_never_reused_witness:
  "\<exists>s0 s1 s2 h. reducer_step\<^sup>*\<^sup>* (creating ''sess_0123456789abcdef'') s0 \<and> reducer_step s0 s1 \<and>
     thread_live s0 h \<and> event_seq s1 < event_seq s2 \<and> reducer_step s1 s2 \<and> \<not> thread_live s2 h"
proof -
  let ?ses = "''sess_0123456789abcdef''"
  define s0 where "s0 = fst (bump_revision (reduce ((creating ?ses)\<lparr>event_seq := 1\<rparr>)
    (ThreadCreated ''i1'' ''1'')))"
  define s1 where "s1 = fst (bump_revision (reduce (s0\<lparr>event_seq := 2\<rparr>) (InferiorRemoved ''i1'')))"
  have s0: "reducer_step (creating ?ses) s0"
    unfolding s0_def by (intro apply_event_step) (simp add: creating_def)
  have "event_seq s0 = 1" unfolding s0_def by (simp del: reduce.simps)
  then have s1: "reducer_step s0 s1" unfolding s1_def by (intro apply_event_step) simp
  have i0: "inferiors s0 = [(''i1'', fst (create_thread 1 ''1'' (new_inferior ?ses 1 ''i1'')))]"
    by (simp add: s0_def reduce_thread_created_def ensure_inferior_def Let_def creating_def
        bt_entry_def bt_update_def bt_map_def)
  then have "inferiors s1 = []"
    by (simp add: s1_def reduce_inferior_removed_def Let_def bt_get_def bt_remove_def)
  then have gone: "\<not> thread_live s1 h" for h by (simp add: thread_live_def)
  have "thread_live s0 (thread_from_backend (inf_id (new_inferior ?ses 1 ''i1'')) 1 ''1'')"
    by (simp add: thread_live_def i0 create_thread_def new_inferior_def Let_def bt_get_def)
  moreover define s2 where "s2 = fst (bump_revision (reduce (s1\<lparr>event_seq := event_seq s1 + 1\<rparr>)
    (ThreadCreated ''i1'' ''1'')))"
  have s2: "reducer_step s1 s2" unfolding s2_def by (rule apply_event_step) simp
  moreover have "event_seq s1 < event_seq s2" by (simp add: s2_def del: reduce.simps)
  ultimately show ?thesis
    using thread_handle_never_reused [OF compact_example one_step [OF s0] _
        one_step [OF s1] gone one_step [OF s2]] s0 s1 by blast
qed

text \<open>C20.  Handles are unambiguous: in every reachable state two inferiors never share a public
  handle and, with compact handles, neither do two threads, whichever inferiors they belong to;
  and an inferior handle that has disappeared never comes back.\<close>

theorem handles_unambiguous:
  assumes "uses_compact_handles ses" and "reducer_step\<^sup>*\<^sup>* (creating ses) s"
  shows "(\<forall>b b' i i'. bt_get (inferiors s) b = Some i \<longrightarrow> bt_get (inferiors s) b' = Some i' \<longrightarrow>
      inf_id i = inf_id i' \<longrightarrow> b = b') \<and>
    thread_handles_unique (inferiors s) \<and>
    (\<forall>h s1 s2. inferior_live s h \<longrightarrow> reducer_step\<^sup>*\<^sup>* s s1 \<longrightarrow> \<not> inferior_live s1 h \<longrightarrow>
      reducer_step\<^sup>*\<^sup>* s1 s2 \<longrightarrow> \<not> inferior_live s2 h)"
proof (intro conjI allI impI)
  note ses = reachable_in_session [OF assms(2)]
  show "thread_handles_unique (inferiors s)" using reachable_threads_unique [OF assms] .
  show "\<not> inferior_live s2 h" if "inferior_live s h" "reducer_step\<^sup>*\<^sup>* s s1" "\<not> inferior_live s1 h"
      "reducer_step\<^sup>*\<^sup>* s1 s2" for h s1 s2
    using inferior_handles.never_revives [OF ses that] .
  show "b = b'" if "bt_get (inferiors s) b = Some i" "bt_get (inferiors s) b' = Some i'"
      "inf_id i = inf_id i'" for b b' i i'
    using in_session_registry [OF ses] that inferior_generation_inj
    unfolding registry_wf_def inferior_wf_def by metis
qed

theorem handles_unambiguous_witness:
  "thread_handles_unique (inferiors (fst (bump_revision (reduce
     ((creating ''sess_0123456789abcdef'')\<lparr>event_seq := 1\<rparr>) (ThreadCreated ''i1'' ''1'')))))"
proof -
  have "reducer_step\<^sup>*\<^sup>* (creating ''sess_0123456789abcdef'') (fst (bump_revision (reduce
      ((creating ''sess_0123456789abcdef'')\<lparr>event_seq := 1\<rparr>) (ThreadCreated ''i1'' ''1''))))"
    by (intro one_step apply_event_step) (simp add: creating_def)
  from handles_unambiguous [OF compact_example this] show ?thesis by blast
qed

end
