(* ===== verification/Reducer_Events.thy ===== *)
theory Reducer_Events
  imports Reducer_Props
begin

text \<open>
  What single events do: the contract of \<open>apply_event\<close>, when an unchanged revision means an
  unchanged state, the running edge, the stop record, the fail-closed transition, taint, and the
  life of a committed snapshot; with the two places where the reducer is weaker than its comments
  say.
\<close>

section \<open>The contract of \<open>apply_event\<close>\<close>

text \<open>Ordering: an event is refused with \<open>InvalidState\<close> exactly when its sequence number does
  not advance, and then nothing is produced; an accepted event sets the sequence number, keeps the
  session identity and advances the revision by one exactly when it reports a change.\<close>

theorem apply_event_contract:
  "case apply_event s n e of
     Err er \<Rightarrow> n \<le> event_seq s \<and> err_code er = InvalidState
   | Ok (s', changed) \<Rightarrow> event_seq s < n \<and> event_seq s' = n \<and> session_id s' = session_id s \<and>
       revision s' = revision s + (if changed then 1 else 0)"
  by (simp add: apply_event_def new_error_def case_prod_beta bump_revision_revision
      del: reduce.simps)

section \<open>Silent events\<close>

definition silent_exception :: "DomainEvent \<Rightarrow> bool" where
  "silent_exception e = (case e of
      CommandOutcomeResolved _ \<Rightarrow> True | ConsistencyRestored _ \<Rightarrow> True | _ \<Rightarrow> False)"

lemma fail_backend_silent:
  assumes "session_wf s" "\<not> snd (fail_backend s)"
  shows "fst (fail_backend s) = s"
proof -
  have wf: "bt_wf (inferiors s)" using assms(1) by (simp add: session_wf_def registry_wf_def)
  have "bt_map (\<lambda>_ i. if fails_backend (inf_status i)
      then i\<lparr>inf_status := InferiorStatus.Disconnected\<rparr> else i) (inferiors s) = inferiors s"
    using assms(2) bt_values_iff [OF wf]
    by (intro bt_map_id [OF wf]) (auto simp: fail_backend_def Let_def list_ex_iff)
  moreover have "clear_stop_context s = s"
    using assms by (cases s) (auto simp: fail_backend_def Let_def session_wf_def stop_wf_def
        clear_stop_context_def)
  ultimately show ?thesis
    using assms(2) by (cases s) (auto simp: fail_backend_def Let_def clear_stop_context_def)
qed

lemma target_running_silent:
  assumes "session_wf s" "\<not> snd (reduce_target_running s bs)"
  shows "fst (reduce_target_running s bs) = s"
proof -
  have wf: "bt_wf (inferiors s)" using assms(1) by (simp add: session_wf_def registry_wf_def)
  have ne: "inferiors s \<noteq> []"
  proof
    assume "inferiors s = []"
    with assms(2) show False
      by (auto simp: reduce_target_running_def Let_def ensure_inferior_def bt_entry_def
          new_inferior_def split: list.splits)
  qed
  have same: "run_inferior i = i" if "bt_get (inferiors s) b = Some i" "bs = [] \<or> b \<in> set bs" for b i
  proof -
    have st: "inf_status i = InferiorStatus.Running"
      using assms(2) that ne bt_get_iff_mem [OF wf]
      by (fastforce simp: reduce_target_running_def Let_def list_ex_iff)
    moreover have "running_ok i" "bt_wf (inf_threads i)"
      using assms(1) that(1) by (auto simp: session_wf_def registry_wf_def inferior_wf_def)
    ultimately have "bt_map (\<lambda>_ t. t\<lparr>thr_running := True, thr_frame := None\<rparr>) (inf_threads i) =
        inf_threads i"
      by (intro bt_map_id) (auto simp: running_ok_def)
    with st show ?thesis by (cases i) (simp add: run_inferior_def)
  qed
  have "bt_map (\<lambda>b i. if bs = [] \<or> b \<in> set bs then run_inferior i else i) (inferiors s) = inferiors s"
    using same by (intro bt_map_id [OF wf]) auto
  moreover have "clear_stop_context s = s"
    using assms ne by (cases s) (auto simp: reduce_target_running_def Let_def session_wf_def
        stop_wf_def clear_stop_context_def)
  ultimately show ?thesis
    using assms(2) ne
    by (cases s) (auto simp: reduce_target_running_def Let_def clear_stop_context_def any_running_def)
qed

lemma thread_silent:
  assumes "session_wf s"
  shows "\<not> snd (reduce_thread_created s b t) \<Longrightarrow> fst (reduce_thread_created s b t) = s"
    and "\<not> snd (reduce_thread_exited s bo t) \<Longrightarrow> fst (reduce_thread_exited s bo t) = s"
proof -
  have wf: "bt_wf (inferiors s)"
    and thr: "\<And>c i. bt_get (inferiors s) c = Some i \<Longrightarrow> bt_wf (inf_threads i)"
    using assms by (auto simp: session_wf_def registry_wf_def inferior_wf_def)
  show "fst (reduce_thread_created s b t) = s" if "\<not> snd (reduce_thread_created s b t)"
  proof -
    note silent = that
    obtain i th where i: "bt_get (inferiors s) b = Some i" "bt_get (inf_threads i) t = Some th"
        "thr_running th = (inf_status i = InferiorStatus.Running)"
      using silent wf
      by (auto simp: reduce_thread_created_def create_thread_def Let_def ensure_inferior_def
          new_inferior_def split: option.splits)
    have "bt_update t (\<lambda>t. t\<lparr>thr_running := inf_status i = InferiorStatus.Running\<rparr>) (inf_threads i) =
        inf_threads i"
      using i by (intro bt_update_id [OF thr [OF i(1)]]) auto
    then have "fst (create_thread n t i) = i" for n
      using i(2) by (cases i) (simp add: create_thread_def Let_def)
    then have "bt_update b (\<lambda>i. fst (create_thread n t i)) (inferiors s) = inferiors s" for n
      using i(1) by (intro bt_update_id [OF wf]) auto
    with i(1) show ?thesis
      by (cases s) (simp add: reduce_thread_created_def Let_def ensure_inferior_def bt_entry_present)
  qed
  have none: "exit_thread t i = i" if "bt_get (inferiors s) c = Some i" "\<not> has_thread t i" for c i
    using bt_remove_absent [OF thr [OF that(1)], of t] that(2)
    by (cases i) (simp add: exit_thread_def has_thread_def)
  have first: "\<not> snd (exit_first_thread t m) \<Longrightarrow> fst (exit_first_thread t m) = m" for m
    by (induction t m rule: exit_first_thread.induct) (auto simp: case_prod_beta split: if_splits)
  show "fst (reduce_thread_exited s bo t) = s" if "\<not> snd (reduce_thread_exited s bo t)"
  proof (cases bo)
    case None
    with that first [of "inferiors s"] show ?thesis
      by (cases s) (simp add: reduce_thread_exited_def case_prod_beta)
  next
    case (Some b)
    then have "bt_update b (exit_thread t) (inferiors s) = inferiors s"
      using that none by (intro bt_update_id [OF wf]) (auto simp: reduce_thread_exited_def)
    with Some show ?thesis by (cases s) (simp add: reduce_thread_exited_def)
  qed
qed

text \<open>Events that always advance the revision.\<close>

definition loud_event :: "DomainEvent \<Rightarrow> bool" where
  "loud_event e = (case e of
      SessionClosing \<Rightarrow> True | SessionClosed \<Rightarrow> True | BackendStarted \<Rightarrow> True
    | InferiorAdded _ _ \<Rightarrow> True | DomainEvent.TargetStopped _ _ _ _ _ \<Rightarrow> True
    | BreakpointCreated _ _ _ \<Rightarrow> True | BreakpointModified _ _ _ \<Rightarrow> True
    | BreakpointRebound _ _ _ _ _ \<Rightarrow> True | LibraryLoaded _ _ _ _ \<Rightarrow> True
    | MemoryChanged \<Rightarrow> True | RegisterChanged _ \<Rightarrow> True | ControllerChanged _ \<Rightarrow> True
    | EvidenceGap _ \<Rightarrow> True | SignalPolicyChanged _ _ \<Rightarrow> True | CommandOutcomeUnknown _ \<Rightarrow> True
    | DomainEvent.ConsistencyDirty _ \<Rightarrow> True | ConsistencyTainted _ \<Rightarrow> True
    | DomainEvent.ConsistencyLost _ \<Rightarrow> True | DomainEvent.TargetDisconnected \<Rightarrow> True
    | TargetDetached \<Rightarrow> True | CoreOpened _ \<Rightarrow> True | TargetConfigured _ \<Rightarrow> True
    | UnknownBackendEvent _ \<Rightarrow> True | UnknownBackendNotification _ \<Rightarrow> True | _ \<Rightarrow> False)"

lemma reduce_loud: "loud_event e \<Longrightarrow> snd (reduce s e)"
  by (cases e) (simp_all add: loud_event_def reduce_inferior_added_def reduce_target_stopped_def
      reduce_breakpoint_upsert_def reduce_breakpoint_rebound_def reduce_evidence_gap_def
      reduce_outcome_unknown_def reduce_dirty_def reduce_tainted_def reduce_lost_def
      reduce_core_opened_def Let_def)

text \<open>C21.  Optimistic concurrency: apart from resolving a command outcome and restoring consistency,
  an event that does not advance the revision leaves the whole session state as it was, except for
  the sequence number; so a client that presents the current revision has seen the current state.\<close>

theorem unchanged_revision_same_state:
  assumes "session_wf s" and "apply_event s n e = Ok (s', False)" and "\<not> silent_exception e"
  shows "s' = s\<lparr>event_seq := n\<rparr>"
proof -
  let ?s = "s\<lparr>event_seq := n\<rparr>"
  have n: "event_seq s < n" and r: "(s', False) = bump_revision (reduce ?s e)"
    using assms(2) by (auto simp: apply_event_Ok simp del: reduce.simps)
  have wf: "session_wf ?s"
    using assms(1) n registry_wf_mono [of "session_id s" "event_seq s" "inferiors s" n]
      stop_wf_cong [of ?s s] by (simp add: session_wf_def)
  have silent: "\<not> snd (reduce ?s e)" and s': "s' = fst (reduce ?s e)"
    using r by (auto simp: bump_revision_def simp del: reduce.simps split: if_splits prod.splits)
      (metis fst_conv)
  have maps: "bt_wf (breakpoints s)" "bt_wf (modules s)" using assms(1) by (simp_all add: session_wf_def)
  have "fst (reduce ?s e) = ?s"
  proof (cases e)
    case (BackendExited st)
    then show ?thesis using fail_backend_silent [OF wf] silent by simp
  next
    case (TargetRunning bs)
    then show ?thesis using target_running_silent [OF wf] silent by simp
  next
    case (ThreadCreated b t)
    then show ?thesis using thread_silent(1) [OF wf] silent by simp
  next
    case (ThreadExited b t)
    then show ?thesis using thread_silent(2) [OF wf] silent by simp
  next
    case (BreakpointDeleted k)
    then show ?thesis using bt_remove_absent [OF maps(1), of k] silent by (cases s) simp
  next
    case (LibraryUnloaded k)
    then show ?thesis using bt_remove_absent [OF maps(2), of k] silent by (cases s) simp
  next
    case (InferiorRemoved b)
    then have "bt_get (inferiors s) b = None"
      using silent by (cases "bt_get (inferiors s) b") (simp_all add: reduce_inferior_removed_def Let_def)
    with InferiorRemoved show ?thesis by (simp add: reduce_inferior_removed_def)
  next
    case (InferiorExited b code from_stop)
    then show ?thesis
      using silent by (simp add: reduce_inferior_exited_def Let_def split: option.splits)
  next
    case (BreakpointLocations k locations)
    then have "bt_get (breakpoints s) k = None"
      using silent by (cases "bt_get (breakpoints s) k") (simp_all add: reduce_breakpoint_locations_def)
    with BreakpointLocations show ?thesis by (simp add: reduce_breakpoint_locations_def)
  next
    case (SnapshotStarted x)
    then have "stop_id s \<noteq> Some x \<or> snapshot_ready ?s"
      using silent by (fastforce simp: reduce_snapshot_started_def)
    with SnapshotStarted show ?thesis by (simp add: reduce_snapshot_started_def)
  next
    case (SnapshotReady x i partial)
    then have "stop_id s \<noteq> Some x" using silent by (fastforce simp: reduce_snapshot_ready_def)
    with SnapshotReady show ?thesis by (simp add: reduce_snapshot_ready_def)
  next
    case (SnapshotFailed x)
    then have "stop_id s \<noteq> Some x \<or> snapshot_ready ?s"
      using silent by (fastforce simp: reduce_snapshot_failed_def)
    with SnapshotFailed show ?thesis by (simp add: reduce_snapshot_failed_def)
  next
    case ConsistencyReconciling
    then show ?thesis using silent by (simp add: reduce_reconciling_def split: if_splits)
  next
    case (Output src bs)
    then show ?thesis by simp
  next
    case (OutputAdvanced src off len dropped)
    then show ?thesis by simp
  qed (use silent assms(3) reduce_loud [of e ?s] in
      \<open>simp_all add: silent_exception_def loud_event_def del: reduce.simps\<close>)
  with s' show ?thesis by simp
qed

theorem unchanged_revision_same_state_witness:
  "\<exists>s'. apply_event (creating ''sess_w'') 4 (ThreadExited None ''1'') = Ok (s', False) \<and>
     s' = (creating ''sess_w'')\<lparr>event_seq := 4\<rparr>"
proof -
  obtain s' where s': "apply_event (creating ''sess_w'') 4 (ThreadExited None ''1'') = Ok (s', False)"
    by (simp add: apply_event_def creating_def bump_revision_def reduce_thread_exited_def)
  from unchanged_revision_same_state [OF creating_wf s'] s' show ?thesis
    by (auto simp: silent_exception_def)
qed


section \<open>Running and stopping\<close>

lemma target_running_facts:
  assumes "session_wf s" and "s' = fst (reduce s (DomainEvent.TargetRunning bs))"
  shows "execution_epoch s' = execution_epoch s + (if \<not> any_running s \<and> any_running s' then 1 else 0)"
    and "stop_id s' = None \<and> snapshot s' = None \<and> lifecycle s' = SessionLifecycle.Active"
    and "\<forall>b i. bt_get (inferiors s) b = Some i \<longrightarrow> bt_get (inferiors s') b =
           Some (if bs = [] \<or> b \<in> set bs then run_inferior i else i)"
    and "inferiors s = [] \<Longrightarrow> any_running s'"
proof -
  have wf: "bt_wf (inferiors s)" using assms(1) by (simp add: session_wf_def registry_wf_def)
  show "execution_epoch s' = execution_epoch s + (if \<not> any_running s \<and> any_running s' then 1 else 0)"
    "stop_id s' = None \<and> snapshot s' = None \<and> lifecycle s' = SessionLifecycle.Active"
    by (auto simp: assms(2) reduce_target_running_def Let_def clear_stop_context_def any_running_def
        ensure_inferior_def)
  show "\<forall>b i. bt_get (inferiors s) b = Some i \<longrightarrow> bt_get (inferiors s') b =
      Some (if bs = [] \<or> b \<in> set bs then run_inferior i else i)"
    using wf by (auto simp: assms(2) reduce_target_running_def Let_def ensure_inferior_def)
  show "any_running s'" if "inferiors s = []"
    using that by (cases bs) (simp_all add: assms(2) reduce_target_running_def Let_def ensure_inferior_def
        any_running_def bt_entry_def bt_map_def bt_values_def run_inferior_def
        clear_stop_context_def)
qed

text \<open>The running edge: a running record resumes exactly the inferiors it names (all when it
  names none, creating the first one in an empty session), clears their threads' frames and the
  whole stop context, leaves the other inferiors alone, and advances the execution epoch exactly
  when the session goes from no running inferior to some running inferior, so repeated and
  per-inferior records of one resume count once.\<close>

theorem target_running_edge:
  assumes "session_wf s" and "s' = fst (reduce s (DomainEvent.TargetRunning bs))"
  shows "execution_epoch s' = execution_epoch s + (if \<not> any_running s \<and> any_running s' then 1 else 0) \<and>
    stop_id s' = None \<and> snapshot s' = None \<and> lifecycle s' = SessionLifecycle.Active \<and>
    (\<forall>b i. bt_get (inferiors s) b = Some i \<longrightarrow> bt_get (inferiors s') b =
       Some (if bs = [] \<or> b \<in> set bs then run_inferior i else i)) \<and>
    (inferiors s = [] \<longrightarrow> any_running s')"
  using target_running_facts [OF assms] by blast

theorem target_running_edge_witness:
  "execution_epoch (fst (reduce (creating ''sess_w'') (DomainEvent.TargetRunning []))) = 1"
  using target_running_edge [OF creating_wf refl, of "''sess_w''" "[]"]
  by (simp add: creating_def any_running_def bt_values_def)

text \<open>The registry after a stop record.\<close>

lemma stop_inferior_inv [simp]:
  "inf_id (stop_inferior i) = inf_id i" "inf_generation (stop_inferior i) = inf_generation i"
  by (simp_all add: stop_inferior_def)

lemma stop_thread_sel [simp]:
  "inf_id (stop_thread n t frame i) = inf_id i" "inf_status (stop_thread n t frame i) = inf_status i"
  by (simp_all add: stop_thread_def)

lemma inf_status_stop [simp]:
  "inf_status (stop_inferior i) =
     (if is_terminal (inf_status i) then inf_status i else InferiorStatus.Stopped)"
  by (simp add: stop_inferior_def)







section \<open>Failing closed\<close>

text \<open>C24.  Failing closed: after the backend is lost the session is failed with a dead backend and no
  stop context, every inferior that was still live is disconnected while proven exits, detached
  and unstarted inferiors keep their whole entry, exit codes included; a second failure changes
  nothing and does not advance the revision.\<close>

theorem fail_closed_safe:
  assumes "session_wf s" and "s' = fst (fail_closed s)"
  shows "lifecycle s' = SessionLifecycle.Failed \<and> backend s' = BackendHealth.Dead \<and>
    stop_id s' = None \<and> stopped_frame s' = None \<and>
    (\<forall>b. bt_get (inferiors s') b = map_option (\<lambda>i.
       if inf_status i = InferiorStatus.Empty \<or> is_terminal (inf_status i) then i
       else i\<lparr>inf_status := InferiorStatus.Disconnected\<rparr>) (bt_get (inferiors s) b)) \<and>
    fail_closed s' = (s', False)"
proof -
  have f: "lifecycle s' = SessionLifecycle.Failed" "backend s' = BackendHealth.Dead"
    "stop_id s' = None" "stopped_inferior_id s' = None"
    "inferiors s' = bt_map (\<lambda>_ i. if fails_backend (inf_status i)
        then i\<lparr>inf_status := InferiorStatus.Disconnected\<rparr> else i) (inferiors s)"
    by (simp_all add: assms(2) fail_closed_def bump_revision_def fail_backend_def Let_def
        clear_stop_context_def)
  have wf: "session_wf s'" using fail_closed_wf assms by blast
  then have bt: "bt_wf (inferiors s')" by (simp add: session_wf_def registry_wf_def)
  have "\<not> fails_backend (inf_status i)" if i: "i \<in> set (bt_values (inferiors s'))" for i
  proof -
    obtain b where "bt_get (inferiors s') b = Some i" using i bt_values_iff [OF bt] by blast
    then obtain j where "i = (if fails_backend (inf_status j)
        then j\<lparr>inf_status := InferiorStatus.Disconnected\<rparr> else j)" by (auto simp: f(5))
    then show ?thesis by (simp add: fails_backend_def is_terminal_def split: if_splits)
  qed
  then have "\<not> snd (fail_backend s')"
    using f by (auto simp: fail_backend_def Let_def list_ex_iff)
  then have "fail_closed s' = (s', False)"
    using fail_backend_silent [OF wf] by (simp add: fail_closed_def bump_revision_def prod_eq_iff)
  then show ?thesis
    using f by (auto simp: stopped_frame_def fails_backend_def intro: map_option_cong)
qed

theorem fail_closed_safe_witness:
  "snd (fail_closed (fst (fail_closed (creating ''sess_w'')))) = False"
  using fail_closed_safe [OF creating_wf refl, of "''sess_w''"] by simp

section \<open>Consistency\<close>

lemma reduce_taint:
  assumes "consistency s = Consistency.Tainted" "\<nexists>reason. e = DomainEvent.ConsistencyLost reason"
  shows "consistency (fst (reduce s e)) = Consistency.Tainted"
  using assms
  by (cases e) (simp_all add: branch_defs registry_branch_defs Let_def case_prod_beta split: option.split)

text \<open>C25.  Taint is permanent: once an unknown effect has tainted the session, no sequence of events
  without a loss of consistency makes it clean, dirty or reconciling again, whatever restorations
  are applied.\<close>

theorem taint_permanent:
  assumes "consistency s = Consistency.Tainted" and "apply_all s es = Ok s'"
    and "\<forall>(n, e) \<in> set es. \<nexists>reason. e = DomainEvent.ConsistencyLost reason"
  shows "consistency s' = Consistency.Tainted"
  using assms
proof (induction s es rule: apply_all.induct)
  case (2 s n e es)
  then obtain s1 c where s1: "apply_event s n e = Ok (s1, c)" "apply_all s1 es = Ok s'"
    by (auto split: sum.splits prod.splits)
  then have "s1 = fst (bump_revision (reduce (s\<lparr>event_seq := n\<rparr>) e))"
    by (auto simp: apply_event_Ok simp del: reduce.simps) (metis fst_conv)
  then have "consistency s1 = Consistency.Tainted"
    using reduce_taint [of "s\<lparr>event_seq := n\<rparr>" e] "2.prems"(1,3) by simp
  then show ?case using "2.IH" [OF s1(1) refl] s1(2) "2.prems"(3) by simp
qed simp

theorem taint_permanent_witness:
  "\<exists>s'. apply_all ((creating ''sess_w'')\<lparr>consistency := Consistency.Tainted\<rparr>)
     [(1, ConsistencyRestored []), (2, ConsistencyReconciling)] = Ok s' \<and>
     consistency s' = Consistency.Tainted"
proof -
  let ?s = "(creating ''sess_w'')\<lparr>consistency := Consistency.Tainted\<rparr>"
  obtain s' where s': "apply_all ?s [(1, ConsistencyRestored []), (2, ConsistencyReconciling)] = Ok s'"
    by (simp add: apply_event_def creating_def bump_revision_def reduce_restored_def
        reduce_reconciling_def Let_def)
  from taint_permanent [OF _ s'] s' show ?thesis by simp
qed

section \<open>Snapshots\<close>

lemma exited_snapshot:
  "snapshot (fst (reduce_inferior_exited s bo code from_stop)) = snapshot s \<or>
   stop_id (fst (reduce_inferior_exited s bo code from_stop)) = None"
  by (cases "attributed_inferior s bo")
    (simp_all add: reduce_inferior_exited_def Let_def ensure_inferior_def clear_stop_context_def)

text \<open>C26.  A committed snapshot stays readable: while a ready snapshot exists, an event replaces or
  drops it only by ending or changing the current stop, by changing target memory or registers, or
  by committing another snapshot of the same stop; a failed or restarted capture and captures of
  other stops never touch it.\<close>

theorem ready_snapshot_kept:
  assumes "snapshot_ready s" and "stop_wf s"
    and "s' = fst (reduce s e)" and "snapshot s' \<noteq> snapshot s"
  shows "(case e of MemoryChanged \<Rightarrow> True | RegisterChanged _ \<Rightarrow> True
      | SnapshotReady x _ _ \<Rightarrow> stop_id s = Some x | _ \<Rightarrow> False) \<or> stop_id s' = None \<or>
    stop_id s' = Some (stop_from_event (session_id s) (event_seq s))"
proof (cases e)
  case (InferiorExited bo code from_stop)
  with exited_snapshot [of s bo code from_stop] assms(3,4) show ?thesis by auto
qed (use assms in \<open>simp_all add: branch_defs registry_branch_defs Let_def case_prod_beta
    split: option.splits if_splits\<close>)

theorem ready_snapshot_kept_witness:
  "\<exists>s. snapshot_ready s \<and> snapshot (fst (reduce s TargetDetached)) \<noteq> snapshot s \<and>
     (stop_id (fst (reduce s TargetDetached)) = None \<or>
      stop_id (fst (reduce s TargetDetached)) = Some (stop_from_event (session_id s) (event_seq s)))"
proof -
  define s where "s = (creating ''sess_w'')\<lparr>stop_id := Some (stop_from_event ''sess_w'' 0),
        stop_reason := Some [], stop_reason_detail := Some StopReason.Core,
        stopped_inferior_id := Some [], snapshot := Some \<lparr>snap_snapshot_id = ''a'',
          snap_stop_id = stop_from_event ''sess_w'' 0, snap_status = SnapshotStatus.Ready,
          snap_partial = False\<rparr>\<rparr>"
  have ready: "snapshot_ready s" "stop_wf s"
    by (auto simp: s_def snapshot_ready_def stop_wf_def creating_def)
  have gone: "snapshot (fst (reduce s TargetDetached)) \<noteq> snapshot s"
    by (simp add: s_def clear_stop_context_def)
  show ?thesis
    using ready_snapshot_kept [OF ready refl gone] ready(1) gone by auto
qed

section \<open>Limits of the reducer\<close>

lemma push_fresh:
  "length ls < max_limitations - 1 \<Longrightarrow> l \<notin> set ls \<Longrightarrow> limitations_omitted \<notin> set ls \<Longrightarrow>
     push_limitation ls l = ls @ [l]"
  by (simp add: push_limitation_def)

text \<open>A history of \<open>k\<close> distinct dirty marks.\<close>

definition mark :: "nat \<Rightarrow> string" where
  "mark k = replicate k (CHR ''x'')"

lemma mark_inj [simp]: "mark k = mark m \<longleftrightarrow> k = m"
  by (auto simp: mark_def dest: arg_cong [where f = length])

lemma mark_ordinary [simp]:
  "mark k \<noteq> limitations_omitted" "mark k \<noteq> evidence_gap_prefix @ r"
  "limitations_omitted \<noteq> mark k" "evidence_gap_prefix @ r \<noteq> mark k"
proof -
  have "CHR '' '' \<notin> set (mark k)" by (simp add: mark_def)
  moreover have "CHR '' '' \<in> set limitations_omitted" "CHR '' '' \<in> set (evidence_gap_prefix @ r)"
    by (simp_all add: limitations_omitted_def evidence_gap_prefix_def)
  ultimately show "mark k \<noteq> limitations_omitted" "mark k \<noteq> evidence_gap_prefix @ r"
    "limitations_omitted \<noteq> mark k" "evidence_gap_prefix @ r \<noteq> mark k" by metis+
qed

lemma dirty_history:
  "k \<le> max_limitations - 1 \<Longrightarrow>
     \<exists>s. reducer_step\<^sup>*\<^sup>* (creating ses) s \<and> limitations s = map mark [0..<k]"
proof (induction k)
  case 0
  then show ?case by (intro exI [of _ "creating ses"]) (simp add: creating_def)
next
  case (Suc k)
  then obtain s where s: "reducer_step\<^sup>*\<^sup>* (creating ses) s" "limitations s = map mark [0..<k]" by auto
  let ?s = "fst (bump_revision (reduce (s\<lparr>event_seq := event_seq s + 1\<rparr>)
    (DomainEvent.ConsistencyDirty (mark k))))"
  have "reducer_step s ?s" by (rule apply_event_step) simp
  moreover have "limitations ?s = map mark [0..<Suc k]"
  proof -
    have "mark k \<notin> set (map mark [0..<k])" "limitations_omitted \<notin> set (map mark [0..<k])" by auto
    with s(2) Suc.prems push_fresh [of "map mark [0..<k]" "mark k"] show ?thesis
      by (simp add: reduce_dirty_def mark_dirty_def)
  qed
  ultimately show ?case
    using s(1) by (meson rtranclp.rtrancl_into_rtrancl)
qed

text \<open>C27.  The bound on limitations is 65, not 64: every reachable state keeps at most
  \<open>MAX_LIMITATIONS + 1\<close> limitations, and a session that collects 63 dirty marks, then an evidence
  gap, then one more dirty mark holds 65 of them, one more than the constant allows.\<close>

theorem limitations_bound_is_65:
  "(\<forall>s. reducer_step\<^sup>*\<^sup>* (creating ses) s \<longrightarrow> length (limitations s) \<le> max_limitations + 1) \<and>
   (\<exists>s. reducer_step\<^sup>*\<^sup>* (creating ses) s \<and> length (limitations s) = max_limitations + 1)"
proof
  show "\<forall>s. reducer_step\<^sup>*\<^sup>* (creating ses) s \<longrightarrow> length (limitations s) \<le> max_limitations + 1"
    using reachable_in_session by (fastforce simp: in_session_def session_wf_def limitations_ok_def)
  obtain s where s: "reducer_step\<^sup>*\<^sup>* (creating ses) s" "limitations s = map mark [0..<max_limitations - 1]"
    using dirty_history [of "max_limitations - 1"] by auto
  define s1 where "s1 = fst (bump_revision (reduce (s\<lparr>event_seq := event_seq s + 1\<rparr>) (EvidenceGap [])))"
  define s2 where "s2 = fst (bump_revision (reduce (s1\<lparr>event_seq := event_seq s1 + 1\<rparr>)
    (DomainEvent.ConsistencyDirty (mark 70))))"
  have steps: "reducer_step s s1" "reducer_step s1 s2"
    unfolding s1_def s2_def by (rule apply_event_step, simp)+
  have "evidence_gap_prefix \<notin> set (map mark [0..<max_limitations - 1])"
    using mark_ordinary(2) [of _ "[]"] by (auto simp: image_iff) metis
  then have l1: "limitations s1 = evidence_gap_prefix # map mark [0..<max_limitations - 1]"
    using s(2) by (simp add: s1_def reduce_evidence_gap_def Let_def max_limitations_def)
  have "mark 70 \<notin> set (limitations s1)" "limitations_omitted \<notin> set (limitations s1)"
    using mark_ordinary(2) [of 70 "[]"] omitted_not_gap
    by (auto simp: l1 max_limitations_def starts_with_iff)
  then have "limitations s2 = limitations s1 @ [limitations_omitted]"
    by (simp add: s2_def reduce_dirty_def mark_dirty_def push_limitation_def l1 max_limitations_def)
  then have "length (limitations s2) = max_limitations + 1" by (simp add: l1 max_limitations_def)
  then show "\<exists>s. reducer_step\<^sup>*\<^sup>* (creating ses) s \<and> length (limitations s) = max_limitations + 1"
    using s(1) steps by (meson rtranclp.rtrancl_into_rtrancl)
qed

theorem limitations_bound_is_65_witness:
  "length (limitations (fst (fail_closed (creating ''sess_w'')))) \<le> max_limitations + 1"
  using limitations_bound_is_65 [of "''sess_w''"] one_step [OF reducer_step.closed] by blast


end
