(* ===== verification/Normalize.thy ===== *)
theory Normalize
  imports Reducer MI_Parser
begin

text \<open>
  Normalisation of MI records into domain events, \<open>crates/gdb-ai-core/src/normalize.rs\<close>, and the
  two encodings of captured bytes that replies carry.  The standard base64 alphabet comes from the
  \<open>base64\<close> crate: its encoder is a parameter.  The lemmas show that the encoded form of captured
  output determines the bytes, and which events a debugger record can produce at all.
\<close>

section \<open>Fields\<close>

definition normalization_version :: nat where
  "normalization_version = 2"

definition text_field :: "MiResult list \<Rightarrow> string \<Rightarrow> string option" where
  "text_field results name = find_str results name"

definition frame_summary_fields :: "MiResult list \<Rightarrow> FrameSummary" where
  "frame_summary_fields fs =
     \<lparr>frame_level = (case Option.bind (find_str fs ''level'') (from_str_radix 32 10) of
        Some level \<Rightarrow> level | None \<Rightarrow> 0),
      frame_address = text_field fs ''addr'',
      frame_function = text_field fs ''func'',
      frame_module = text_field fs ''from'',
      frame_source = (case text_field fs ''fullname'' of
        Some full \<Rightarrow> Some full | None \<Rightarrow> text_field fs ''file''),
      frame_line = Option.bind (find_str fs ''line'') (from_str_radix 32 10)\<rparr>"

definition breakpoint_event :: "MiResult list \<Rightarrow> bool \<Rightarrow> DomainEvent option" where
  "breakpoint_event results modified =
     Option.bind (Option.bind (find_result results ''bkpt'') value_results) (\<lambda>fields.
     Option.bind (text_field fields ''number'') (\<lambda>backend_number.
       let enabled = (case text_field fields ''enabled'' of None \<Rightarrow> True | Some v \<Rightarrow> v = ''y'');
           pending = (text_field fields ''pending'' = Some ''y'' \<or>
                      text_field fields ''addr'' = Some ''<PENDING>'')
       in Some (if modified then BreakpointModified backend_number enabled pending
                else BreakpointCreated backend_number enabled pending)))"

definition breakpoint_number :: "MiRecord \<Rightarrow> string result" where
  "breakpoint_number record =
     ok_or (new_error GdbError ''GDB returned no breakpoint number'')
       (Option.bind (Option.bind (find_result (record_results record) ''bkpt'') value_results)
         (\<lambda>fields. find_str fields ''number''))"

section \<open>Stops\<close>

definition watch_fields :: "MiResult list \<Rightarrow> MiResult list option" where
  "watch_fields results =
     find_map (\<lambda>name. Option.bind (find_result results name) value_results)
       [''wpt'', ''hw-rwpt'', ''hw-awpt'']"

definition normalize_reason :: "MiResult list \<Rightarrow> string \<Rightarrow> StopReason" where
  "normalize_reason results raw_reason =
     (if raw_reason = ''breakpoint-hit'' then
        Breakpoint (text_field results ''bkptno'') (text_field results ''disp'')
      else if raw_reason = ''watchpoint-trigger'' \<or> raw_reason = ''read-watchpoint-trigger'' \<or>
              raw_reason = ''access-watchpoint-trigger'' then
        (let fields = watch_fields results
         in Watchpoint (Option.bind fields (\<lambda>f. text_field f ''number''))
              (Option.bind fields (\<lambda>f. text_field f ''exp'')) raw_reason)
      else if raw_reason = ''signal-received'' then
        Signal (text_field results ''signal-name'') (text_field results ''signal-meaning'')
      else if raw_reason = ''end-stepping-range'' then EndSteppingRange
      else if raw_reason = ''function-finished'' then FunctionFinished
      else if raw_reason = ''location-reached'' then LocationReached
      else if raw_reason = ''interrupt'' then Interrupt
      else StopReason.Unknown raw_reason)"

definition stopped_event :: "MiResult list \<Rightarrow> DomainEvent" where
  "stopped_event results =
     (let raw_reason = (case find_str results ''reason'' of Some r \<Rightarrow> r | None \<Rightarrow> ''unknown'');
          backend_inferior = find_str results ''thread-group''
      in if starts_with raw_reason ''exited''
         then InferiorExited backend_inferior (find_str results ''exit-code'') True
         else DomainEvent.TargetStopped backend_inferior (find_str results ''thread-id'') raw_reason
                (Some (normalize_reason results raw_reason))
                (map_option frame_summary_fields
                  (Option.bind (find_result results ''frame'') value_results)))"

section \<open>Notifications\<close>

definition or_first :: "string option \<Rightarrow> string" where
  "or_first x = (case x of Some s \<Rightarrow> s | None \<Rightarrow> ''i1'')"

definition notification :: "string \<Rightarrow> MiResult list \<Rightarrow> DomainEvent option" where
  "notification cls results =
     (if cls = ''thread-group-added'' \<or> cls = ''thread-group-started'' then
        Some (InferiorAdded (or_first (text_field results ''id''))
                (Option.bind (find_str results ''pid'') (from_str_radix 64 10)))
      else if cls = ''thread-group-removed'' then
        map_option InferiorRemoved (text_field results ''id'')
      else if cls = ''thread-group-exited'' then
        map_option (\<lambda>i. InferiorExited (Some i) (text_field results ''exit-code'') False)
          (text_field results ''id'')
      else if cls = ''thread-created'' then
        map_option (ThreadCreated (or_first (text_field results ''group-id'')))
          (text_field results ''id'')
      else if cls = ''thread-exited'' then
        map_option (ThreadExited (text_field results ''group-id'')) (text_field results ''id'')
      else if cls = ''breakpoint-created'' then breakpoint_event results False
      else if cls = ''breakpoint-modified'' then breakpoint_event results True
      else if cls = ''breakpoint-deleted'' then
        map_option BreakpointDeleted (text_field results ''id'')
      else if cls = ''library-loaded'' then
        map_option (\<lambda>i. LibraryLoaded i (text_field results ''target-name'')
            (text_field results ''host-name'')
            (map_option (\<lambda>v. v = ''1'') (text_field results ''symbols-loaded'')))
          (text_field results ''id'')
      else if cls = ''library-unloaded'' then
        map_option LibraryUnloaded (text_field results ''id'')
      else if cls = ''memory-changed'' then Some MemoryChanged
      else if cls = ''thread-selected'' \<or> cls = ''cmd-param-changed'' then None
      else Some (UnknownBackendNotification (''notify:'' @ cls)))"

fun normalize :: "MiRecord \<Rightarrow> DomainEvent option" where
  "normalize (ExecAsync _ cls results) =
     (if cls = ''running'' then
        Some (DomainEvent.TargetRunning
          (case find_str results ''thread-group'' of Some g \<Rightarrow> [g] | None \<Rightarrow> []))
      else if cls = ''stopped'' then Some (stopped_event results)
      else Some (UnknownBackendEvent (''exec:'' @ cls)))"
| "normalize (NotifyAsync _ cls results) = notification cls results"
| "normalize (ConsoleStream bytes) = Some (Output GdbConsoleStream bytes)"
| "normalize (TargetStream bytes) = Some (Output MiTargetStream bytes)"
| "normalize (LogStream bytes) = Some (Output GdbLogStream bytes)"
| "normalize (Result _ _ _) = None"
| "normalize (StatusAsync _ _ _) = None"
| "normalize Prompt = None"

section \<open>Captured bytes in replies\<close>

text \<open>No control character but line feed, carriage return and tab.  The control characters are
  U+0000 to U+001F, U+007F and U+0080 to U+009F, the last encoded as \<open>C2\<close> and a byte up to
  \<open>9F\<close>.\<close>

fun readable :: "bytes \<Rightarrow> bool" where
  "readable [] = True"
| "readable (b # rest) =
     ((b < 0x20 \<longrightarrow> b = b_nl \<or> b = b_cr \<or> b = b_tab) \<and> b \<noteq> 0x7F \<and>
      (b = 0xC2 \<longrightarrow> (case rest of b1 # _ \<Rightarrow> 0x9F < b1 | [] \<Rightarrow> True)) \<and> readable rest)"

definition byte_content :: "(bytes \<Rightarrow> string) \<Rightarrow> bytes \<Rightarrow> (string, Json) btree" where
  "byte_content base64 bs =
     (case from_utf8 bs of
        Some content \<Rightarrow>
          if readable bs
          then bt_insert ''text'' (JString content)
                 (bt_insert ''encoding'' (JString ''utf-8'') [])
          else bt_insert ''data_base64'' (JString (base64 bs))
                 (bt_insert ''encoding'' (JString ''binary'') [])
      | None \<Rightarrow> bt_insert ''data_base64'' (JString (base64 bs))
                 (bt_insert ''encoding'' (JString ''binary'') []))"

fun stream_step :: "MiRecord \<Rightarrow> bytes \<times> bytes \<times> bytes \<Rightarrow> bytes \<times> bytes \<times> bytes" where
  "stream_step (ConsoleStream bs) (console, target, lg) = (console @ bs, target, lg)"
| "stream_step (TargetStream bs) (console, target, lg) = (console, target @ bs, lg)"
| "stream_step (LogStream bs) (console, target, lg) = (console, target, lg @ bs)"
| "stream_step _ acc = acc"

definition insert_content ::
  "(bytes \<Rightarrow> string) \<Rightarrow> string \<times> bytes \<Rightarrow> (string, Json) btree \<Rightarrow> (string, Json) btree" where
  "insert_content base64 nb output = (case nb of (name, bs) \<Rightarrow>
     if bs \<noteq> [] then bt_insert name (JObject (byte_content base64 bs)) output else output)"

definition command_output ::
  "(bytes \<Rightarrow> string) \<Rightarrow> MiRecord list \<Rightarrow> bool \<Rightarrow> (string, Json) btree" where
  "command_output base64 records truncated =
     (case fold stream_step records ([], [], []) of (console, target, lg) \<Rightarrow>
        let output = fold (insert_content base64)
              [(''console'', console), (''target'', target), (''log'', lg)] []
        in if truncated then bt_insert ''truncated'' (JBool True) output else output)"

section \<open>What a record can become\<close>

text \<open>The events that only the server itself records: lifecycle, snapshots, command outcomes,
  consistency and the other decisions about a session.\<close>

fun debugger_event :: "DomainEvent \<Rightarrow> bool" where
  "debugger_event (DomainEvent.TargetRunning _) = True"
| "debugger_event (DomainEvent.TargetStopped _ _ _ detail _) = (detail \<noteq> None)"
| "debugger_event (InferiorAdded _ _) = True"
| "debugger_event (InferiorRemoved _) = True"
| "debugger_event (InferiorExited _ _ _) = True"
| "debugger_event (ThreadCreated _ _) = True"
| "debugger_event (ThreadExited _ _) = True"
| "debugger_event (BreakpointCreated _ _ _) = True"
| "debugger_event (BreakpointModified _ _ _) = True"
| "debugger_event (BreakpointDeleted _) = True"
| "debugger_event (LibraryLoaded _ _ _ _) = True"
| "debugger_event (LibraryUnloaded _) = True"
| "debugger_event MemoryChanged = True"
| "debugger_event (Output source _) =
     (source \<in> {GdbConsoleStream, MiTargetStream, GdbLogStream})"
| "debugger_event (UnknownBackendEvent _) = True"
| "debugger_event (UnknownBackendNotification _) = True"
| "debugger_event _ = False"

lemma breakpoint_event_debugger: "breakpoint_event results m = Some e \<Longrightarrow> debugger_event e"
  by (auto simp: breakpoint_event_def Let_def bind_eq_Some_conv)

lemma notification_debugger: "notification cls results = Some e \<Longrightarrow> debugger_event e"
  by (auto simp: notification_def split: if_splits intro: breakpoint_event_debugger)

lemma stopped_event_debugger: "debugger_event (stopped_event results)"
  by (simp add: stopped_event_def Let_def)

lemma normalize_debugger: "normalize r = Some e \<Longrightarrow> debugger_event e"
  by (cases r) (auto simp: stopped_event_debugger notification_debugger split: if_splits)

lemmas debugger_branch_defs =
  reduce_inferior_added_def reduce_inferior_removed_def reduce_inferior_exited_def
  reduce_target_running_def reduce_target_stopped_def reduce_thread_created_def
  reduce_thread_exited_def reduce_breakpoint_upsert_def reduce_tainted_def reduce_dirty_def
  mark_dirty_def ensure_inferior_def clear_stop_context_def push_limitation_def Let_def

text \<open>The parts of a session that no debugger record can touch or repair.\<close>

definition server_owned :: "SessionState \<Rightarrow> SessionState \<Rightarrow> bool" where
  "server_owned s s' \<longleftrightarrow>
     session_id s' = session_id s \<and> target_origin s' = target_origin s \<and>
     signal_policies s' = signal_policies s \<and>
     outcome_unknown_tokens s' = outcome_unknown_tokens s \<and>
     lifecycle s' \<in> {lifecycle s, SessionLifecycle.Active} \<and>
     backend s' \<in> {backend s, BackendHealth.Healthy} \<and>
     consistency s' \<in> {consistency s, Consistency.ManagedDirty, Consistency.Tainted} \<and>
     (reconciliation_required s \<longrightarrow> reconciliation_required s') \<and>
     set (limitations s) \<subseteq> set (limitations s') \<and>
     snapshot s' \<in> {None, snapshot s, Some (building_snapshot (stop_from_event (session_id s) (event_seq s)))}"

lemma debugger_event_server_owned:
  assumes "debugger_event e"
  shows "server_owned s (fst (reduce s e))"
  using assms
  by (cases e)
    (auto simp: server_owned_def debugger_branch_defs split: option.splits prod.splits)

section \<open>Captured bytes are kept\<close>

text \<open>The bytes a reply object stands for, given a base64 decoder: exactly one of the two forms is
  present.\<close>

definition reply_bytes :: "(string \<Rightarrow> bytes option) \<Rightarrow> (string, Json) btree \<Rightarrow> bytes option" where
  "reply_bytes decode m =
     (case (Option.bind (bt_get m ''encoding'') json_as_str,
            bt_get m ''text'', bt_get m ''data_base64'') of
        (Some encoding, Some (JString content), None) \<Rightarrow>
          if encoding = ''utf-8'' then Some (as_bytes content) else None
      | (Some encoding, None, Some (JString content)) \<Rightarrow>
          if encoding = ''binary'' then decode content else None
      | _ \<Rightarrow> None)"

definition captured :: "(string \<Rightarrow> bytes option) \<Rightarrow> (string, Json) btree \<Rightarrow> string \<Rightarrow> bytes option" where
  "captured decode output name =
     (case bt_get output name of
        None \<Rightarrow> Some []
      | Some v \<Rightarrow> Option.bind (json_as_object v) (reply_bytes decode))"

fun console_bytes :: "MiRecord \<Rightarrow> bytes" where
  "console_bytes (ConsoleStream bs) = bs"
| "console_bytes _ = []"

fun target_bytes :: "MiRecord \<Rightarrow> bytes" where
  "target_bytes (TargetStream bs) = bs"
| "target_bytes _ = []"

fun log_bytes :: "MiRecord \<Rightarrow> bytes" where
  "log_bytes (LogStream bs) = bs"
| "log_bytes _ = []"

lemma fold_stream_step:
  "fold stream_step rs (c, t, l) =
     (c @ concat (map console_bytes rs), t @ concat (map target_bytes rs),
      l @ concat (map log_bytes rs))"
proof (induction rs arbitrary: c t l)
  case (Cons r rs)
  then show ?case by (cases r) auto
qed simp

lemma byte_content_lossless:
  assumes "\<And>bs. decode (base64 bs) = Some bs"
  shows "reply_bytes decode (byte_content base64 bs) = Some bs"
  using assms
  by (simp add: reply_bytes_def byte_content_def from_utf8_def bt_get_def)

lemma bt_wf_insert_content [simp]: "bt_wf m \<Longrightarrow> bt_wf (insert_content base64 nb m)"
  by (simp add: insert_content_def btree.wf_insert split: prod.splits)

lemma captured_insert_content:
  assumes "\<And>bs. decode (base64 bs) = Some bs" and "bt_wf m" and "bt_get m name = None"
  shows "captured decode (insert_content base64 (name, bs) m) k =
    (if k = name then Some bs else captured decode m k)"
  using assms byte_content_lossless [of decode base64]
  by (auto simp: insert_content_def captured_def btree.get_insert)

lemma insert_content_other:
  "bt_wf m \<Longrightarrow> k \<noteq> name \<Longrightarrow> bt_get (insert_content base64 (name, bs) m) k = bt_get m k"
  by (simp add: insert_content_def btree.get_insert)

text \<open>C29.  Captured output is returned without loss: whatever bytes GDB's console, target and log
  streams carried during a command, valid UTF-8 or not, the reply determines the concatenation of
  each stream exactly, in exactly one encoding per stream, and says that output was truncated
  exactly when it was.  The base64 crate is assumed to decode what it encoded.\<close>

theorem command_output_lossless:
  assumes "\<And>bs. decode (base64 bs) = Some bs"
  shows "let output = command_output base64 records truncated in
    captured decode output ''console'' = Some (concat (map console_bytes records)) \<and>
    captured decode output ''target'' = Some (concat (map target_bytes records)) \<and>
    captured decode output ''log'' = Some (concat (map log_bytes records)) \<and>
    bt_get output ''truncated'' = (if truncated then Some (JBool True) else None)"
proof -
  have flag: "captured decode (bt_insert ''truncated'' v m) k = captured decode m k"
    if "k \<noteq> ''truncated''" "bt_wf m" for v m k
    using that by (simp add: captured_def btree.get_insert)
  have empty: "captured decode [] k = Some []" for k by (simp add: captured_def)
  show ?thesis
    using captured_insert_content [OF assms]
    by (simp add: Let_def command_output_def fold_stream_step flag empty insert_content_other
        btree.get_insert)
qed

theorem command_output_lossless_witness:
  "captured (\<lambda>s. Some (as_bytes s))
     (command_output string_of_bytes [ConsoleStream [0x68, 0x69], LogStream [0xFF, 0x00], Prompt] True)
     ''log'' = Some [0xFF, 0x00]"
  using command_output_lossless [of "\<lambda>s. Some (as_bytes s)" string_of_bytes
      "[ConsoleStream [0x68, 0x69], LogStream [0xFF, 0x00], Prompt]" True]
  by (simp add: Let_def)

end
