(* ===== verification/Encoding.thy ===== *)
theory Encoding
  imports Domain
begin

text \<open>
  The value codecs of \<open>crates/gdb-ai-core/src/gateway/operations/encoding.rs\<close> and the parameter
  accessors of \<open>operations/request.rs\<close>: hexadecimal memory contents, the numbers, strings and
  addresses GDB prints, input bytes, and bounded request parameters.  The lemmas show that the
  hexadecimal codec is exact on both sides and that canonical addresses are read back as the number
  they denote.
\<close>

section \<open>Words of a string\<close>

text \<open>The number of bytes of the whitespace character a string starts with, zero if it starts with
  none.  Unicode's \<open>White_Space\<close>: U+0009 to U+000D, U+0020, U+0085, U+00A0, U+1680, U+2000 to
  U+200A, U+2028, U+2029, U+202F, U+205F and U+3000, in UTF-8.\<close>

fun ws_len :: "bytes \<Rightarrow> nat" where
  "ws_len [] = 0"
| "ws_len (b0 # rest) =
     (if (0x09 \<le> b0 \<and> b0 \<le> 0x0D) \<or> b0 = 0x20 then 1
      else (case rest of
          b1 # rest1 \<Rightarrow>
            if b0 = 0xC2 \<and> (b1 = 0x85 \<or> b1 = 0xA0) then 2
            else (case rest1 of
                b2 # _ \<Rightarrow>
                  if (b0 = 0xE1 \<and> b1 = 0x9A \<and> b2 = 0x80) \<or>
                     (b0 = 0xE2 \<and> b1 = 0x80 \<and>
                       (b2 \<le> 0x8A \<and> 0x80 \<le> b2 \<or> b2 = 0xA8 \<or> b2 = 0xA9 \<or> b2 = 0xAF)) \<or>
                     (b0 = 0xE2 \<and> b1 = 0x81 \<and> b2 = 0x9F) \<or>
                     (b0 = 0xE3 \<and> b1 = 0x80 \<and> b2 = 0x80) then 3 else 0
              | [] \<Rightarrow> 0)
        | [] \<Rightarrow> 0))"

definition add_word :: "string \<Rightarrow> string list \<Rightarrow> string list" where
  "add_word w ws = (if w = [] then ws else w # ws)"

function split_words :: "string \<Rightarrow> string \<Rightarrow> string list" where
  "split_words w [] = add_word w []"
| "split_words w (c # cs) =
     (let n = ws_len (as_bytes (c # cs))
      in if n = 0 then split_words (w @ [c]) cs
         else add_word w (split_words [] (drop (n - 1) cs)))"
  by pat_completeness auto
termination by (relation "measure (\<lambda>(w, s). length s)") auto

definition split_whitespace :: "string \<Rightarrow> string list" where
  "split_whitespace s = split_words [] s"

definition trim_matches :: "(char \<Rightarrow> bool) \<Rightarrow> string \<Rightarrow> string" where
  "trim_matches P s = rev (dropWhile P (rev (dropWhile P s)))"

text \<open>\<open>str::find\<close> of a pattern string: the byte offset of its first occurrence.\<close>

fun find_substring :: "string \<Rightarrow> string \<Rightarrow> nat option" where
  "find_substring p [] = (if p = [] then Some 0 else None)"
| "find_substring p (c # cs) =
     (if starts_with (c # cs) p then Some 0 else map_option Suc (find_substring p cs))"

section \<open>Hexadecimal bytes\<close>

definition malformed_hex :: Error where
  "malformed_hex = new_error GdbError ''GDB returned malformed hexadecimal bytes''"

definition hex_nibble :: "u8 \<Rightarrow> u8 result" where
  "hex_nibble b =
     (if 0x30 \<le> b \<and> b \<le> 0x39 then Ok (b - 0x30)
      else if 0x61 \<le> b \<and> b \<le> 0x66 then Ok (b - 0x61 + 10)
      else if 0x41 \<le> b \<and> b \<le> 0x46 then Ok (b - 0x41 + 10)
      else Err malformed_hex)"

fun hex_pairs :: "bytes \<Rightarrow> bytes result" where
  "hex_pairs (b0 # b1 # rest) =
     bind_res (hex_nibble b0) (\<lambda>hi. bind_res (hex_nibble b1) (\<lambda>lo.
       bind_res (hex_pairs rest) (\<lambda>bs. Ok ((push_bit 4 hi OR lo) # bs))))"
| "hex_pairs _ = Ok []"

definition hex_decode :: "string \<Rightarrow> bytes result" where
  "hex_decode s =
     (if length s mod 2 \<noteq> 0 then Err malformed_hex else hex_pairs (as_bytes s))"

definition hex_char :: "u8 \<Rightarrow> char" where
  "hex_char n = ''0123456789abcdef'' ! unat n"

definition hex_encode :: "bytes \<Rightarrow> string" where
  "hex_encode bs = concat (map (\<lambda>b. [hex_char (drop_bit 4 b), hex_char (b AND 0x0F)]) bs)"

section \<open>Numbers and strings GDB prints\<close>

definition gdb_value_error :: "string \<Rightarrow> Error" where
  "gdb_value_error v = new_error GdbError (''GDB value is not an unsigned integer: '' @ v)"

definition parse_gdb_u64 :: "string \<Rightarrow> nat result" where
  "parse_gdb_u64 v =
     (let digits = (case find_substring ''0x'' v of
            Some start \<Rightarrow> takeWhile is_ascii_hexdigit (drop (start + 2) v)
          | None \<Rightarrow> [])
      in if digits \<noteq> []
         then ok_or (new_error GdbError ''invalid GDB hexadecimal value'')
                (from_str_radix 64 16 digits)
         else ok_or (gdb_value_error v)
                (find_map (\<lambda>word. from_str_radix 64 10 (trim_matches (\<lambda>c. \<not> digit_c c) word))
                  (split_whitespace v)))"

definition least_offset :: "nat option \<Rightarrow> nat option \<Rightarrow> nat option" where
  "least_offset a b =
     (case a of None \<Rightarrow> b | Some m \<Rightarrow> (case b of None \<Rightarrow> a | Some n \<Rightarrow> Some (min m n)))"

definition gdb_c_string :: "string \<Rightarrow> string" where
  "gdb_c_string v =
     (let v1 = (case position (\<lambda>c. c = CHR 0x22) v of Some quote \<Rightarrow> drop (quote + 1) v | None \<Rightarrow> v);
          e = (case least_offset (find_substring (CHR 0x5C # ''000'') v1)
                 (position (\<lambda>c. c = CHR 0x22) v1) of Some n \<Rightarrow> n | None \<Rightarrow> length v1)
      in rev (dropWhile (\<lambda>c. c = CHR 0x22) (rev (take e v1))))"

definition address_bracket :: "char \<Rightarrow> bool" where
  "address_bracket c \<longleftrightarrow> c = CHR ''('' \<or> c = CHR '')'' \<or> c = CHR '',''"

definition parse_address :: "string \<Rightarrow> nat result" where
  "parse_address v =
     (let ws = split_whitespace v;
          first = trim_matches address_bracket (case ws of w # _ \<Rightarrow> w | [] \<Rightarrow> v);
          direct = (case strip_prefix ''0x'' first of
              Some digits \<Rightarrow> from_str_radix 64 16 digits
            | None \<Rightarrow> from_str_radix 64 10 first);
          scanned = (case direct of
              Some n \<Rightarrow> Some n
            | None \<Rightarrow>
                if \<not> starts_with first ''{'' then None
                else find_map (\<lambda>word. Option.bind (strip_prefix ''0x'' (trim_matches address_bracket word))
                         (from_str_radix 64 16)) (tl ws))
      in ok_or (new_error GdbError (''invalid GDB address: '' @ v)) scanned)"

definition first_word :: "string \<Rightarrow> string" where
  "first_word command = (case split_whitespace command of w # _ \<Rightarrow> w | [] \<Rightarrow> ''unknown'')"

section \<open>Request parameters\<close>

definition max_inferior_input_bytes :: nat where
  "max_inferior_input_bytes = 64 * 1024"

text \<open>The base64 decoder and the text of its errors are the \<open>base64\<close> crate's.\<close>

definition input_bytes :: "(string \<Rightarrow> (string, bytes) res) \<Rightarrow> Json \<Rightarrow> bytes result" where
  "input_bytes decode parameters =
     (case Option.bind (json_get parameters ''data_base64'') json_as_str of
        Some encoded \<Rightarrow>
          (case decode encoded of
             Ok bs \<Rightarrow> Ok bs
           | Err msg \<Rightarrow> Err (new_error InvalidArgument (''invalid data_base64: '' @ msg)))
      | None \<Rightarrow>
          (case Option.bind (json_get parameters ''text'') json_as_str of
             Some content \<Rightarrow> Ok (as_bytes content)
           | None \<Rightarrow> Err (new_error InvalidArgument ''text or data_base64 is required'')))"

definition string_parameter :: "Json \<Rightarrow> string \<Rightarrow> string result" where
  "string_parameter v name =
     (case Option.bind (json_get v name) json_as_str of
        Some s \<Rightarrow> if s \<noteq> [] then Ok s else Err (new_error InvalidArgument (name @ '' is required''))
      | None \<Rightarrow> Err (new_error InvalidArgument (name @ '' is required'')))"

definition unsigned_parameter :: "Json \<Rightarrow> string \<Rightarrow> nat result" where
  "unsigned_parameter v name =
     ok_or (new_error InvalidArgument (name @ '' must be unsigned''))
       (Option.bind (json_get v name) json_as_u64)"

definition bool_value :: "Json \<Rightarrow> string \<Rightarrow> bool \<Rightarrow> bool" where
  "bool_value v name dflt =
     (case Option.bind (json_get v name) json_as_bool of Some b \<Rightarrow> b | None \<Rightarrow> dflt)"

definition bounded_limit :: "Json \<Rightarrow> nat \<Rightarrow> nat \<Rightarrow> nat result" where
  "bounded_limit v dflt maximum =
     (let lim = (case Option.bind (json_get v ''limit'') json_as_u64 of Some n \<Rightarrow> n | None \<Rightarrow> dflt)
      in if lim = 0 \<or> lim > maximum
         then Err (new_error InvalidArgument (''limit must be between 1 and '' @ show_nat maximum))
         else Ok lim)"

definition bounded_offset :: "Json \<Rightarrow> nat \<Rightarrow> string \<Rightarrow> nat result" where
  "bounded_offset v maximum subject =
     (let off = (case Option.bind (json_get v ''offset'') json_as_u64 of Some n \<Rightarrow> n | None \<Rightarrow> 0)
      in if off > maximum
         then Err (new_error OutputLimit
                (subject @ '' offset must not exceed '' @ show_nat maximum))
         else Ok off)"

section \<open>The hexadecimal codec is exact\<close>

definition ascii_lower :: "char \<Rightarrow> char" where
  "ascii_lower c =
     (if 65 \<le> (of_char c :: nat) \<and> (of_char c :: nat) \<le> 90 then char_of (of_char c + 32 :: nat) else c)"

lemma hex_table: "''0123456789abcdef'' = map digit_char [0..<16]"
  by (simp add: upt_rec digit_char_def char_of_def bit_0)

lemma hex_char_eq: "unat n < 16 \<Longrightarrow> hex_char n = digit_char (unat n)"
  by (simp add: hex_char_def hex_table del: upt_rec_numeral)

lemma bit_low_mask: "bit (0x0F :: int) n \<longleftrightarrow> n < 4" "bit (0x0F :: nat) n \<longleftrightarrow> n < 4"
proof -
  have "(0x0F :: int) = mask 4" "(0x0F :: nat) = mask 4" by (simp_all add: mask_eq_exp_minus_1)
  then show "bit (0x0F :: int) n \<longleftrightarrow> n < 4" "bit (0x0F :: nat) n \<longleftrightarrow> n < 4"
    by (simp_all only: bit_mask_iff possible_bit_def) auto
qed

lemma bit_nibble:
  assumes "unat (x :: u8) < 16" "bit x n"
  shows "n < 4"
proof -
  have "take_bit 4 (unat x) = unat x" using assms(1) by (simp add: take_bit_nat_eq_self)
  moreover have "bit (unat x) n" using assms(2) by (simp add: bit_unsigned_iff bit_imp_le_length)
  ultimately show ?thesis by (metis bit_take_bit_iff)
qed

lemmas nibble_bits = bit_and_iff bit_or_iff bit_push_bit_iff bit_drop_bit_eq bit_low_mask

lemma nibbles: "push_bit 4 (drop_bit 4 b) OR (b AND 0x0F) = (b :: u8)"
  by (rule bit_word_eqI) (auto simp: nibble_bits)

lemma push_or_parts:
  assumes "unat hi < 16" "unat lo < 16"
  shows "drop_bit 4 (push_bit 4 hi OR lo) = (hi :: u8)" "(push_bit 4 hi OR lo) AND 0x0F = lo"
  by (auto intro!: bit_word_eqI simp: nibble_bits
      dest: bit_nibble [OF assms(1)] bit_nibble [OF assms(2)])

lemma high_nibble_less: "unat (drop_bit 4 b :: u8) < 16"
  using unat_u8_less [of b] by (simp add: drop_bit_eq_div unat_div less_mult_imp_div_less)

lemma low_nibble_less: "unat (b AND 0x0F :: u8) < 16"
proof -
  have "b AND 0x0F \<le> (0x0F :: u8)" by (rule word_and_le1)
  then show ?thesis by (simp add: word_le_nat_alt)
qed

lemma hex_nibble_digit:
  assumes "unat n < 16"
  shows "hex_nibble (byte_of_char (hex_char n)) = Ok n"
proof (cases "unat n < 10")
  case True
  then have "byte_of_char (hex_char n) = 0x30 + n"
    by (simp add: hex_char_eq byte_of_char_def digit_char_def)
  with True show ?thesis by (simp add: hex_nibble_def word_le_nat_alt unat_word_ariths)
next
  case False
  then have "byte_of_char (hex_char n) = 0x57 + n"
    using assms by (simp add: hex_char_eq byte_of_char_def digit_char_def)
  with False assms show ?thesis by (simp add: hex_nibble_def word_le_nat_alt unat_word_ariths)
qed

lemma hex_nibble_lower:
  assumes "hex_nibble (byte_of_char c) = Ok n"
  shows "unat n < 16 \<and> hex_char n = ascii_lower c"
proof -
  let ?k = "of_char c :: nat"
  have cases: "48 \<le> ?k \<and> ?k \<le> 57 \<and> unat n = ?k - 48 \<or> 97 \<le> ?k \<and> ?k \<le> 102 \<and> unat n = ?k - 87 \<or>
      65 \<le> ?k \<and> ?k \<le> 70 \<and> unat n = ?k - 55"
    using assms
    by (auto simp: hex_nibble_def word_le_nat_alt unat_word_ariths unat_sub_if_size word_size
        split: if_splits)
  then have "unat n < 16" by linarith
  moreover have "char_of (?k :: nat) = c" by simp
  ultimately show ?thesis
    using cases by (auto simp: hex_char_eq digit_char_def ascii_lower_def)
qed

lemma hex_pairs_encode: "hex_pairs (as_bytes (hex_encode bs)) = Ok bs"
  by (induction bs)
    (simp_all add: hex_encode_def hex_nibble_digit high_nibble_less low_nibble_less nibbles)

lemma hex_pairs_exact:
  assumes "even (length s)" "hex_pairs (as_bytes s) = Ok bs"
  shows "length s = 2 * length bs \<and> hex_encode bs = map ascii_lower s"
  using assms
proof (induction "as_bytes s" arbitrary: s bs rule: hex_pairs.induct)
  case (1 b0 b1 rest)
  obtain c0 c1 t where s: "s = c0 # c1 # t" "b0 = byte_of_char c0" "b1 = byte_of_char c1"
      "rest = as_bytes t"
    using 1(2) by (cases s; cases "tl s") auto
  from 1(4) s obtain hi lo cs where
    hi: "hex_nibble (byte_of_char c0) = Ok hi" and lo: "hex_nibble (byte_of_char c1) = Ok lo" and
    cs: "hex_pairs (as_bytes t) = Ok cs" "bs = (push_bit 4 hi OR lo) # cs"
    by (auto simp: result_simps)
  have "length t = 2 * length cs \<and> hex_encode cs = map ascii_lower t"
    using 1(1) [OF s(4) _ cs(1)] 1(3) s(1) by simp
  then show ?case
    using hex_nibble_lower [OF hi] hex_nibble_lower [OF lo] push_or_parts [of hi lo] s cs
    by (simp add: hex_encode_def)
next
  case "2_1"
  then show ?case by (cases s) (auto simp: hex_encode_def)
next
  case "2_2"
  then show ?case by (cases s; cases "tl s") auto
qed

lemma hex_nibble_error: "hex_nibble b = Err e \<Longrightarrow> e = malformed_hex"
  by (simp add: hex_nibble_def split: if_splits)

lemma hex_pairs_error:
  "hex_pairs bs = Err e \<Longrightarrow> e = malformed_hex \<and> (\<exists>b \<in> set bs. hex_nibble b = Err malformed_hex)"
  by (induction bs rule: hex_pairs.induct) (auto simp: result_simps dest: hex_nibble_error)

text \<open>C32.  The hexadecimal codec of memory contents is exact: decoding the encoded bytes gives the
  bytes back, a decoded string is the encoding of its bytes up to the case of its letters and twice
  as long, and a string is refused, as a GDB error, only when its length is odd or it contains a
  character that is no hexadecimal digit.\<close>

theorem hex_codec_exact:
  "hex_decode (hex_encode contents) = Ok contents \<and>
   (case hex_decode s of
      Ok bs \<Rightarrow> length s = 2 * length bs \<and> hex_encode bs = map ascii_lower s
    | Err e \<Rightarrow> err_code e = GdbError \<and>
        (odd (length s) \<or> (\<exists>c \<in> set s. \<not> is_ok (hex_nibble (byte_of_char c)))))"
proof (rule conjI)
  have "length (hex_encode contents) mod 2 = 0"
    by (induction contents) (auto simp: hex_encode_def)
  then show "hex_decode (hex_encode contents) = Ok contents"
    by (simp add: hex_decode_def hex_pairs_encode)
next
  show "case hex_decode s of
      Ok bs \<Rightarrow> length s = 2 * length bs \<and> hex_encode bs = map ascii_lower s
    | Err e \<Rightarrow> err_code e = GdbError \<and>
        (odd (length s) \<or> (\<exists>c \<in> set s. \<not> is_ok (hex_nibble (byte_of_char c))))"
  proof (cases "hex_decode s")
    case (Inr bs)
    then have "even (length s)" "hex_pairs (as_bytes s) = Ok bs"
      by (auto simp: hex_decode_def even_iff_mod_2_eq_zero split: if_splits)
    with Inr show ?thesis using hex_pairs_exact by simp
  next
    case (Inl e)
    then have "e = malformed_hex \<and> (odd (length s) \<or>
        (\<exists>c \<in> set s. \<not> is_ok (hex_nibble (byte_of_char c))))"
      using hex_pairs_error [of "as_bytes s" e]
      by (auto simp: hex_decode_def as_bytes_def odd_iff_mod_2_eq_one split: if_splits
          intro!: bexI)
    with Inl show ?thesis by (simp add: malformed_hex_def new_error_def)
  qed
qed

theorem hex_codec_exact_witness:
  "hex_decode (hex_encode [0xDE, 0x00]) = Ok [0xDE, 0x00] \<and> \<not> is_ok (hex_decode ''abc'')"
  using hex_codec_exact [of "[0xDE, 0x00]" "''abc''"]
  by (auto simp: hex_decode_def)

section \<open>Canonical addresses are read back\<close>

definition printable :: "char \<Rightarrow> bool" where
  "printable c \<longleftrightarrow> 0x21 \<le> byte_of_char c \<and> byte_of_char c \<le> 0x7E"

lemma ws_len_printable:
  assumes "printable c"
  shows "ws_len (as_bytes (c # cs)) = 0"
proof -
  let ?b = "byte_of_char c"
  have r: "0x21 \<le> unat ?b" "unat ?b \<le> 0x7E"
    using assms by (simp_all add: printable_def word_le_nat_alt)
  then have "\<not> (0x09 \<le> ?b \<and> ?b \<le> 0x0D)" "?b \<noteq> 0x20" "?b \<noteq> 0xC2" "?b \<noteq> 0xE1" "?b \<noteq> 0xE2" "?b \<noteq> 0xE3"
    by (auto simp: word_le_nat_alt simp del: unat_byte_of_char)
  then show ?thesis by (simp split: list.split)
qed

lemma split_words_printable:
  "list_all printable s \<Longrightarrow> split_words w s = add_word (w @ s) []"
proof (induction s arbitrary: w)
  case (Cons c s)
  then show ?case using ws_len_printable [of c s] by (simp del: as_bytes_simps ws_len.simps)
qed simp

lemma hexdigit_printable:
  "is_ascii_hexdigit c \<Longrightarrow> printable c \<and> \<not> address_bracket c"
  by (auto simp: is_ascii_hexdigit_def to_digit_def printable_def word_le_nat_alt
      address_bracket_def Let_def split: if_splits)

lemma trim_matches_none:
  assumes "\<forall>c \<in> set s. \<not> P c"
  shows "trim_matches P s = s"
proof -
  have "dropWhile P t = t" if "\<forall>c \<in> set t. \<not> P c" for t
    using that by (cases t) auto
  from this [of s] this [of "rev s"] assms show ?thesis by (simp add: trim_matches_def)
qed

lemma parse_address_hex:
  assumes "list_all is_ascii_hexdigit ds" "ds \<noteq> []" "length ds \<le> 16" "digits_value 16 0 ds = Some n"
  shows "parse_address (''0x'' @ ds) = Ok n"
proof -
  let ?s = "''0x'' @ ds"
  have zero: "is_ascii_hexdigit (CHR ''0'')" by (simp add: is_ascii_hexdigit_def to_digit_def)
  have x: "printable (CHR ''x'')" "\<not> address_bracket (CHR ''x'')"
    by (simp_all add: printable_def byte_of_char_def address_bracket_def)
  have "list_all printable ?s" and nb: "\<forall>c \<in> set ?s. \<not> address_bracket c"
    using assms(1) hexdigit_printable [OF zero] x hexdigit_printable by (auto simp: list_all_iff)
  then have "split_whitespace ?s = [?s]"
    by (simp add: split_whitespace_def split_words_printable add_word_def del: append.simps)
  moreover have "trim_matches address_bracket ?s = ?s" by (rule trim_matches_none [OF nb])
  moreover have "from_str_radix 64 16 ds = Some n" using from_str_radix_hex [OF assms(1-3)] assms(4) by auto
  ultimately show ?thesis
    by (simp add: parse_address_def Let_def ok_or_def strip_prefix_def del: append.simps)
      (simp add: numeral_2_eq_2)
qed

end
