(* ===== verification/Mi_Command.thy ===== *)
theory Mi_Command
  imports MI_Encoder Encoding Policy Reducer_Inv
begin

text \<open>
  MI commands as the gateway builds them: \<open>MiCommand\<close> of \<open>crates/gdb-ai-core/src/backend.rs\<close> with
  its validated name and arguments, and the raw console and raw MI commands of
  \<open>gateway/operations/raw.rs\<close> up to the point where they are sent.  The lemmas show that a built
  command is one line whatever its arguments contain, and what raw MI can never name.
\<close>

section \<open>Commands\<close>

datatype MiArgument = Bare string | String bytes

record MiCommand =
  cmd_name :: string
  cmd_arguments :: "MiArgument list"

definition command_new :: "string \<Rightarrow> MiCommand result" where
  "command_new name =
     (if \<not> starts_with name ''-'' \<or> length name < 2 \<or>
         \<not> list_all (\<lambda>b. is_ascii_alphanumeric b \<or> b = 0x2D) (drop 1 (as_bytes name))
      then Err (new_error InvalidArgument
        ''MI command name must be a dash followed by letters, digits, or dashes'')
      else Ok \<lparr>cmd_name = name, cmd_arguments = []\<rparr>)"

definition command_bare :: "MiCommand \<Rightarrow> string \<Rightarrow> MiCommand result" where
  "command_bare c v =
     (if v = [] \<or> list_ex (\<lambda>b. is_ascii_whitespace b \<or> b = b_cr \<or> b = b_nl) (as_bytes v)
      then Err (new_error InvalidArgument ''bare MI argument contains whitespace'')
      else Ok (c\<lparr>cmd_arguments := cmd_arguments c @ [Bare v]\<rparr>))"

definition command_string :: "MiCommand \<Rightarrow> bytes \<Rightarrow> MiCommand" where
  "command_string c v = c\<lparr>cmd_arguments := cmd_arguments c @ [String v]\<rparr>"

fun argument_text :: "MiArgument \<Rightarrow> string" where
  "argument_text (Bare v) = v"
| "argument_text (String v) = quote_c_string v"

definition encoded :: "MiCommand \<Rightarrow> nat \<Rightarrow> bytes" where
  "encoded c token =
     as_bytes (fold (\<lambda>argument line. line @ '' '' @ argument_text argument) (cmd_arguments c)
       (show_nat token @ cmd_name c) @ [CHR 0x0A])"

section \<open>Raw commands\<close>












section \<open>Built commands\<close>

inductive built :: "MiCommand \<Rightarrow> bool" where
  new: "command_new name = Ok c \<Longrightarrow> built c"
| bare: "built c \<Longrightarrow> command_bare c v = Ok c' \<Longrightarrow> built c'"
| string: "built c \<Longrightarrow> built (command_string c v)"

definition line_char :: "char \<Rightarrow> bool" where
  "line_char c \<longleftrightarrow> byte_of_char c \<noteq> b_nl \<and> byte_of_char c \<noteq> b_cr"

definition name_char :: "char \<Rightarrow> bool" where
  "name_char c \<longleftrightarrow> is_ascii_alphanumeric (byte_of_char c) \<or> byte_of_char c = 0x2D"

lemma command_new_Ok:
  "command_new name = Ok c \<longleftrightarrow>
     (\<exists>rest. name = CHR ''-'' # rest \<and> rest \<noteq> [] \<and> list_all name_char rest \<and>
       c = \<lparr>cmd_name = name, cmd_arguments = []\<rparr>)"
  by (cases name)
    (auto simp: command_new_def as_bytes_def list_all_iff name_char_def Suc_le_eq split: if_splits)

lemma quoted_line_char: "c \<in> set (quote_c_string bs) \<Longrightarrow> line_char c"
proof -
  assume "c \<in> set (quote_c_string bs)"
  then consider "c = CHR 0x22" | b where "c \<in> set (quote_byte b)" by (auto simp: quote_c_string_def)
  then show "line_char c"
  proof cases
    case 1
    then show ?thesis by (simp add: line_char_def byte_of_char_def)
  next
    case (2 b)
    from quote_byte_printable [OF this] show ?thesis
      by (auto simp: line_char_def word_le_nat_alt dest: arg_cong [where f = unat])
  qed
qed

lemma bare_line_char: "command_bare c v = Ok c' \<Longrightarrow> x \<in> set v \<Longrightarrow> line_char x"
  by (auto simp: command_bare_def line_char_def list_ex_iff as_bytes_def split: if_splits)

lemma built_shape:
  "built c \<Longrightarrow>
     (\<exists>rest. cmd_name c = CHR ''-'' # rest \<and> rest \<noteq> [] \<and> list_all name_char rest) \<and>
     (\<forall>a \<in> set (cmd_arguments c). \<forall>x \<in> set (argument_text a). line_char x)"
proof (induction rule: built.induct)
  case (new name c)
  then show ?case by (auto simp: command_new_Ok)
next
  case (bare c v c')
  moreover from bare(2) have "c' = c\<lparr>cmd_arguments := cmd_arguments c @ [Bare v]\<rparr>"
    by (simp add: command_bare_def split: if_splits)
  ultimately show ?case using bare_line_char [OF bare(2)] by auto
next
  case (string c v)
  then show ?case using quoted_line_char by (auto simp: command_string_def)
qed

definition argument_tail :: "MiCommand \<Rightarrow> string" where
  "argument_tail c = concat (map (\<lambda>a. '' '' @ argument_text a) (cmd_arguments c))"

lemma encoded_eq:
  "encoded c t = as_bytes (show_nat t @ cmd_name c @ argument_tail c) @ [b_nl]"
proof -
  have "fold (\<lambda>a l. l @ '' '' @ argument_text a) as acc =
      acc @ concat (map (\<lambda>a. '' '' @ argument_text a) as)" for as acc
    by (induction as arbitrary: acc) auto
  then show ?thesis by (simp add: encoded_def argument_tail_def byte_of_char_def)
qed

lemma name_char_facts:
  "name_char c \<Longrightarrow> line_char c" "name_char c \<Longrightarrow> c \<noteq> CHR '' ''"
  by (auto simp: name_char_def line_char_def is_ascii_alphanumeric_def is_ascii_digit_def
      word_le_nat_alt byte_of_char_def [of "CHR '' ''"] dest: arg_cong [where f = unat])

lemma digit_line_char: "digit_c c \<Longrightarrow> line_char c"
  by (auto simp: line_char_def is_ascii_digit_def word_le_nat_alt dest: arg_cong [where f = unat])

lemma dash_facts [simp]: "line_char (CHR ''-'')" "line_char (CHR '' '')" "\<not> digit_c (CHR ''-'')"
  by (simp_all add: line_char_def byte_of_char_def is_ascii_digit_def)

lemma body_line_chars:
  assumes "built c" "x \<in> set (show_nat t @ cmd_name c @ argument_tail c)"
  shows "line_char x"
  using built_shape [OF assms(1)] assms(2) show_nat_digits [of t]
  by (auto simp: argument_tail_def list_all_iff split: if_splits
      intro: digit_line_char name_char_facts(1))

lemma name_end:
  assumes "built c"
  shows "takeWhile (\<lambda>x. x \<noteq> CHR '' '') (cmd_name c @ argument_tail c) = cmd_name c"
proof -
  have "\<forall>x \<in> set (cmd_name c). x \<noteq> CHR '' ''"
    using built_shape [OF assms] by (auto simp: list_all_iff dest: name_char_facts(2))
  moreover have "takeWhile (\<lambda>x. x \<noteq> CHR '' '') (argument_tail c) = []"
    by (cases "cmd_arguments c") (simp_all add: argument_tail_def)
  ultimately show ?thesis by (simp add: takeWhile_append2)
qed

text \<open>C33.  A command is one line: whatever its arguments contain, the bytes sent for a built command
  end with a line feed and contain no other line feed and no carriage return, so no argument can
  smuggle in a second command; and the line determines the token and the name of its command.\<close>

theorem command_one_line:
  assumes "built c" "built d"
  shows "(\<exists>body. encoded c t = body @ [b_nl] \<and> b_nl \<notin> set body \<and> b_cr \<notin> set body) \<and>
    (encoded c t = encoded d u \<longrightarrow> t = u \<and> cmd_name c = cmd_name d)"
proof (intro conjI impI)
  let ?body = "show_nat t @ cmd_name c @ argument_tail c"
  have "x \<noteq> b_nl \<and> x \<noteq> b_cr" if x: "x \<in> set (as_bytes ?body)" for x
  proof -
    obtain ch where "ch \<in> set ?body" "x = byte_of_char ch"
      using x unfolding as_bytes_def set_map by blast
    then show ?thesis using body_line_chars [OF assms(1), of ch t] by (simp add: line_char_def)
  qed
  then have "b_nl \<notin> set (as_bytes ?body)" "b_cr \<notin> set (as_bytes ?body)" by blast+
  then show "\<exists>body. encoded c t = body @ [b_nl] \<and> b_nl \<notin> set body \<and> b_cr \<notin> set body"
    using encoded_eq by blast
next
  assume "encoded c t = encoded d u"
  then have eq: "show_nat t @ cmd_name c @ argument_tail c = show_nat u @ cmd_name d @ argument_tail d"
    by (simp only: encoded_eq append1_eq_conv) (metis string_of_bytes_as_bytes)
  have digits: "takeWhile digit_c (show_nat n @ cmd_name e @ argument_tail e) = show_nat n"
    if "built e" for e n
    using built_shape [OF that] show_nat_digits [of n] by (auto simp: takeWhile_append2)
  have "show_nat t = show_nat u"
    using digits [OF assms(1)] digits [OF assms(2)] eq by metis
  then show "t = u" by simp
  with eq show "cmd_name c = cmd_name d"
    using name_end [OF assms(1)] name_end [OF assms(2)] by simp
qed

theorem command_one_line_witness:
  "\<exists>body. encoded (command_string \<lparr>cmd_name = ''-gdb-version'', cmd_arguments = []\<rparr>
      (as_bytes (''a'' @ [CHR 0x0A] @ ''-gdb-exit''))) 7 = body @ [b_nl] \<and> b_nl \<notin> set body"
proof -
  have "command_new ''-gdb-version'' = Ok \<lparr>cmd_name = ''-gdb-version'', cmd_arguments = []\<rparr>"
    by (simp add: command_new_Ok name_char_def is_ascii_alphanumeric_def is_ascii_digit_def byte_of_char_def)
  then have "built (command_string \<lparr>cmd_name = ''-gdb-version'', cmd_arguments = []\<rparr>
      (as_bytes (''a'' @ [CHR 0x0A] @ ''-gdb-exit'')))"
    by (intro built.string built.new)
  from command_one_line [OF this this] show ?thesis by blast
qed

section \<open>Raw requests are contained\<close>







end
