(* ===== verification/Live_State.thy ===== *)
theory Live_State
  imports Reducer_Props
begin

text \<open>
  The publication boundary of \<open>crates/gdb-ai-core/src/session/state.rs\<close>.  The watched value is what
  readers of a session see; in durable mode the actor works on a staged copy that it publishes
  after its checkpoint.  \<open>ls_wakeups\<close> counts the notifications of the watch channel, which the
  \<open>tokio\<close> channel delivers to its readers.
\<close>

record LiveState =
  ls_published :: SessionState
  ls_staged :: "SessionState option"
  ls_wakeups :: nat

definition live_new :: "SessionState \<Rightarrow> bool \<Rightarrow> LiveState" where
  "live_new s durable =
     \<lparr>ls_published = s, ls_staged = (if durable then Some s else None), ls_wakeups = 0\<rparr>"

definition live_borrow :: "LiveState \<Rightarrow> SessionState" where
  "live_borrow ls = (case ls_staged ls of Some s \<Rightarrow> s | None \<Rightarrow> ls_published ls)"

text \<open>\<open>send_replace\<close> stores a value and wakes the readers.\<close>

definition send_replace :: "SessionState \<Rightarrow> LiveState \<Rightarrow> LiveState" where
  "send_replace s ls = ls\<lparr>ls_published := s, ls_wakeups := ls_wakeups ls + 1\<rparr>"

text \<open>\<open>after\<close> is the callback that updates the actor's other data from the new state; it runs only
  when the event was accepted, before any reader is woken.\<close>

definition live_apply_event_with ::
  "(SessionState \<Rightarrow> 'w \<Rightarrow> 'w) \<Rightarrow> nat \<Rightarrow> DomainEvent \<Rightarrow> LiveState \<times> 'w \<Rightarrow> bool result \<times> LiveState \<times> 'w"
  where
  "live_apply_event_with after sequence event lw =
     (case lw of (ls, w) \<Rightarrow>
        (case ls_staged ls of
           Some r \<Rightarrow>
             (case apply_event r sequence event of
                Err e \<Rightarrow> (Err e, ls, w)
              | Ok (s', changed) \<Rightarrow> (Ok changed, ls\<lparr>ls_staged := Some s'\<rparr>, after s' w))
         | None \<Rightarrow>
             (case apply_event (ls_published ls) sequence event of
                Err e \<Rightarrow> (Err e, ls, w)
              | Ok (s', changed) \<Rightarrow> (Ok changed, send_replace s' ls, after s' w))))"

definition live_apply_event :: "nat \<Rightarrow> DomainEvent \<Rightarrow> LiveState \<Rightarrow> bool result \<times> LiveState" where
  "live_apply_event sequence event ls =
     (case live_apply_event_with (\<lambda>_ w. w) sequence event (ls, ()) of (r, ls', _) \<Rightarrow> (r, ls'))"

definition live_publish :: "LiveState \<Rightarrow> LiveState" where
  "live_publish ls = (case ls_staged ls of Some s \<Rightarrow> send_replace s ls | None \<Rightarrow> ls)"

text \<open>In performance mode \<open>fail_closed_state\<close> changes the watched value in place, and the readers
  are woken only for a change.\<close>

definition live_fail_closed :: "LiveState \<Rightarrow> bool \<times> LiveState" where
  "live_fail_closed ls =
     (case ls_staged ls of
        Some r \<Rightarrow>
          (case fail_closed r of (s', changed) \<Rightarrow>
             let ls1 = ls\<lparr>ls_staged := Some s'\<rparr>
             in (changed, if changed then send_replace s' ls1 else ls1))
      | None \<Rightarrow>
          (case fail_closed (ls_published ls) of (s', changed) \<Rightarrow>
             (changed, if changed then send_replace s' ls else ls\<lparr>ls_published := s'\<rparr>)))"

end
