(* ===== verification/Actions.thy ===== *)
theory Actions
  imports GDB_Prelude
begin

text \<open>
  Stateful code that can fail: a Rust method on \<open>&mut self\<close> returning a \<open>Result\<close> is a function from
  the state to the result and the new state.  The state a failing method leaves behind is kept,
  because the sources go on after an error.  The triples \<open>after_ok\<close> say what holds when a method
  returns without error, \<open>keeps\<close> what it preserves in either case.
\<close>

type_synonym ('s, 'e, 'a) act = "'s \<Rightarrow> ('e, 'a) res \<times> 's"

definition act_return :: "'a \<Rightarrow> ('s, 'e, 'a) act" where
  "act_return x s = (Ok x, s)"

definition act_fail :: "'e \<Rightarrow> ('s, 'e, 'a) act" where
  "act_fail e s = (Err e, s)"

text \<open>Sequencing with the \<open>?\<close> operator.\<close>

definition act_bind :: "('s, 'e, 'a) act \<Rightarrow> ('a \<Rightarrow> ('s, 'e, 'b) act) \<Rightarrow> ('s, 'e, 'b) act" where
  "act_bind m f s = (case m s of (Err e, s') \<Rightarrow> (Err e, s') | (Ok x, s') \<Rightarrow> f x s')"

text \<open>Sequencing that hands the whole result to the continuation, for code that looks at an error
  before it goes on.\<close>

definition act_then :: "('s, 'e, 'a) act \<Rightarrow> (('e, 'a) res \<Rightarrow> ('s, 'e, 'b) act) \<Rightarrow> ('s, 'e, 'b) act" where
  "act_then m f s = (case m s of (r, s') \<Rightarrow> f r s')"

definition act_update :: "('s \<Rightarrow> 's) \<Rightarrow> ('s, 'e, unit) act" where
  "act_update f s = (Ok (), f s)"

definition act_get :: "('s \<Rightarrow> 'a) \<Rightarrow> ('s, 'e, 'a) act" where
  "act_get f s = (Ok (f s), s)"

definition act_result :: "('e, 'a) res \<Rightarrow> ('s, 'e, 'a) act" where
  "act_result r s = (r, s)"

section \<open>Triples\<close>

definition after_ok ::
  "('s \<Rightarrow> bool) \<Rightarrow> ('s, 'e, 'a) act \<Rightarrow> ('a \<Rightarrow> 's \<Rightarrow> bool) \<Rightarrow> bool" where
  "after_ok P m Q \<longleftrightarrow> (\<forall>s x s'. P s \<longrightarrow> m s = (Ok x, s') \<longrightarrow> Q x s')"

definition keeps :: "('s \<Rightarrow> bool) \<Rightarrow> ('s, 'e, 'a) act \<Rightarrow> bool" where
  "keeps P m \<longleftrightarrow> (\<forall>s r s'. P s \<longrightarrow> m s = (r, s') \<longrightarrow> P s')"

named_theorems act_defs \<open>the monad unfolded\<close>
named_theorems act_rules \<open>composition of triples\<close>

declare act_return_def [act_defs] act_fail_def [act_defs] act_bind_def [act_defs]
  act_then_def [act_defs] act_update_def [act_defs] act_get_def [act_defs] act_result_def [act_defs]

lemma act_bind_Ok:
  "act_bind m f s = (Ok y, s') \<longleftrightarrow> (\<exists>x t. m s = (Ok x, t) \<and> f x t = (Ok y, s'))"
  by (auto simp: act_bind_def split: prod.splits sum.splits)

lemma after_okD: "after_ok P m Q \<Longrightarrow> P s \<Longrightarrow> m s = (Ok x, s') \<Longrightarrow> Q x s'"
  by (simp add: after_ok_def)

lemma keepsD: "keeps P m \<Longrightarrow> P s \<Longrightarrow> m s = (r, s') \<Longrightarrow> P s'"
  by (simp add: keeps_def)

lemma after_ok_bind [act_rules]:
  assumes "after_ok P m R" "\<And>x. after_ok (R x) (f x) Q"
  shows "after_ok P (act_bind m f) Q"
  unfolding after_ok_def act_bind_Ok
  by (intro allI impI, elim exE conjE) (rule after_okD [OF assms(2)], rule after_okD [OF assms(1)])

lemma after_ok_return [act_rules]: "(\<And>s. P s \<Longrightarrow> Q x s) \<Longrightarrow> after_ok P (act_return x) Q"
  by (simp add: after_ok_def act_return_def)

lemma after_ok_fail [act_rules]: "after_ok P (act_fail e) Q"
  by (simp add: after_ok_def act_fail_def)

lemma after_ok_update [act_rules]:
  "(\<And>s. P s \<Longrightarrow> Q () (f s)) \<Longrightarrow> after_ok P (act_update f) Q"
  by (simp add: after_ok_def act_update_def)

lemma after_ok_get [act_rules]: "(\<And>s. P s \<Longrightarrow> Q (f s) s) \<Longrightarrow> after_ok P (act_get f) Q"
  by (simp add: after_ok_def act_get_def)

lemma after_ok_if [act_rules]:
  "(b \<Longrightarrow> after_ok P m Q) \<Longrightarrow> (\<not> b \<Longrightarrow> after_ok P n Q) \<Longrightarrow> after_ok P (if b then m else n) Q"
  by simp

lemma after_ok_weaken:
  assumes "after_ok P m Q" "\<And>s. P' s \<Longrightarrow> P s" "\<And>x s. Q x s \<Longrightarrow> Q' x s"
  shows "after_ok P' m Q'"
  unfolding after_ok_def by (intro allI impI) (rule assms(3), rule after_okD [OF assms(1)], rule assms(2))

lemma keeps_bind [act_rules]:
  assumes "keeps P m" "\<And>x. keeps P (f x)"
  shows "keeps P (act_bind m f)"
  unfolding keeps_def
proof (intro allI impI)
  fix s r s' assume s: "P s" "act_bind m f s = (r, s')"
  obtain r0 t where t: "m s = (r0, t)" by (cases "m s")
  have "P t" by (rule keepsD [OF assms(1) s(1) t])
  show "P s'"
  proof (cases r0)
    case (Inl e)
    with s(2) t \<open>P t\<close> show ?thesis by (simp add: act_bind_def)
  next
    case (Inr x)
    with s(2) t have "f x t = (r, s')" by (simp add: act_bind_def)
    then show ?thesis by (rule keepsD [OF assms(2) \<open>P t\<close>])
  qed
qed

lemma keeps_then [act_rules]:
  assumes "keeps P m" "\<And>r. keeps P (f r)"
  shows "keeps P (act_then m f)"
  unfolding keeps_def
proof (intro allI impI)
  fix s r s' assume s: "P s" "act_then m f s = (r, s')"
  obtain r0 t where t: "m s = (r0, t)" by (cases "m s")
  with s(2) have "f r0 t = (r, s')" by (simp add: act_then_def)
  then show "P s'" by (rule keepsD [OF assms(2) keepsD [OF assms(1) s(1) t]])
qed

lemma keeps_simple [act_rules]:
  "keeps P (act_return x)" "keeps P (act_fail e)" "keeps P (act_get g)" "keeps P (act_result r)"
  by (simp_all add: keeps_def act_defs)

lemma keeps_update [act_rules]: "(\<And>s. P s \<Longrightarrow> P (f s)) \<Longrightarrow> keeps P (act_update f)"
  by (simp add: keeps_def act_update_def)

lemma keeps_if [act_rules]: "(b \<Longrightarrow> keeps P m) \<Longrightarrow> (\<not> b \<Longrightarrow> keeps P n) \<Longrightarrow> keeps P (if b then m else n)"
  by simp

end
