(* ===== verification/Journal.thy ===== *)
theory Journal
  imports Actions Normalize
begin

text \<open>
  The session journal of \<open>crates/gdb-ai-core/src/journal.rs\<close>: numbered records, the byte limit, the
  performance mode that stops recording and notes the gap, and the durable mode that fails instead.

  The JSON text of a record is \<open>serde_json\<close>'s, and base64 is the \<open>base64\<close> crate's; both come in
  through the record \<open>Codec\<close>, whose type parameter is the type of JSON values.  What the operating
  system answers to the write, flush and sync calls of one operation is the parameter \<open>JournalIo\<close>.
  \<open>jr_written\<close> is the sequence of complete records the buffered writer has accepted; after a failed
  write or flush the writer is dropped and nothing is added any more.
\<close>

section \<open>Records and codecs\<close>

datatype JournalDurability = Performance | Durable

record 'v JournalEntry =
  ent_seq :: nat
  ent_kind :: string
  ent_data :: 'v

record JournalGap =
  gap_from_seq :: nat
  gap_reason :: string

text \<open>Serialisation: objects, strings and numbers of \<open>json!\<close>, the derived encodings of events,
  states and gaps, and the text of one record; and the corresponding readers, whose errors carry
  the message of the other crate.\<close>

record 'v Codec =
  cd_object :: "(string \<times> 'v) list \<Rightarrow> 'v"
  cd_string :: "string \<Rightarrow> 'v"
  cd_number :: "nat \<Rightarrow> 'v"
  cd_event :: "DomainEvent \<Rightarrow> 'v"
  cd_state :: "SessionState \<Rightarrow> 'v"
  cd_gap :: "JournalGap \<Rightarrow> 'v"
  cd_line :: "'v JournalEntry \<Rightarrow> string"
  cd_base64 :: "bytes \<Rightarrow> string"
  cd_get :: "'v \<Rightarrow> string \<Rightarrow> 'v option"
  cd_as_str :: "'v \<Rightarrow> string option"
  cd_as_u64 :: "'v \<Rightarrow> nat option"
  cd_from_event :: "'v \<Rightarrow> (string, DomainEvent) res"
  cd_from_state :: "'v \<Rightarrow> (string, SessionState) res"
  cd_from_gap :: "'v \<Rightarrow> (string, JournalGap) res"
  cd_parse :: "string \<Rightarrow> (string, 'v JournalEntry) res"
  cd_unbase64 :: "string \<Rightarrow> (string, bytes) res"

section \<open>Error texts\<close>

primrec error_code_debug :: "ErrorCode \<Rightarrow> string" where
  "error_code_debug InvalidArgument = ''InvalidArgument''"
| "error_code_debug InvalidState = ''InvalidState''"
| "error_code_debug StaleRevision = ''StaleRevision''"
| "error_code_debug StaleContext = ''StaleContext''"
| "error_code_debug NotFound = ''NotFound''"
| "error_code_debug AlreadyExists = ''AlreadyExists''"
| "error_code_debug Conflict = ''Conflict''"
| "error_code_debug WriteLeaseRequired = ''WriteLeaseRequired''"
| "error_code_debug WriteLeaseExpired = ''WriteLeaseExpired''"
| "error_code_debug PolicyDenied = ''PolicyDenied''"
| "error_code_debug CapabilityMissing = ''CapabilityMissing''"
| "error_code_debug Unsupported = ''Unsupported''"
| "error_code_debug ErrorCode.TargetRunning = ''TargetRunning''"
| "error_code_debug ErrorCode.TargetStopped = ''TargetStopped''"
| "error_code_debug TargetExited = ''TargetExited''"
| "error_code_debug ErrorCode.TargetDisconnected = ''TargetDisconnected''"
| "error_code_debug TargetUnavailable = ''TargetUnavailable''"
| "error_code_debug Timeout = ''Timeout''"
| "error_code_debug ErrorCode.Cancelled = ''Cancelled''"
| "error_code_debug EventGap = ''EventGap''"
| "error_code_debug StreamClosed = ''StreamClosed''"
| "error_code_debug OutputLimit = ''OutputLimit''"
| "error_code_debug MemoryPreconditionFailed = ''MemoryPreconditionFailed''"
| "error_code_debug PartialRead = ''PartialRead''"
| "error_code_debug GdbError = ''GdbError''"
| "error_code_debug GdbUnresponsive = ''GdbUnresponsive''"
| "error_code_debug GdbExited = ''GdbExited''"
| "error_code_debug MiParseError = ''MiParseError''"
| "error_code_debug MiProtocolLimit = ''MiProtocolLimit''"
| "error_code_debug ErrorCode.ConsistencyDirty = ''ConsistencyDirty''"
| "error_code_debug ErrorCode.ConsistencyLost = ''ConsistencyLost''"
| "error_code_debug Internal = ''Internal''"

definition error_string :: "Error \<Rightarrow> string" where
  "error_string e = error_code_debug (err_code e) @ '': '' @ err_message e"

text \<open>\<open>From<std::io::Error>\<close> and \<open>From<serde_json::Error>\<close>.\<close>

definition external_error :: "string \<Rightarrow> Error" where
  "external_error msg = new_error Internal msg"

section \<open>The journal\<close>

record 'v Journal =
  jr_open :: bool
  jr_written :: "'v JournalEntry list"
  jr_next_seq :: nat
  jr_written_seq :: nat
  jr_flushed_seq :: nat
  jr_bytes_written :: nat
  jr_max_bytes :: nat
  jr_unflushed :: nat
  jr_durability :: JournalDurability
  jr_gap :: "JournalGap option"

text \<open>The outcome of the writer calls of one operation: an error text, or success.  An operation
  makes at most one of each call.\<close>

record JournalIo =
  io_write :: "string option"
  io_flush :: "string option"
  io_sync :: "string option"
  io_marker :: "string option"

definition create_with_durability :: "nat \<Rightarrow> JournalDurability \<Rightarrow> 'v Journal" where
  "create_with_durability max_bytes durability =
     \<lparr>jr_open = True, jr_written = [], jr_next_seq = 1, jr_written_seq = 0, jr_flushed_seq = 0,
      jr_bytes_written = 0, jr_max_bytes = max_bytes, jr_unflushed = 0,
      jr_durability = durability, jr_gap = None\<rparr>"

definition is_durable :: "'v Journal \<Rightarrow> bool" where
  "is_durable j \<longleftrightarrow> jr_durability j = Durable"

definition stop_recording :: "Error \<Rightarrow> nat \<Rightarrow> ('v Journal, Error, unit) act" where
  "stop_recording error from_seq j =
     (if is_durable j then (Err error, j)
      else (Ok (), j\<lparr>jr_gap := Some \<lparr>gap_from_seq = from_seq, gap_reason = error_string error\<rparr>,
                     jr_open := False\<rparr>))"

definition journal_flush :: "JournalIo \<Rightarrow> ('v Journal, Error, unit) act" where
  "journal_flush io j =
     (if jr_unflushed j = 0 \<or> \<not> jr_open j then (Ok (), j)
      else (case io_flush io of
          Some msg \<Rightarrow> stop_recording (external_error msg) (jr_flushed_seq j + 1) j
        | None \<Rightarrow>
            (case (if is_durable j then io_sync io else None) of
               Some msg \<Rightarrow> (Err (external_error msg), j)
             | None \<Rightarrow> (Ok (), j\<lparr>jr_unflushed := 0, jr_flushed_seq := jr_written_seq j\<rparr>))))"

definition line_bytes :: "'v Codec \<Rightarrow> 'v JournalEntry \<Rightarrow> nat" where
  "line_bytes cd entry = length (cd_line cd entry) + 1"

definition limit_error :: Error where
  "limit_error = new_error OutputLimit ''session journal byte limit reached''"

definition gap_entry :: "'v Codec \<Rightarrow> nat \<Rightarrow> 'v JournalEntry" where
  "gap_entry cd seq =
     \<lparr>ent_seq = seq, ent_kind = ''journal.gap'',
      ent_data = cd_gap cd \<lparr>gap_from_seq = seq, gap_reason = error_string limit_error\<rparr>\<rparr>"

definition write_marker :: "'v Codec \<Rightarrow> JournalIo \<Rightarrow> nat \<Rightarrow> 'v Journal \<Rightarrow> 'v Journal" where
  "write_marker cd io seq j =
     (if saturating_add (jr_bytes_written j) (line_bytes cd (gap_entry cd seq)) \<le> jr_max_bytes j \<and>
         jr_open j \<and> io_marker io = None
      then j\<lparr>jr_written := jr_written j @ [gap_entry cd seq]\<rparr> else j)"

definition reach_limit :: "'v Codec \<Rightarrow> JournalIo \<Rightarrow> nat \<Rightarrow> ('v Journal, Error, nat) act" where
  "reach_limit cd io seq =
     act_bind (journal_flush io) (\<lambda>_ j.
       if jr_gap j = None
       then act_bind (stop_recording limit_error seq) (\<lambda>_. act_return seq) (write_marker cd io seq j)
       else (Ok seq, j))"

definition accept_record :: "'v Codec \<Rightarrow> 'v JournalEntry \<Rightarrow> 'v Journal \<Rightarrow> 'v Journal" where
  "accept_record cd entry j =
     j\<lparr>jr_written := jr_written j @ [entry], jr_bytes_written := jr_bytes_written j + line_bytes cd entry,
       jr_written_seq := ent_seq entry, jr_unflushed := jr_unflushed j + 1\<rparr>"

definition append_entry ::
  "'v Codec \<Rightarrow> JournalIo \<Rightarrow> string \<Rightarrow> 'v \<Rightarrow> ('v Journal, Error, nat) act" where
  "append_entry cd io kind data j =
     (let seq = jr_next_seq j;
          j1 = j\<lparr>jr_next_seq := seq + 1\<rparr>;
          entry = \<lparr>ent_seq = seq, ent_kind = kind, ent_data = data\<rparr>;
          reserved = (if is_durable j1 then 0 else 256)
      in if \<not> jr_open j1 then (Ok seq, j1)
         else if saturating_add (jr_bytes_written j1) (line_bytes cd entry) > jr_max_bytes j1 - reserved
         then if is_durable j1 then (Err limit_error, j1) else reach_limit cd io seq j1
         else (case io_write io of
             Some msg \<Rightarrow>
               act_bind (stop_recording (external_error msg) (jr_flushed_seq j1 + 1))
                 (\<lambda>_. act_return seq) j1
           | None \<Rightarrow>
               let j2 = accept_record cd entry j1
               in if jr_unflushed j2 \<ge> 64
                  then act_bind (journal_flush io) (\<lambda>_. act_return seq) j2
                  else (Ok seq, j2)))"

definition flush_boundary :: "JournalIo \<Rightarrow> nat \<Rightarrow> ('v Journal, Error, nat) act" where
  "flush_boundary io sequence j =
     (if is_durable j then act_bind (journal_flush io) (\<lambda>_. act_return sequence) j
      else (Ok sequence, j))"

section \<open>The kinds of record\<close>

definition append_session_created ::
  "'v Codec \<Rightarrow> JournalIo \<Rightarrow> string \<Rightarrow> ('v Journal, Error, nat) act" where
  "append_session_created cd io session =
     append_entry cd io ''session.created''
       (cd_object cd [(''session_id'', cd_string cd session),
                      (''normalization_version'', cd_number cd normalization_version)])"

definition append_api :: "'v Codec \<Rightarrow> JournalIo \<Rightarrow> 'v \<Rightarrow> ('v Journal, Error, nat) act" where
  "append_api cd io request =
     act_bind (append_entry cd io ''api.request'' request) (flush_boundary io)"

definition append_base64 ::
  "'v Codec \<Rightarrow> JournalIo \<Rightarrow> string \<Rightarrow> bytes \<Rightarrow> ('v Journal, Error, nat) act" where
  "append_base64 cd io kind bs =
     append_entry cd io kind (cd_object cd [(''raw_base64'', cd_string cd (cd_base64 cd bs))])"

definition append_mi_input ::
  "'v Codec \<Rightarrow> JournalIo \<Rightarrow> nat \<Rightarrow> bytes \<Rightarrow> ('v Journal, Error, nat) act" where
  "append_mi_input cd io tok raw =
     append_entry cd io ''mi.input''
       (cd_object cd [(''raw_base64'', cd_string cd (cd_base64 cd raw)), (''token'', cd_number cd tok)])"

definition append_mi_output :: "'v Codec \<Rightarrow> JournalIo \<Rightarrow> bytes \<Rightarrow> ('v Journal, Error, nat) act" where
  "append_mi_output cd io raw = append_base64 cd io ''mi.output'' raw"

definition append_gdb_stderr :: "'v Codec \<Rightarrow> JournalIo \<Rightarrow> bytes \<Rightarrow> ('v Journal, Error, nat) act" where
  "append_gdb_stderr cd io bs = append_base64 cd io ''gdb.stderr'' bs"

definition append_inferior_output ::
  "'v Codec \<Rightarrow> JournalIo \<Rightarrow> nat \<Rightarrow> nat \<Rightarrow> nat \<Rightarrow> ('v Journal, Error, nat) act" where
  "append_inferior_output cd io offset len dropped =
     append_entry cd io ''inferior.output''
       (cd_object cd [(''offset'', cd_number cd offset), (''length'', cd_number cd len),
                      (''dropped_bytes'', cd_number cd dropped)])"

definition append_inferior_input :: "'v Codec \<Rightarrow> JournalIo \<Rightarrow> bytes \<Rightarrow> ('v Journal, Error, nat) act" where
  "append_inferior_input cd io bs = append_base64 cd io ''inferior.input'' bs"

definition append_inferior_output_evidence ::
  "'v Codec \<Rightarrow> JournalIo \<Rightarrow> 'v \<Rightarrow> ('v Journal, Error, nat) act" where
  "append_inferior_output_evidence cd io evidence =
     append_entry cd io ''inferior.output.evidence'' evidence"

definition append_domain_ref ::
  "'v Codec \<Rightarrow> JournalIo \<Rightarrow> DomainEvent \<Rightarrow> ('v Journal, Error, nat) act" where
  "append_domain_ref cd io event = append_entry cd io ''normalized.event'' (cd_event cd event)"

definition append_domain ::
  "'v Codec \<Rightarrow> JournalIo \<Rightarrow> DomainEvent \<Rightarrow> ('v Journal, Error, JournaledEvent) act" where
  "append_domain cd io event =
     act_bind (append_domain_ref cd io event) (\<lambda>seq. act_return (journaled_new seq event))"

definition append_state ::
  "'v Codec \<Rightarrow> JournalIo \<Rightarrow> nat \<Rightarrow> SessionState \<Rightarrow> ('v Journal, Error, nat) act" where
  "append_state cd io r s =
     act_bind (append_entry cd io ''state.revision''
       (cd_object cd [(''revision'', cd_number cd r), (''state'', cd_state cd s)])) (flush_boundary io)"

definition append_snapshot ::
  "'v Codec \<Rightarrow> JournalIo \<Rightarrow> string \<Rightarrow> 'v \<Rightarrow> ('v Journal, Error, nat) act" where
  "append_snapshot cd io snapshot_id snap =
     act_bind (append_entry cd io ''snapshot.result''
       (cd_object cd [(''snapshot_id'', cd_string cd snapshot_id), (''snapshot'', snap)])) (flush_boundary io)"

definition journal_finish :: "'v Codec \<Rightarrow> JournalIo \<Rightarrow> ('v Journal, Error, unit) act" where
  "journal_finish cd io =
     act_bind (append_entry cd io ''journal.closed'' (cd_object cd [])) (\<lambda>_. journal_flush io)"

definition require_next_sequence :: "nat \<Rightarrow> nat \<Rightarrow> unit result" where
  "require_next_sequence last_seq next_seq =
     (if next_seq = last_seq + 1 then Ok ()
      else Err (new_error InvalidArgument ''journal sequence must be contiguous and start at 1''))"

section \<open>Well-formed journals\<close>

abbreviation total_bytes :: "'v Codec \<Rightarrow> 'v JournalEntry list \<Rightarrow> nat" where
  "total_bytes cd es \<equiv> sum_list (map (line_bytes cd) es)"

definition marker_gap :: "nat \<Rightarrow> JournalGap" where
  "marker_gap seq = \<lparr>gap_from_seq = seq, gap_reason = error_string limit_error\<rparr>"

text \<open>The ordinary records, numbered from 1 without a hole, possibly followed by one gap marker that
  ended the recording.\<close>

definition journal_body :: "'v Codec \<Rightarrow> 'v Journal \<Rightarrow> 'v JournalEntry list \<Rightarrow> bool" where
  "journal_body cd j es \<longleftrightarrow>
     map ent_seq es = [1..<Suc (length es)] \<and>
     (jr_written j = es \<or>
      (\<not> jr_open j \<and> jr_gap j = Some (marker_gap (Suc (length es))) \<and>
       jr_written j = es @ [gap_entry cd (Suc (length es))])) \<and>
     jr_bytes_written j = total_bytes cd es \<and> jr_written_seq j = length es \<and>
     jr_flushed_seq j + jr_unflushed j = length es"

definition journal_inv :: "'v Codec \<Rightarrow> 'v Journal \<Rightarrow> bool" where
  "journal_inv cd j \<longleftrightarrow>
     (\<exists>es. journal_body cd j es) \<and>
     total_bytes cd (jr_written j) \<le> jr_max_bytes j \<and> jr_max_bytes j < u64_max \<and>
     (jr_open j \<longleftrightarrow> jr_gap j = None) \<and>
     jr_written_seq j < jr_next_seq j \<and>
     (\<forall>g. jr_gap j = Some g \<longrightarrow> jr_flushed_seq j < gap_from_seq g \<and> gap_from_seq g \<le> Suc (jr_written_seq j))"

definition journal_wf :: "'v Codec \<Rightarrow> 'v Journal \<Rightarrow> bool" where
  "journal_wf cd j \<longleftrightarrow>
     journal_inv cd j \<and> (jr_open j \<longrightarrow> jr_next_seq j = Suc (jr_written_seq j))"

lemma create_wf: "m < u64_max \<Longrightarrow> journal_wf cd (create_with_durability m d)"
  by (auto simp: journal_wf_def journal_inv_def journal_body_def create_with_durability_def)

lemma journal_flush_cases:
  assumes "journal_flush io j = (r, j')"
  obtains (idle) "r = Ok ()" "j' = j" "jr_unflushed j = 0 \<or> \<not> jr_open j"
  | (failed) e where "r = Err e" "j' = j" "is_durable j"
  | (stopped) msg where "r = Ok ()" "\<not> is_durable j" "jr_open j"
      "j' = j\<lparr>jr_gap := Some \<lparr>gap_from_seq = jr_flushed_seq j + 1,
         gap_reason = error_string (external_error msg)\<rparr>, jr_open := False\<rparr>"
  | (synced) "r = Ok ()" "jr_open j" "j' = j\<lparr>jr_unflushed := 0, jr_flushed_seq := jr_written_seq j\<rparr>"
proof (cases "jr_unflushed j = 0 \<or> \<not> jr_open j")
  case True
  then have "r = Ok ()" "j' = j" using assms by (simp_all add: journal_flush_def)
  with True show ?thesis using idle by blast
next
  case o: False
  show ?thesis
  proof (cases "io_flush io")
    case (Some msg)
    then have f: "stop_recording (external_error msg) (jr_flushed_seq j + 1) j = (r, j')"
      using o assms by (simp add: journal_flush_def)
    show ?thesis
    proof (cases "is_durable j")
      case True
      then show ?thesis using f failed [of "external_error msg"] by (simp add: stop_recording_def)
    next
      case False
      then show ?thesis using f o stopped [of msg] by (simp add: stop_recording_def)
    qed
  next
    case None
    show ?thesis
    proof (cases "if is_durable j then io_sync io else None")
      case None2: None
      then have "r = Ok ()" "j' = j\<lparr>jr_unflushed := 0, jr_flushed_seq := jr_written_seq j\<rparr>"
        using assms None o by (simp_all add: journal_flush_def)
      with o show ?thesis using synced by blast
    next
      case (Some msg)
      then have "r = Err (external_error msg)" "j' = j" "is_durable j"
        using assms None o by (simp_all add: journal_flush_def split: if_splits)
      then show ?thesis by (rule failed)
    qed
  qed
qed

lemma journal_body_open:
  assumes "journal_body cd j es" "jr_open j"
  shows "jr_written j = es"
  using assms by (auto simp: journal_body_def)

lemma journal_body_stop:
  assumes "journal_body cd j es" "jr_open j"
  shows "journal_body cd (j\<lparr>jr_gap := g, jr_open := False\<rparr>) es"
  using assms by (auto simp: journal_body_def)

lemma stop_inv:
  assumes "journal_inv cd j" "jr_open j" "gap_from_seq g \<le> Suc (jr_written_seq j)" "jr_flushed_seq j < gap_from_seq g"
  shows "journal_inv cd (j\<lparr>jr_gap := Some g, jr_open := False\<rparr>)"
proof -
  obtain es where "journal_body cd j es" using assms(1) by (auto simp: journal_inv_def)
  from journal_body_stop [OF this assms(2)] assms show ?thesis by (auto simp: journal_inv_def)
qed

lemma flushed_le_written: "journal_inv cd j \<Longrightarrow> jr_flushed_seq j \<le> jr_written_seq j"
  by (auto simp: journal_inv_def journal_body_def)

lemma flush_inv:
  assumes "journal_inv cd j" "journal_flush io j = (r, j')"
  shows "journal_inv cd j'"
  using assms(2)
proof (cases rule: journal_flush_cases)
  case (stopped msg)
  then show ?thesis
    using stop_inv [OF assms(1)] flushed_le_written [OF assms(1)] by simp
next
  case synced
  then show ?thesis using assms(1) by (auto simp: journal_inv_def journal_body_def)
qed (use assms(1) in simp_all)

lemma saturating_fits: "saturating_add a b \<le> m \<Longrightarrow> m < u64_max \<Longrightarrow> a + b \<le> m"
  by (simp add: saturating_add_def min_def split: if_splits)

lemma marker_inv:
  assumes "journal_inv cd j" "jr_open j" "seq = Suc (jr_written_seq j)"
  shows "journal_inv cd ((write_marker cd io seq j)\<lparr>jr_gap := Some (marker_gap seq), jr_open := False\<rparr>)"
proof (cases "saturating_add (jr_bytes_written j) (line_bytes cd (gap_entry cd seq)) \<le> jr_max_bytes j \<and>
    io_marker io = None")
  case True
  obtain es where es: "journal_body cd j es" using assms(1) by (auto simp: journal_inv_def)
  have w: "jr_written j = es" by (rule journal_body_open [OF es assms(2)])
  have len: "seq = Suc (length es)" "jr_bytes_written j = total_bytes cd es"
    using es assms(3) by (simp_all add: journal_body_def)
  have m: "jr_max_bytes j < u64_max" using assms(1) by (simp add: journal_inv_def)
  have "total_bytes cd (es @ [gap_entry cd seq]) \<le> jr_max_bytes j"
    using saturating_fits [OF _ m] True len(2) by simp
  moreover have "journal_body cd (j\<lparr>jr_written := es @ [gap_entry cd seq],
      jr_gap := Some (marker_gap seq), jr_open := False\<rparr>) es"
    using es w len by (simp add: journal_body_def)
  ultimately show ?thesis
    using True assms w flushed_le_written [OF assms(1)]
    by (auto simp: write_marker_def journal_inv_def marker_gap_def)
next
  case False
  then have "write_marker cd io seq j = j" by (auto simp: write_marker_def)
  then show ?thesis
    using stop_inv [OF assms(1,2), of "marker_gap seq"] assms(3) flushed_le_written [OF assms(1)]
    by (simp add: marker_gap_def)
qed

lemma accept_wf:
  assumes "journal_wf cd j" "jr_open j" "ent_seq e = jr_next_seq j"
    "jr_bytes_written j + line_bytes cd e \<le> jr_max_bytes j"
  shows "journal_wf cd (accept_record cd e (j\<lparr>jr_next_seq := Suc (jr_next_seq j)\<rparr>))"
proof -
  obtain es where es: "journal_body cd j es" using assms(1) by (auto simp: journal_wf_def journal_inv_def)
  have w: "jr_written j = es" by (rule journal_body_open [OF es assms(2)])
  have n: "ent_seq e = Suc (length es)" using assms(1-3) es by (simp add: journal_wf_def journal_body_def)
  let ?j = "accept_record cd e (j\<lparr>jr_next_seq := Suc (jr_next_seq j)\<rparr>)"
  have "journal_body cd ?j (es @ [e])"
    using es w n by (auto simp: journal_body_def accept_record_def)
  moreover have "total_bytes cd (jr_written ?j) \<le> jr_max_bytes j"
    using es w assms(4) by (simp add: journal_body_def accept_record_def)
  ultimately show ?thesis
    using assms(1-3) unfolding journal_wf_def journal_inv_def by (auto simp: accept_record_def)
qed

lemma journal_body_next [simp]: "journal_body cd (j\<lparr>jr_next_seq := n\<rparr>) es = journal_body cd j es"
  by (simp add: journal_body_def)

lemma bump_inv: "journal_inv cd j \<Longrightarrow> journal_inv cd (j\<lparr>jr_next_seq := Suc (jr_next_seq j)\<rparr>)"
  by (simp add: journal_inv_def less_SucI)

lemma closed_wf: "journal_inv cd j \<Longrightarrow> \<not> jr_open j \<Longrightarrow> journal_wf cd j"
  by (simp add: journal_wf_def)

lemma journal_flush_frame:
  assumes "journal_flush io j = (r, j')"
  shows "jr_next_seq j' = jr_next_seq j" "jr_written j' = jr_written j" "jr_written_seq j' = jr_written_seq j"
    "jr_durability j' = jr_durability j" "jr_max_bytes j' = jr_max_bytes j" "jr_open j' \<Longrightarrow> jr_open j"
  using assms by (cases rule: journal_flush_cases; simp)+

lemma flush_wf: "journal_wf cd j \<Longrightarrow> journal_flush io j = (r, j') \<Longrightarrow> journal_wf cd j'"
  using flush_inv [of cd j io r j'] journal_flush_frame [of io j r j'] by (auto simp: journal_wf_def)

lemma reach_limit_facts:
  assumes "journal_inv cd j" "jr_open j" "\<not> is_durable j" "seq = Suc (jr_written_seq j)"
    "reach_limit cd io seq j = (r, j')"
  shows "r = Ok seq \<and> \<not> jr_open j' \<and> journal_inv cd j' \<and> jr_next_seq j' = jr_next_seq j \<and>
    jr_written_seq j' = jr_written_seq j \<and> jr_durability j' = jr_durability j \<and>
    (jr_written j' = jr_written j \<or> jr_written j' = jr_written j @ [gap_entry cd seq])"
proof -
  obtain r1 j1 where f: "journal_flush io j = (r1, j1)" by (cases "journal_flush io j")
  note inv1 = flush_inv [OF assms(1) f] and frame = journal_flush_frame [OF f]
  have d: "\<not> is_durable j1" using assms(3) frame(4) by (simp add: is_durable_def)
  have r1: "r1 = Ok ()" using f assms(3) by (cases rule: journal_flush_cases) simp_all
  show ?thesis
  proof (cases "jr_gap j1 = None")
    case True
    then have o: "jr_open j1" using inv1 by (simp add: journal_inv_def)
    have "j' = (write_marker cd io seq j1)\<lparr>jr_gap := Some (marker_gap seq), jr_open := False\<rparr>" "r = Ok seq"
      using assms(5) f r1 True d
      by (auto simp: reach_limit_def act_bind_def stop_recording_def act_return_def marker_gap_def
          write_marker_def is_durable_def split: if_splits)
    then show ?thesis
      using marker_inv [OF inv1 o, of seq io] assms(4) frame by (auto simp: write_marker_def)
  next
    case False
    then have "j' = j1" "r = Ok seq" using assms(5) f r1
      by (auto simp: reach_limit_def act_bind_def)
    moreover have "\<not> jr_open j1" using False inv1 by (simp add: journal_inv_def)
    ultimately show ?thesis using inv1 frame by simp
  qed
qed

text \<open>What \<open>append\<close> does: the record is accepted, or recording has stopped, or a durable journal
  reports the failure and keeps what it has.\<close>

lemma append_entry_cases:
  assumes "append_entry cd io kind data j = (r, j')" "journal_wf cd j"
  obtains (closed) "r = Ok (jr_next_seq j)" "\<not> jr_open j" "j' = j\<lparr>jr_next_seq := Suc (jr_next_seq j)\<rparr>"
  | (accepted) j2 where "r = Ok (jr_next_seq j)" "jr_open j"
      "j2 = accept_record cd \<lparr>ent_seq = jr_next_seq j, ent_kind = kind, ent_data = data\<rparr>
              (j\<lparr>jr_next_seq := Suc (jr_next_seq j)\<rparr>)"
      "j' = j2 \<or> (\<exists>io. journal_flush io j2 = (Ok (), j'))" "journal_wf cd j2"
  | (stopped) "r = Ok (jr_next_seq j)" "jr_open j" "\<not> is_durable j" "\<not> jr_open j'" "journal_inv cd j'"
      "jr_next_seq j' = Suc (jr_next_seq j)" "jr_written_seq j' = jr_written_seq j"
      "jr_written j' = jr_written j \<or> jr_written j' = jr_written j @ [gap_entry cd (jr_next_seq j)]"
      "jr_durability j' = jr_durability j"
  | (refused) e where "r = Err e" "is_durable j"
proof -
  let ?seq = "jr_next_seq j"
  let ?e = "\<lparr>ent_seq = ?seq, ent_kind = kind, ent_data = data\<rparr>"
  define j1 where "j1 = j\<lparr>jr_next_seq := Suc ?seq\<rparr>"
  have inv: "journal_inv cd j1" using assms(2) bump_inv [of cd j] by (simp add: journal_wf_def j1_def)
  have j1: "jr_open j1 = jr_open j" "is_durable j1 = is_durable j" "jr_written_seq j1 = jr_written_seq j"
    "jr_written j1 = jr_written j" "jr_next_seq j1 = Suc ?seq" "jr_durability j1 = jr_durability j"
    by (simp_all add: j1_def is_durable_def)
  note run = assms(1) [unfolded append_entry_def Let_def, folded Suc_eq_plus1, folded j1_def]
  consider "\<not> jr_open j"
    | "jr_open j" "saturating_add (jr_bytes_written j1) (line_bytes cd ?e) > jr_max_bytes j1 - (if is_durable j1 then 0 else 256)"
    | "jr_open j" "saturating_add (jr_bytes_written j1) (line_bytes cd ?e) \<le> jr_max_bytes j1 - (if is_durable j1 then 0 else 256)"
    by linarith
  then show thesis
  proof cases
    case 1
    then show ?thesis using run closed j1_def by (simp add: j1)
  next
    case over: 2
    show ?thesis
    proof (cases "is_durable j")
      case True
      then show ?thesis using run over refused [of limit_error] by (simp add: j1)
    next
      case False
      have seq: "?seq = Suc (jr_written_seq j1)" using assms(2) over(1) by (simp add: journal_wf_def j1)
      from run over False have lim: "reach_limit cd io ?seq j1 = (r, j')" by (simp add: j1)
      have "r = Ok ?seq \<and> \<not> jr_open j' \<and> journal_inv cd j' \<and> jr_next_seq j' = Suc ?seq \<and>
          jr_written_seq j' = jr_written_seq j \<and> jr_durability j' = jr_durability j \<and>
          (jr_written j' = jr_written j \<or> jr_written j' = jr_written j @ [gap_entry cd ?seq])"
        using reach_limit_facts [OF inv _ _ seq lim] over(1) False by (simp add: j1)
      then show ?thesis using stopped over(1) False by blast
    qed
  next
    case fits: 3
    show ?thesis
    proof (cases "io_write io")
      case (Some msg)
      with run fits have io_stop: "act_bind (stop_recording (external_error msg) (jr_flushed_seq j1 + 1))
          (\<lambda>_. act_return ?seq) j1 = (r, j')"
        by (simp add: j1 not_less [symmetric])
      show ?thesis
      proof (cases "is_durable j")
        case True
        then show ?thesis using io_stop refused [of "external_error msg"] by (simp add: stop_recording_def act_bind_def j1)
      next
        case False
        define g where "g = \<lparr>gap_from_seq = jr_flushed_seq j1 + 1, gap_reason = error_string (external_error msg)\<rparr>"
        have e: "r = Ok ?seq" "j' = j1\<lparr>jr_gap := Some g, jr_open := False\<rparr>"
          using io_stop False by (auto simp: stop_recording_def act_bind_def act_return_def j1 g_def)
        have "journal_inv cd j'"
          using stop_inv [OF inv, of g] fits(1) flushed_le_written [OF inv] unfolding e(2)
          by (simp add: j1 g_def)
        then show ?thesis using stopped e fits(1) False by (simp add: j1)
      qed
    next
      case None
      define j2 where "j2 = accept_record cd ?e j1"
      have wf2: "journal_wf cd j2"
      proof -
        have "jr_max_bytes j1 < u64_max" using inv by (simp add: journal_inv_def)
        then have "jr_bytes_written j + line_bytes cd ?e \<le> jr_max_bytes j"
          using saturating_fits [of "jr_bytes_written j1" "line_bytes cd ?e" "jr_max_bytes j1"] fits(2)
          by (simp add: j1_def split: if_splits)
        then show ?thesis
          using accept_wf [OF assms(2) fits(1), of ?e] by (simp add: j2_def j1_def)
      qed
      from run fits None have "(if 64 \<le> jr_unflushed j2 then act_bind (journal_flush io) (\<lambda>_. act_return ?seq) j2
          else (Ok ?seq, j2)) = (r, j')"
        by (simp add: j1 j2_def not_less [symmetric] split: if_splits)
      then consider "r = Ok ?seq" "j' = j2" | "r = Ok ?seq" "journal_flush io j2 = (Ok (), j')"
        | e where "r = Err e" "journal_flush io j2 = (Err e, j')"
        by (auto simp: act_bind_def act_return_def split: if_splits prod.splits sum.splits)
      then show ?thesis
      proof cases
        case (3 e)
        then have "is_durable j2" by (auto elim!: journal_flush_cases)
        then have "is_durable j" by (simp add: j2_def accept_record_def is_durable_def j1)
        with 3 show ?thesis using refused by blast
      qed (use accepted [OF _ fits(1) j2_def [unfolded j1_def] _ wf2] in blast)+
    qed
  qed
qed

lemma append_entry_wf:
  assumes "append_entry cd io kind data j = (Ok seq, j')" "journal_wf cd j"
  shows "journal_wf cd j' \<and> seq = jr_next_seq j \<and> jr_next_seq j' = Suc (jr_next_seq j) \<and>
    jr_durability j' = jr_durability j"
  using assms
proof (cases rule: append_entry_cases)
  case closed
  then show ?thesis using assms(2) bump_inv [of cd j] by (simp add: journal_wf_def)
next
  case (accepted j2)
  then show ?thesis
    using flush_wf [OF accepted(5)] journal_flush_frame(1,4) [of _ j2 _ j']
    by (auto simp: accept_record_def)
next
  case stopped
  then show ?thesis by (simp add: closed_wf)
qed simp

lemma append_entry_performance:
  assumes "append_entry cd io kind data j = (r, j')" "journal_wf cd j" "\<not> is_durable j"
  shows "r = Ok (jr_next_seq j)"
  using assms(1,2) by (cases rule: append_entry_cases) (use assms(3) in simp_all)

section \<open>A small codec\<close>

text \<open>A codec whose values are free terms and whose lines show only the record number: enough to
  evaluate journals on concrete records, which the table \<open>es\<close> reads back.\<close>

datatype PlainValue =
    PObj "(string \<times> PlainValue) list" | PStr string | PNum nat
  | PEvent DomainEvent | PState SessionState | PGap JournalGap

definition plain_line :: "PlainValue JournalEntry \<Rightarrow> string" where
  "plain_line e = CHR ''r'' # show_nat (ent_seq e)"

lemma show_nat_digit: "n < 10 \<Longrightarrow> show_nat n = [digit_char n]"
  by (simp add: show_nat.simps [of n])

definition plain_codec :: "PlainValue JournalEntry list \<Rightarrow> PlainValue Codec" where
  "plain_codec es =
     \<lparr>cd_object = PObj, cd_string = PStr, cd_number = PNum, cd_event = PEvent, cd_state = PState,
      cd_gap = PGap, cd_line = plain_line, cd_base64 = map (\<lambda>b. char_of (unat b)),
      cd_get = (\<lambda>v k. case v of PObj kvs \<Rightarrow> map_of kvs k | _ \<Rightarrow> None),
      cd_as_str = (\<lambda>v. case v of PStr s \<Rightarrow> Some s | _ \<Rightarrow> None),
      cd_as_u64 = (\<lambda>v. case v of PNum n \<Rightarrow> Some n | _ \<Rightarrow> None),
      cd_from_event = (\<lambda>v. case v of PEvent e \<Rightarrow> Ok e | _ \<Rightarrow> Err ''event''),
      cd_from_state = (\<lambda>v. case v of PState s \<Rightarrow> Ok s | _ \<Rightarrow> Err ''state''),
      cd_from_gap = (\<lambda>v. case v of PGap g \<Rightarrow> Ok g | _ \<Rightarrow> Err ''gap''),
      cd_parse = (\<lambda>s. case find (\<lambda>e. s = plain_line e) es of Some e \<Rightarrow> Ok e | None \<Rightarrow> Err ''line''),
      cd_unbase64 = (\<lambda>s. Ok (as_bytes s))\<rparr>"

definition io_fine :: JournalIo where
  "io_fine = \<lparr>io_write = None, io_flush = None, io_sync = None, io_marker = None\<rparr>"

section \<open>Runs\<close>

datatype 'v JournalOp = JAppend string 'v | JBoundary string 'v | JFlush

fun journal_op :: "'v Codec \<Rightarrow> JournalIo \<Rightarrow> 'v JournalOp \<Rightarrow> ('v Journal, Error, nat) act" where
  "journal_op cd io (JAppend kind data) = append_entry cd io kind data"
| "journal_op cd io (JBoundary kind data) =
     act_bind (append_entry cd io kind data) (flush_boundary io)"
| "journal_op cd io JFlush = act_bind (journal_flush io) (\<lambda>_. act_return 0)"

fun journal_run ::
  "'v Codec \<Rightarrow> 'v Journal \<Rightarrow> ('v JournalOp \<times> JournalIo) list \<Rightarrow> nat result list \<times> 'v Journal" where
  "journal_run cd j [] = ([], j)"
| "journal_run cd j ((op, io) # ops) =
     (case journal_op cd io op j of (r, j1) \<Rightarrow>
        (case journal_run cd j1 ops of (rs, j2) \<Rightarrow> (r # rs, j2)))"

fun appended :: "'v JournalOp \<Rightarrow> (string \<times> 'v) list" where
  "appended (JAppend kind data) = [(kind, data)]"
| "appended (JBoundary kind data) = [(kind, data)]"
| "appended JFlush = []"

abbreviation contents :: "'v JournalEntry list \<Rightarrow> (string \<times> 'v) list" where
  "contents es \<equiv> map (\<lambda>e. (ent_kind e, ent_data e)) es"

text \<open>\<open>holds_prefix cd j all\<close>: the ordinary records are an initial part of the records appended so
  far, all of them while no gap is noted.\<close>

definition holds_prefix :: "'v Codec \<Rightarrow> 'v Journal \<Rightarrow> (string \<times> 'v) list \<Rightarrow> bool" where
  "holds_prefix cd j all \<longleftrightarrow>
     journal_wf cd j \<and> jr_next_seq j = Suc (length all) \<and>
     (\<exists>es. journal_body cd j es \<and> contents es = take (length es) all)"

lemma holds_prefix_open:
  assumes "holds_prefix cd j all" "jr_open j"
  shows "contents (jr_written j) = all \<and> length (jr_written j) = length all"
proof -
  obtain es where es: "journal_body cd j es" "contents es = take (length es) all"
    using assms(1) by (auto simp: holds_prefix_def)
  have "length es = length all"
    using assms es(1) by (auto simp: holds_prefix_def journal_wf_def journal_body_def)
  with es journal_body_open [OF es(1) assms(2)] show ?thesis by simp
qed

lemma flush_body:
  assumes "journal_flush io j = (r, j')" "journal_body cd j es"
  shows "journal_body cd j' es"
  using assms(1)
proof (cases rule: journal_flush_cases)
  case (stopped msg)
  then show ?thesis using journal_body_stop [OF assms(2)] by simp
next
  case synced
  then show ?thesis using assms(2) by (auto simp: journal_body_def)
qed (use assms(2) in simp_all)

lemma body_length_le: "holds_prefix cd j all \<Longrightarrow> journal_body cd j es \<Longrightarrow> length es \<le> length all"
  by (auto simp: holds_prefix_def journal_wf_def journal_inv_def journal_body_def)

lemma holds_prefix_append:
  assumes "append_entry cd io kind data j = (Ok seq, j')" "holds_prefix cd j all"
  shows "holds_prefix cd j' (all @ [(kind, data)])"
proof -
  have wf: "journal_wf cd j" and n: "jr_next_seq j = Suc (length all)"
    using assms(2) by (simp_all add: holds_prefix_def)
  note facts = append_entry_wf [OF assms(1) wf]
  have "\<exists>es. journal_body cd j' es \<and> contents es = take (length es) (all @ [(kind, data)])"
    using assms(1) wf
  proof (cases rule: append_entry_cases)
    case closed
    obtain es where es: "journal_body cd j es" "contents es = take (length es) all"
      using assms(2) by (auto simp: holds_prefix_def)
    with body_length_le [OF assms(2) es(1)] closed show ?thesis by auto
  next
    case (accepted j2)
    let ?e = "\<lparr>ent_seq = jr_next_seq j, ent_kind = kind, ent_data = data\<rparr>"
    have open2: "jr_open j2" using accepted(2,3) by (simp add: accept_record_def)
    obtain es where es: "journal_body cd j2 es"
      using accepted(5) by (auto simp: journal_wf_def journal_inv_def)
    have "es = jr_written j @ [?e]"
      using journal_body_open [OF es open2] accepted(3) by (simp add: accept_record_def)
    then have c: "contents es = all @ [(kind, data)]" "length es = Suc (length all)"
      using holds_prefix_open [OF assms(2) accepted(2)] by simp_all
    from accepted(4) have "journal_body cd j' es"
    proof
      assume "\<exists>io. journal_flush io j2 = (Ok (), j')"
      then obtain io' where "journal_flush io' j2 = (Ok (), j')" ..
      then show ?thesis using es by (rule flush_body)
    qed (use es in simp)
    with c show ?thesis by auto
  next
    case stopped
    obtain es where es: "journal_body cd j' es" using stopped(5) by (auto simp: journal_inv_def)
    obtain es0 where es0: "journal_body cd j es0" using wf by (auto simp: journal_wf_def journal_inv_def)
    then have len: "length (jr_written j) = jr_written_seq j"
      using journal_body_open [OF es0 stopped(2)] by (simp add: journal_body_def)
    from es have "(jr_written j' = es \<or> jr_written j' = es @ [gap_entry cd (Suc (length es))]) \<and>
        length es = jr_written_seq j'"
      unfolding journal_body_def by metis
    then have "es = jr_written j"
      using stopped(7,8) len by (metis append1_eq_conv length_append_singleton n_not_Suc_n)
    then show ?thesis using es holds_prefix_open [OF assms(2) stopped(2)] by auto
  qed simp
  with facts n show ?thesis by (simp add: holds_prefix_def)
qed

lemma holds_prefix_flush:
  assumes "journal_flush io j = (r, j')" "holds_prefix cd j all"
  shows "holds_prefix cd j' all"
  using assms(2) flush_body [OF assms(1)] flush_wf [OF _ assms(1)] journal_flush_frame(1) [OF assms(1)]
  unfolding holds_prefix_def by auto

lemma op_holds_prefix:
  assumes "journal_op cd io op j = (Ok seq, j')" "holds_prefix cd j all"
  shows "holds_prefix cd j' (all @ appended op)"
proof (cases op)
  case (JAppend kind data)
  then show ?thesis using assms holds_prefix_append [of cd io kind data] by simp
next
  case (JBoundary kind data)
  with assms(1) obtain s1 j1 where a: "append_entry cd io kind data j = (Ok s1, j1)"
      and b: "flush_boundary io s1 j1 = (Ok seq, j')"
    by (auto simp: act_bind_Ok)
  from b have "j' = j1 \<or> (\<exists>r. journal_flush io j1 = (r, j'))"
    by (auto simp: flush_boundary_def act_bind_Ok act_return_def split: if_splits)
  with holds_prefix_append [OF a assms(2)] holds_prefix_flush show ?thesis
    using JBoundary by auto
next
  case JFlush
  with assms(1) obtain r where "journal_flush io j = (r, j')" by (auto simp: act_bind_Ok act_return_def)
  then show ?thesis using JFlush holds_prefix_flush [OF _ assms(2)] by simp
qed

lemma op_performance:
  assumes "journal_op cd io op j = (r, j')" "journal_wf cd j" "\<not> is_durable j"
  shows "is_ok r \<and> \<not> is_durable j'"
proof (cases op)
  case (JAppend kind data)
  then have "append_entry cd io kind data j = (r, j')" using assms(1) by simp
  with append_entry_performance [OF this assms(2,3)] append_entry_wf [of cd io kind data j _ j'] assms
  show ?thesis by (simp add: is_durable_def)
next
  case (JBoundary kind data)
  obtain r1 j1 where a: "append_entry cd io kind data j = (r1, j1)"
    by (cases "append_entry cd io kind data j")
  have "r1 = Ok (jr_next_seq j)" by (rule append_entry_performance [OF a assms(2,3)])
  with append_entry_wf [of cd io kind data j _ j1] a assms JBoundary show ?thesis
    by (auto simp: act_bind_def flush_boundary_def is_durable_def)
next
  case JFlush
  obtain r1 j1 where f: "journal_flush io j = (r1, j1)" by (cases "journal_flush io j")
  moreover have "is_ok r1" using f assms(3) by (cases rule: journal_flush_cases) simp_all
  ultimately show ?thesis
    using JFlush assms journal_flush_frame(4) [OF f]
    by (cases r1) (auto simp: act_bind_def act_return_def is_durable_def)
qed

lemma stop_recording_max [simp]: "jr_max_bytes (snd (stop_recording e n j)) = jr_max_bytes j"
  by (simp add: stop_recording_def)

lemma journal_flush_max [simp]: "jr_max_bytes (snd (journal_flush io j)) = jr_max_bytes j"
  using journal_flush_frame(5) [of io j] by (cases "journal_flush io j") simp

lemma act_bind_max:
  assumes "jr_max_bytes (snd (m j)) = jr_max_bytes j" "\<And>x j. jr_max_bytes (snd (f x j)) = jr_max_bytes j"
  shows "jr_max_bytes (snd (act_bind m f j)) = jr_max_bytes j"
  using assms(1) by (auto simp: act_bind_def assms(2) split: prod.splits sum.splits)

lemma append_entry_max [simp]: "jr_max_bytes (snd (append_entry cd io kind data j)) = jr_max_bytes j"
  by (simp add: append_entry_def reach_limit_def Let_def act_bind_max act_return_def write_marker_def
      accept_record_def split: option.split)

lemma journal_op_max [simp]: "jr_max_bytes (snd (journal_op cd io op j)) = jr_max_bytes j"
  by (cases op) (simp_all add: act_bind_max flush_boundary_def act_return_def)

lemma run_performance:
  assumes "journal_run cd j ops = (rs, j')" "holds_prefix cd j all" "\<not> is_durable j"
  shows "list_all is_ok rs \<and> holds_prefix cd j' (all @ concat (map (appended \<circ> fst) ops)) \<and>
    jr_max_bytes j' = jr_max_bytes j"
  using assms
proof (induction ops arbitrary: j all rs)
  case (Cons opio ops)
  obtain op io where o: "opio = (op, io)" by (cases opio)
  obtain r j1 where s1: "journal_op cd io op j = (r, j1)" by (cases "journal_op cd io op j")
  obtain rs' where s2: "journal_run cd j1 ops = (rs', j')" "rs = r # rs'"
    using Cons.prems(1) o s1 by (auto split: prod.splits)
  have "journal_wf cd j" using Cons.prems(2) by (simp add: holds_prefix_def)
  from op_performance [OF s1 this Cons.prems(3)] obtain seq where r: "r = Ok seq" "\<not> is_durable j1"
    by (cases r) auto
  have "jr_max_bytes j1 = jr_max_bytes j" using journal_op_max [of cd io op j] s1 by simp
  with Cons.IH [OF s2(1) op_holds_prefix [OF s1 [unfolded r(1)] Cons.prems(2)] r(2)] s2(2) r(1) o
  show ?case by simp
qed simp

text \<open>C36.  A performance journal never fails the session and never lies about what it holds:
  whatever the operating system answers, every operation succeeds, what is handed to the writer
  stays within the byte limit, the ordinary records there carry the numbers 1, 2, 3 and so on and
  are an initial part of the records appended, all of them unless a gap was noted; a noted gap starts after every record that
  was flushed and not after the first record that is missing; and only a gap marker numbered next
  can follow the ordinary records.\<close>

theorem performance_journal_prefix:
  assumes "m < u64_max"
    and "journal_run cd (create_with_durability m Performance) ops = (rs, j)"
  shows "list_all is_ok rs \<and> total_bytes cd (jr_written j) \<le> m \<and>
    (\<exists>es. map ent_seq es = [1..<Suc (length es)] \<and>
      contents es = take (length es) (concat (map (appended \<circ> fst) ops)) \<and>
      (case jr_gap j of
         None \<Rightarrow> jr_written j = es \<and> contents es = concat (map (appended \<circ> fst) ops)
       | Some g \<Rightarrow> jr_flushed_seq j < gap_from_seq g \<and> gap_from_seq g \<le> Suc (length es) \<and>
           (jr_written j = es \<or> jr_written j = es @ [gap_entry cd (Suc (length es))])))"
proof -
  let ?all = "concat (map (appended \<circ> fst) ops)"
  have "holds_prefix cd (create_with_durability m Performance) []"
    using create_wf [OF assms(1), of cd Performance]
    by (auto simp: holds_prefix_def journal_body_def create_with_durability_def)
  from run_performance [OF assms(2) this]
  have run: "list_all is_ok rs" "holds_prefix cd j ?all" "jr_max_bytes j = m"
    by (simp_all add: create_with_durability_def is_durable_def)
  obtain es where es: "journal_body cd j es" "contents es = take (length es) ?all"
    using run(2) by (auto simp: holds_prefix_def)
  have inv: "journal_inv cd j" using run(2) by (simp add: holds_prefix_def journal_wf_def)
  then have "total_bytes cd (jr_written j) \<le> m" using run(3) by (simp add: journal_inv_def)
  moreover have "map ent_seq es = [1..<Suc (length es)]" "jr_written_seq j = length es"
    "jr_written j = es \<or> jr_written j = es @ [gap_entry cd (Suc (length es))]"
    using es(1) unfolding journal_body_def by metis+
  moreover have "jr_written j = es \<and> contents es = ?all" if "jr_gap j = None"
  proof -
    have "jr_open j" using inv that by (simp add: journal_inv_def)
    with holds_prefix_open [OF run(2)] journal_body_open [OF es(1)] show ?thesis by simp
  qed
  ultimately show ?thesis
    using run(1) es(2) inv by (intro conjI exI [of _ es]) (auto simp: journal_inv_def split: option.split)
qed

lemmas journal_eval =
  create_with_durability_def append_entry_def line_bytes_def accept_record_def flush_boundary_def
  is_durable_def journal_flush_def stop_recording_def act_bind_def act_return_def
  saturating_add_def u64_max_def io_fine_def plain_codec_def plain_line_def show_nat_digit

theorem performance_journal_prefix_witness:
  "\<exists>rs j es. journal_run (plain_codec []) (create_with_durability 1000 Performance)
       [(JAppend ''a'' (PNum 1), io_fine), (JBoundary ''b'' (PNum 2), io_fine\<lparr>io_write := Some ''disk full''\<rparr>),
        (JAppend ''c'' (PNum 3), io_fine)] = (rs, j) \<and>
     list_all is_ok rs \<and> jr_written j = es \<and> contents es = [(''a'', PNum 1)] \<and> jr_gap j \<noteq> None"
proof -
  let ?run = "journal_run (plain_codec []) (create_with_durability 1000 Performance)
       [(JAppend ''a'' (PNum 1), io_fine), (JBoundary ''b'' (PNum 2), io_fine\<lparr>io_write := Some ''disk full''\<rparr>),
        (JAppend ''c'' (PNum 3), io_fine)]"
  have "jr_gap (snd ?run) \<noteq> None" by (simp add: journal_eval)
  moreover have "contents (jr_written (snd ?run)) = [(''a'', PNum 1)]" by (simp add: journal_eval)
  moreover have "list_all is_ok (fst ?run)"
    by (rule performance_journal_prefix [THEN conjunct1, OF _ prod.collapse [symmetric]])
      (simp add: u64_max_def)
  ultimately show ?thesis
    by (intro exI [of _ "fst ?run"] exI [of _ "snd ?run"] exI [of _ "jr_written (snd ?run)"] conjI)
      (assumption | rule refl prod.collapse [symmetric])+
qed



end
