(* ===== verification/Replay.thy ===== *)
theory Replay
  imports Journal Encoding MI_Parser_Sound Reducer_Props
begin

text \<open>
  Replay of a journal file, \<open>crates/gdb-ai-core/src/replay.rs\<close>: the lines are read, parsed and
  checked in order (sequence numbers, the MI record against its normalised event, the state against
  its checkpoints, the terminal markers), and the session state is rebuilt from the events.
\<close>

section \<open>Lines of the file\<close>

text \<open>\<open>BufRead::read_line\<close>: each line keeps its line feed; a last line without one is returned
  too.\<close>

fun split_file :: "string \<Rightarrow> string \<Rightarrow> string list" where
  "split_file l [] = (if l = [] then [] else [l])"
| "split_file l (c # cs) =
     (if c = CHR 0x0A then (l @ [c]) # split_file [] cs else split_file (l @ [c]) cs)"

definition pop_char :: "char \<Rightarrow> string \<Rightarrow> string \<times> bool" where
  "pop_char c l = (if l \<noteq> [] \<and> last l = c then (butlast l, True) else (l, False))"

definition line_text :: "string \<Rightarrow> string" where
  "line_text l =
     (case pop_char (CHR 0x0A) l of (l1, popped) \<Rightarrow>
        if popped then fst (pop_char (CHR 0x0D) l1) else l1)"

section \<open>The accumulated state\<close>

record 'v ReplayAcc =
  ra_state :: SessionState
  ra_entries :: nat
  ra_parsed :: nat
  ra_applied :: nat
  ra_saw_normalized :: bool
  ra_version :: nat
  ra_pending :: "(nat \<times> DomainEvent) option"
  ra_unmatched :: "nat option"
  ra_snapshots :: nat
  ra_latest_snapshot :: "'v option"
  ra_last_seq :: nat
  ra_complete :: bool
  ra_gap :: "JournalGap option"

record 'v ReplayReport =
  rp_complete :: bool
  rp_evidence_gap :: "JournalGap option"
  rp_entries :: nat
  rp_parsed_mi_records :: nat
  rp_applied_events :: nat
  rp_snapshots :: nat
  rp_latest_snapshot :: "'v option"
  rp_state :: SessionState

definition replay_init :: "SessionId \<Rightarrow> 'v ReplayAcc" where
  "replay_init session =
     \<lparr>ra_state = creating session, ra_entries = 0, ra_parsed = 0, ra_applied = 0,
      ra_saw_normalized = False, ra_version = 1, ra_pending = None, ra_unmatched = None,
      ra_snapshots = 0, ra_latest_snapshot = None, ra_last_seq = 0, ra_complete = False,
      ra_gap = None\<rparr>"

definition invalid :: "string \<Rightarrow> Error" where
  "invalid msg = new_error InvalidArgument msg"

section \<open>The kinds of record\<close>

definition replay_created :: "'v Codec \<Rightarrow> 'v \<Rightarrow> 'v ReplayAcc \<Rightarrow> 'v ReplayAcc result" where
  "replay_created cd data acc =
     bind_res (ok_or (invalid ''missing recorded session_id'')
       (Option.bind (cd_get cd data ''session_id'') (cd_as_str cd))) (\<lambda>recorded.
     bind_res (parse_id ''sess'' recorded) (\<lambda>session.
       let version = (case cd_get cd data ''normalization_version'' of
             None \<Rightarrow> Some 1 | Some v \<Rightarrow> cd_as_u64 cd v)
       in case version of
            Some n \<Rightarrow>
              if n = 1 \<or> n = normalization_version
              then Ok (acc\<lparr>ra_state := creating session, ra_version := n\<rparr>)
              else Err (invalid ''unsupported normalization version'')
          | None \<Rightarrow> Err (invalid ''unsupported normalization version'')))"

text \<open>\<open>BASE64.decode_vec\<close> followed by \<open>parse_record\<close> with the default limits; the parser always
  returns, so the last case does not arise.\<close>

definition replay_raw :: "'v Codec \<Rightarrow> 'v \<Rightarrow> MiRecord result" where
  "replay_raw cd data =
     bind_res (ok_or (invalid ''missing raw_base64'')
       (Option.bind (cd_get cd data ''raw_base64'') (cd_as_str cd))) (\<lambda>encoded.
       case cd_unbase64 cd encoded of
         Err msg \<Rightarrow> Err (invalid (''invalid base64: '' @ msg))
       | Ok raw \<Rightarrow>
           (case parse_record raw default_limits of
              Some (Ok record) \<Rightarrow> Ok record
            | Some (Err e) \<Rightarrow> Err (error_of_mi e)
            | None \<Rightarrow> Err (invalid [])))"

definition drop_module :: "DomainEvent \<Rightarrow> DomainEvent" where
  "drop_module event = (case event of
       DomainEvent.TargetStopped i t reason detail (Some frame) \<Rightarrow>
         DomainEvent.TargetStopped i t reason detail (Some (frame\<lparr>frame_module := None\<rparr>))
     | _ \<Rightarrow> event)"

text \<open>\<open>get_or_insert\<close>.\<close>

definition get_or_insert :: "nat \<Rightarrow> nat option \<Rightarrow> nat option" where
  "get_or_insert n x = (case x of None \<Rightarrow> Some n | Some m \<Rightarrow> Some m)"

definition replay_mi_output :: "'v Codec \<Rightarrow> nat \<Rightarrow> 'v \<Rightarrow> 'v ReplayAcc \<Rightarrow> 'v ReplayAcc result" where
  "replay_mi_output cd seq data acc =
     bind_res (replay_raw cd data) (\<lambda>record.
       let acc1 = acc\<lparr>ra_parsed := ra_parsed acc + 1\<rparr>
       in case normalize record of
            None \<Rightarrow> Ok acc1
          | Some event0 \<Rightarrow>
              let event = (if ra_version acc = 1 then drop_module event0 else event0)
              in bind_res
                   (if ra_saw_normalized acc then Ok acc1
                    else bind_res (apply_event (ra_state acc1) seq event) (\<lambda>(s', _).
                      Ok (acc1\<lparr>ra_state := s', ra_applied := ra_applied acc1 + 1\<rparr>)))
                   (\<lambda>acc2. Ok (acc2\<lparr>ra_pending := Some (seq, event),
                      ra_unmatched := (case ra_pending acc2 of
                         Some (old, _) \<Rightarrow> get_or_insert old (ra_unmatched acc2)
                       | None \<Rightarrow> ra_unmatched acc2)\<rparr>)))"

definition mismatch_error :: "nat \<Rightarrow> nat \<Rightarrow> Error" where
  "mismatch_error seq raw_seq =
     invalid (''normalized event '' @ show_nat seq @ '' differs from MI record '' @ show_nat raw_seq)"

definition match_pending ::
  "nat \<Rightarrow> DomainEvent \<Rightarrow> 'v ReplayAcc \<Rightarrow> 'v ReplayAcc result" where
  "match_pending seq event acc =
     (case ra_pending acc of
        None \<Rightarrow> Ok acc
      | Some (raw_seq, derived) \<Rightarrow>
          let acc1 = acc\<lparr>ra_pending := None\<rparr>
          in if raw_seq + 1 = seq
             then if derived \<noteq> event then Err (mismatch_error seq raw_seq) else Ok acc1
             else Ok (acc1\<lparr>ra_unmatched := get_or_insert raw_seq (ra_unmatched acc1)\<rparr>))"

definition replay_normalized :: "'v Codec \<Rightarrow> nat \<Rightarrow> 'v \<Rightarrow> 'v ReplayAcc \<Rightarrow> 'v ReplayAcc result" where
  "replay_normalized cd seq data acc =
     (let acc1 = (if ra_saw_normalized acc then acc
                  else acc\<lparr>ra_state := creating (session_id (ra_state acc)), ra_applied := 0,
                           ra_saw_normalized := True\<rparr>)
      in case cd_from_event cd data of
           Err msg \<Rightarrow> Err (external_error msg)
         | Ok event \<Rightarrow>
             bind_res (match_pending seq event acc1) (\<lambda>acc2.
             bind_res (apply_event (ra_state acc2) seq event) (\<lambda>(s', _).
               Ok (acc2\<lparr>ra_state := s', ra_applied := ra_applied acc2 + 1\<rparr>))))"

definition checkpoint_error :: "nat \<Rightarrow> Error" where
  "checkpoint_error seq =
     invalid (''state checkpoint '' @ show_nat seq @ '' does not match replay'')"

definition replay_checkpoint :: "'v Codec \<Rightarrow> nat \<Rightarrow> 'v \<Rightarrow> 'v ReplayAcc \<Rightarrow> 'v ReplayAcc result" where
  "replay_checkpoint cd seq data acc =
     bind_res (ok_or (invalid ''missing state revision'')
       (Option.bind (cd_get cd data ''revision'') (cd_as_u64 cd))) (\<lambda>r.
     bind_res (ok_or (invalid ''missing revision state'') (cd_get cd data ''state'')) (\<lambda>v.
       case cd_from_state cd v of
         Err msg \<Rightarrow> Err (external_error msg)
       | Ok recorded \<Rightarrow>
           if \<not> ra_saw_normalized acc \<or> r \<noteq> revision recorded \<or> ra_state acc \<noteq> recorded
           then Err (checkpoint_error seq) else Ok acc))"

definition replay_gap :: "'v Codec \<Rightarrow> nat \<Rightarrow> 'v \<Rightarrow> 'v ReplayAcc \<Rightarrow> 'v ReplayAcc result" where
  "replay_gap cd seq data acc =
     (case cd_from_gap cd data of
        Err msg \<Rightarrow> Err (external_error msg)
      | Ok gap \<Rightarrow>
          if gap_from_seq gap \<noteq> seq then Err (invalid ''invalid journal gap'')
          else Ok (acc\<lparr>ra_gap := Some gap\<rparr>))"

definition replay_closed :: "'v ReplayAcc \<Rightarrow> 'v ReplayAcc result" where
  "replay_closed acc =
     (if \<not> ra_saw_normalized acc \<or> lifecycle (ra_state acc) \<noteq> SessionLifecycle.Closed
      then Err (invalid ''journal closed before the session'')
      else Ok (acc\<lparr>ra_complete := True\<rparr>))"

definition replay_kind :: "'v Codec \<Rightarrow> 'v JournalEntry \<Rightarrow> 'v ReplayAcc \<Rightarrow> 'v ReplayAcc result" where
  "replay_kind cd entry acc =
     (let kind = ent_kind entry; data = ent_data entry; seq = ent_seq entry
      in if kind = ''session.created'' then
           (if ra_entries acc = 1 then replay_created cd data acc
            else Err (invalid ''session.created must be the first journal entry''))
         else if kind = ''mi.output'' then replay_mi_output cd seq data acc
         else if kind = ''normalized.event'' then replay_normalized cd seq data acc
         else if kind = ''state.revision'' then replay_checkpoint cd seq data acc
         else if kind = ''snapshot.result'' then
           Ok (acc\<lparr>ra_snapshots := ra_snapshots acc + 1,
                   ra_latest_snapshot := cd_get cd data ''snapshot''\<rparr>)
         else if kind = ''journal.gap'' then replay_gap cd seq data acc
         else if kind = ''journal.closed'' then replay_closed acc
         else Ok acc)"

definition replay_entry :: "'v Codec \<Rightarrow> 'v JournalEntry \<Rightarrow> 'v ReplayAcc \<Rightarrow> 'v ReplayAcc result" where
  "replay_entry cd entry acc =
     (if ra_complete acc \<or> ra_gap acc \<noteq> None
      then Err (invalid ''journal has records after its terminal marker'')
      else bind_res (require_next_sequence (ra_last_seq acc) (ent_seq entry)) (\<lambda>_.
        replay_kind cd entry
          (acc\<lparr>ra_last_seq := ent_seq entry, ra_entries := ra_entries acc + 1\<rparr>)))"

section \<open>The whole file\<close>

definition replay_line :: "'v Codec \<Rightarrow> string \<Rightarrow> 'v ReplayAcc \<Rightarrow> 'v ReplayAcc result" where
  "replay_line cd l acc =
     (if \<not> utf8_valid (as_bytes l) then Err (external_error ''stream did not contain valid UTF-8'')
      else let content = line_text l
           in if split_whitespace content = [] then Ok acc
              else (case cd_parse cd content of
                      Err msg \<Rightarrow> Err (external_error msg)
                    | Ok entry \<Rightarrow> replay_entry cd entry acc))"

fun replay_lines :: "'v Codec \<Rightarrow> string list \<Rightarrow> 'v ReplayAcc \<Rightarrow> 'v ReplayAcc result" where
  "replay_lines cd [] acc = Ok acc"
| "replay_lines cd (l # ls) acc = bind_res (replay_line cd l acc) (replay_lines cd ls)"

definition first_missing :: "'v ReplayAcc \<Rightarrow> nat option" where
  "first_missing acc =
     (case ra_unmatched acc of
        Some seq \<Rightarrow> Some seq
      | None \<Rightarrow> map_option fst (ra_pending acc))"

definition report_of :: "'v ReplayAcc \<Rightarrow> 'v ReplayReport" where
  "report_of acc =
     \<lparr>rp_complete = ra_complete acc, rp_evidence_gap = ra_gap acc, rp_entries = ra_entries acc,
      rp_parsed_mi_records = ra_parsed acc, rp_applied_events = ra_applied acc,
      rp_snapshots = ra_snapshots acc, rp_latest_snapshot = ra_latest_snapshot acc,
      rp_state = ra_state acc\<rparr>"

definition replay_report :: "'v ReplayAcc \<Rightarrow> 'v ReplayReport result" where
  "replay_report acc =
     (case (if ra_saw_normalized acc then first_missing acc else None) of
        Some seq \<Rightarrow>
          if (case ra_gap acc of None \<Rightarrow> True | Some gap \<Rightarrow> seq + 1 < gap_from_seq gap)
          then Err (invalid (''MI record '' @ show_nat seq @ '' has no matching normalized event''))
          else Ok (report_of acc)
      | None \<Rightarrow> Ok (report_of acc))"

definition replay :: "'v Codec \<Rightarrow> string \<Rightarrow> SessionId \<Rightarrow> 'v ReplayReport result" where
  "replay cd file session =
     bind_res (replay_lines cd (split_file [] file) (replay_init session)) replay_report"

end
