(* ===== verification/Replay_Sound.thy ===== *)
theory Replay_Sound
  imports Replay MI_Roundtrip
begin

text \<open>
  What a successful replay certifies.  The records of the file are separated from the checks made on
  them, and an invariant over the records read so far relates the accumulated state to the reduction
  of the normalised events, to the recorded checkpoints and to the MI records.
\<close>

section \<open>Records of a file\<close>

fun file_entries :: "'v Codec \<Rightarrow> string list \<Rightarrow> 'v JournalEntry list result" where
  "file_entries cd [] = Ok []"
| "file_entries cd (l # ls) =
     (if \<not> utf8_valid (as_bytes l) then Err (external_error ''stream did not contain valid UTF-8'')
      else if split_whitespace (line_text l) = [] then file_entries cd ls
      else case cd_parse cd (line_text l) of
             Err msg \<Rightarrow> Err (external_error msg)
           | Ok entry \<Rightarrow> bind_res (file_entries cd ls) (\<lambda>es. Ok (entry # es)))"

fun replay_entries :: "'v Codec \<Rightarrow> 'v JournalEntry list \<Rightarrow> 'v ReplayAcc \<Rightarrow> 'v ReplayAcc result" where
  "replay_entries cd [] acc = Ok acc"
| "replay_entries cd (e # es) acc = bind_res (replay_entry cd e acc) (replay_entries cd es)"

lemma replay_entries_snoc:
  "replay_entries cd (es @ [e]) acc = bind_res (replay_entries cd es acc) (replay_entry cd e)"
proof (induction es arbitrary: acc)
  case (Cons x es)
  then show ?case by (cases "replay_entry cd x acc") simp_all
next
  case Nil
  then show ?case by (cases "replay_entry cd e acc") simp_all
qed

lemma replay_lines_Ok:
  "replay_lines cd ls acc = Ok acc' \<longleftrightarrow>
     (\<exists>es. file_entries cd ls = Ok es \<and> replay_entries cd es acc = Ok acc')"
proof (induction ls arbitrary: acc)
  case (Cons l ls)
  show ?case
    by (auto simp: replay_line_def Let_def result_simps Cons.IH split: sum.splits)
qed simp

section \<open>What a record says\<close>

definition event_of :: "'v Codec \<Rightarrow> 'v JournalEntry \<Rightarrow> DomainEvent option" where
  "event_of cd e =
     (if ent_kind e = ''normalized.event''
      then (case cd_from_event cd (ent_data e) of Ok ev \<Rightarrow> Some ev | Err _ \<Rightarrow> None) else None)"

definition norm_events :: "'v Codec \<Rightarrow> 'v JournalEntry list \<Rightarrow> (nat \<times> DomainEvent) list" where
  "norm_events cd es = List.map_filter (\<lambda>e. map_option (Pair (ent_seq e)) (event_of cd e)) es"

definition recorded_state :: "'v Codec \<Rightarrow> 'v JournalEntry \<Rightarrow> SessionState option" where
  "recorded_state cd e =
     (if ent_kind e = ''state.revision''
      then (case cd_get cd (ent_data e) ''state'' of
              Some v \<Rightarrow> (case cd_from_state cd v of Ok s \<Rightarrow> Some s | Err _ \<Rightarrow> None)
            | None \<Rightarrow> None)
      else None)"

text \<open>The event an MI record stands for in the format of normalisation \<open>version\<close>.\<close>

definition derived_event :: "'v Codec \<Rightarrow> nat \<Rightarrow> 'v JournalEntry \<Rightarrow> DomainEvent option" where
  "derived_event cd version e =
     (if ent_kind e = ''mi.output''
      then (case replay_raw cd (ent_data e) of
              Ok record \<Rightarrow> map_option (\<lambda>ev. if version = 1 then drop_module ev else ev) (normalize record)
            | Err _ \<Rightarrow> None)
      else None)"

lemma norm_events_simps [simp]:
  "norm_events cd [] = []"
  "norm_events cd (es @ [e]) =
     norm_events cd es @ (case event_of cd e of None \<Rightarrow> [] | Some ev \<Rightarrow> [(ent_seq e, ev)])"
  by (auto simp: norm_events_def List.map_filter_def split: option.splits)

lemma apply_all_snoc:
  "apply_all s (es @ [(n, e)]) =
     (case apply_all s es of Err er \<Rightarrow> Err er
      | Ok s1 \<Rightarrow> (case apply_event s1 n e of Err er \<Rightarrow> Err er | Ok (s2, _) \<Rightarrow> Ok s2))"
  by (induction s es rule: apply_all.induct) (auto split: sum.splits prod.splits)

section \<open>One record\<close>

abbreviation counted :: "'v JournalEntry \<Rightarrow> 'v ReplayAcc \<Rightarrow> 'v ReplayAcc" where
  "counted e acc \<equiv> acc\<lparr>ra_last_seq := ent_seq e, ra_entries := ra_entries acc + 1\<rparr>"

lemma replay_entry_Ok:
  assumes "replay_entry cd e acc = Ok acc'"
  shows "\<not> ra_complete acc" "ra_gap acc = None" "ent_seq e = Suc (ra_last_seq acc)"
    "replay_kind cd e (counted e acc) = Ok acc'"
  using assms
  by (auto simp: replay_entry_def require_next_sequence_def result_simps split: if_splits)

lemma replay_kind_other_events:
  "ent_kind e \<noteq> ''normalized.event'' \<Longrightarrow> event_of cd e = None"
  "ent_kind e \<noteq> ''state.revision'' \<Longrightarrow> recorded_state cd e = None"
  "ent_kind e \<noteq> ''mi.output'' \<Longrightarrow> derived_event cd v e = None"
  by (simp_all add: event_of_def recorded_state_def derived_event_def)

lemma replay_created_Ok:
  assumes "replay_created cd data acc = Ok acc'"
  shows "\<exists>session n. acc' = acc\<lparr>ra_state := creating session, ra_version := n\<rparr>"
  using assms by (auto simp: replay_created_def Let_def result_simps split: option.splits if_splits)

lemma replay_normalized_Ok:
  assumes "replay_normalized cd seq data acc = Ok acc'"
  obtains ev s0 s1 c acc1 where "cd_from_event cd data = Ok ev"
    "s0 = (if ra_saw_normalized acc then ra_state acc else creating (session_id (ra_state acc)))"
    "apply_event s0 seq ev = Ok (s1, c)"
    "match_pending seq ev (acc\<lparr>ra_state := s0, ra_saw_normalized := True,
       ra_applied := (if ra_saw_normalized acc then ra_applied acc else 0)\<rparr>) = Ok acc1"
    "acc' = acc1\<lparr>ra_state := s1, ra_applied := ra_applied acc1 + 1\<rparr>"
proof -
  let ?a = "acc\<lparr>ra_state := (if ra_saw_normalized acc then ra_state acc else creating (session_id (ra_state acc))),
      ra_saw_normalized := True, ra_applied := (if ra_saw_normalized acc then ra_applied acc else 0)\<rparr>"
  have eq: "(if ra_saw_normalized acc then acc
      else acc\<lparr>ra_state := creating (session_id (ra_state acc)), ra_applied := 0, ra_saw_normalized := True\<rparr>) = ?a"
    by simp
  obtain ev where ev: "cd_from_event cd data = Ok ev"
    using assms by (auto simp: replay_normalized_def Let_def split: sum.splits)
  from assms ev obtain acc1 s1 c where m: "match_pending seq ev ?a = Ok acc1"
      "apply_event (ra_state acc1) seq ev = Ok (s1, c)"
      "acc' = acc1\<lparr>ra_state := s1, ra_applied := ra_applied acc1 + 1\<rparr>"
    unfolding replay_normalized_def Let_def eq by (auto simp: result_simps split: prod.splits)
  have "ra_state acc1 = ra_state ?a"
    using m(1) by (auto simp: match_pending_def Let_def split: option.splits prod.splits if_splits)
  with m ev that show ?thesis by simp
qed

lemma apply_event_session: "apply_event s n e = Ok (s', c) \<Longrightarrow> session_id s' = session_id s"
  by (auto simp: apply_event_Ok prod_eq_iff simp del: reduce.simps)

lemma replay_mi_output_Ok:
  assumes "replay_mi_output cd seq data acc = Ok acc'"
  obtains (silent) "derived_event cd (ra_version acc) \<lparr>ent_seq = seq, ent_kind = ''mi.output'', ent_data = data\<rparr> = None"
      "acc' = acc\<lparr>ra_parsed := ra_parsed acc + 1\<rparr>"
  | (event) ev s n where
      "derived_event cd (ra_version acc) \<lparr>ent_seq = seq, ent_kind = ''mi.output'', ent_data = data\<rparr> = Some ev"
      "ra_saw_normalized acc \<Longrightarrow> s = ra_state acc \<and> n = ra_applied acc"
      "session_id s = session_id (ra_state acc)"
      "acc' = acc\<lparr>ra_parsed := ra_parsed acc + 1, ra_state := s, ra_applied := n,
         ra_pending := Some (seq, ev), ra_unmatched := (case ra_pending acc of
            Some (old, _) \<Rightarrow> get_or_insert old (ra_unmatched acc) | None \<Rightarrow> ra_unmatched acc)\<rparr>"
proof -
  obtain mi where r: "replay_raw cd data = Ok mi"
    using assms by (auto simp: replay_mi_output_def result_simps)
  show ?thesis
  proof (cases "normalize mi")
    case None
    then show ?thesis using assms r silent by (simp add: replay_mi_output_def derived_event_def)
  next
    case (Some ev0)
    define ev where "ev = (if ra_version acc = 1 then drop_module ev0 else ev0)"
    have d: "derived_event cd (ra_version acc) \<lparr>ent_seq = seq, ent_kind = ''mi.output'', ent_data = data\<rparr> = Some ev"
      using r Some by (simp add: derived_event_def ev_def)
    show ?thesis
    proof (cases "ra_saw_normalized acc")
      case True
      show ?thesis
        using event [OF d, of "ra_state acc" "ra_applied acc"] assms r Some True
        by (cases "ra_pending acc") (auto simp: replay_mi_output_def Let_def ev_def)
    next
      case False
      then obtain s c where a: "apply_event (ra_state acc) seq ev = Ok (s, c)"
        using assms r Some by (auto simp: replay_mi_output_def Let_def ev_def result_simps)
      show ?thesis
        using event [OF d, of s "ra_applied acc + 1"] assms r Some False a apply_event_session [OF a]
        by (cases "ra_pending acc") (auto simp: replay_mi_output_def Let_def ev_def)
    qed
  qed
qed

lemma ok_or_Ok [simp]: "ok_or e x = Ok y \<longleftrightarrow> x = Some y"
  by (cases x) (simp_all add: ok_or_def)

lemma replay_checkpoint_Ok:
  assumes "replay_checkpoint cd (ent_seq e) (ent_data e) acc = Ok acc'"
  shows "ra_saw_normalized acc \<and> acc' = acc \<and>
    (ent_kind e = ''state.revision'' \<longrightarrow> recorded_state cd e = Some (ra_state acc))"
proof -
  obtain r v where r: "cd_get cd (ent_data e) ''state'' = Some v"
      "(case cd_from_state cd v of Err msg \<Rightarrow> Err (external_error msg)
        | Ok recorded \<Rightarrow>
           if \<not> ra_saw_normalized acc \<or> r \<noteq> revision recorded \<or> ra_state acc \<noteq> recorded
           then Err (checkpoint_error (ent_seq e)) else Ok acc) = Ok acc'"
    using assms by (auto simp: replay_checkpoint_def result_simps)
  then show ?thesis
    by (cases "cd_from_state cd v") (auto simp: recorded_state_def split: if_splits)
qed

text \<open>The effect of one accepted record, by kind.\<close>

lemma replay_kind_cases:
  assumes "replay_kind cd e acc = Ok acc'"
  obtains (created) session n where "ent_kind e = ''session.created''" "ra_entries acc = 1"
      "acc' = acc\<lparr>ra_state := creating session, ra_version := n\<rparr>"
  | (mi) "ent_kind e = ''mi.output''" "replay_mi_output cd (ent_seq e) (ent_data e) acc = Ok acc'"
  | (normalized) "ent_kind e = ''normalized.event''"
      "replay_normalized cd (ent_seq e) (ent_data e) acc = Ok acc'"
  | (checkpoint) s where "ent_kind e = ''state.revision''" "recorded_state cd e = Some s"
      "ra_saw_normalized acc" "ra_state acc = s" "acc' = acc"
  | (closed) "ent_kind e = ''journal.closed''" "ra_saw_normalized acc"
      "lifecycle (ra_state acc) = SessionLifecycle.Closed" "acc' = acc\<lparr>ra_complete := True\<rparr>"
  | (gap) g where "ent_kind e = ''journal.gap''" "cd_from_gap cd (ent_data e) = Ok g"
      "gap_from_seq g = ent_seq e" "acc' = acc\<lparr>ra_gap := Some g\<rparr>"
  | (snapshot) n v where "ent_kind e = ''snapshot.result''"
      "acc' = acc\<lparr>ra_snapshots := n, ra_latest_snapshot := v\<rparr>"
  | (other) "ent_kind e \<notin> {''session.created'', ''mi.output'', ''normalized.event'', ''state.revision'',
      ''snapshot.result'', ''journal.gap'', ''journal.closed''}" "acc' = acc"
proof -
  note k = assms [unfolded replay_kind_def Let_def]
  consider "ent_kind e = ''session.created''" | "ent_kind e = ''mi.output''"
    | "ent_kind e = ''normalized.event''" | "ent_kind e = ''state.revision''"
    | "ent_kind e = ''snapshot.result''" | "ent_kind e = ''journal.gap''" | "ent_kind e = ''journal.closed''"
    | "ent_kind e \<notin> {''session.created'', ''mi.output'', ''normalized.event'', ''state.revision'',
      ''snapshot.result'', ''journal.gap'', ''journal.closed''}" by blast
  then show ?thesis
  proof cases
    case 1
    then have "ra_entries acc = 1" "replay_created cd (ent_data e) acc = Ok acc'"
      using k by (simp_all split: if_splits)
    moreover from replay_created_Ok [OF this(2)]
    obtain session n where "acc' = acc\<lparr>ra_state := creating session, ra_version := n\<rparr>" by (elim exE)
    ultimately show ?thesis using 1 created by simp
  next
    case 2
    then have "replay_mi_output cd (ent_seq e) (ent_data e) acc = Ok acc'" using k by simp
    with 2 mi show ?thesis by blast
  next
    case 3
    then have "replay_normalized cd (ent_seq e) (ent_data e) acc = Ok acc'" using k by simp
    with 3 normalized show ?thesis by blast
  next
    case 4
    then have "replay_checkpoint cd (ent_seq e) (ent_data e) acc = Ok acc'" using k by simp
    from replay_checkpoint_Ok [OF this] 4 checkpoint show ?thesis by simp
  next
    case 5
    then have "acc' = acc\<lparr>ra_snapshots := ra_snapshots acc + 1,
        ra_latest_snapshot := cd_get cd (ent_data e) ''snapshot''\<rparr>" using k by simp
    with 5 snapshot show ?thesis by blast
  next
    case 6
    then have "replay_gap cd (ent_seq e) (ent_data e) acc = Ok acc'" using k by simp
    then obtain g where "cd_from_gap cd (ent_data e) = Ok g" "gap_from_seq g = ent_seq e"
        "acc' = acc\<lparr>ra_gap := Some g\<rparr>"
      by (auto simp: replay_gap_def split: sum.splits if_splits)
    with 6 gap show ?thesis by blast
  next
    case 7
    then have "replay_closed acc = Ok acc'" using k by simp
    then have "ra_saw_normalized acc" "lifecycle (ra_state acc) = SessionLifecycle.Closed"
        "acc' = acc\<lparr>ra_complete := True\<rparr>"
      by (auto simp: replay_closed_def split: if_splits)
    with 7 closed show ?thesis by blast
  next
    case 8
    then have "acc' = acc" using k by simp
    with 8 other show ?thesis by blast
  qed
qed

section \<open>The invariant\<close>

definition event_free :: "'v JournalEntry list \<Rightarrow> bool" where
  "event_free es \<longleftrightarrow> (\<forall>e \<in> set es. ent_kind e \<noteq> ''normalized.event'')"

text \<open>Numbers, the state as the reduction of the events, and the checkpoints met.\<close>

definition state_inv :: "'v Codec \<Rightarrow> 'v JournalEntry list \<Rightarrow> 'v ReplayAcc \<Rightarrow> bool" where
  "state_inv cd es acc \<longleftrightarrow>
     ra_entries acc = length es \<and> ra_last_seq acc = length es \<and>
     map ent_seq es = [1..<Suc (length es)] \<and>
     (ra_saw_normalized acc \<longleftrightarrow> \<not> event_free es) \<and>
     (ra_saw_normalized acc \<longrightarrow>
        apply_all (creating (session_id (ra_state acc))) (norm_events cd es) = Ok (ra_state acc) \<and>
        ra_applied acc = length (norm_events cd es)) \<and>
     (\<forall>k < length es. ent_kind (es ! k) = ''state.revision'' \<longrightarrow>
        (\<exists>s. recorded_state cd (es ! k) = Some s \<and>
           apply_all (creating (session_id (ra_state acc))) (norm_events cd (take k es)) = Ok s)) \<and>
     (ra_complete acc \<longrightarrow> ra_saw_normalized acc \<and> ent_kind (last es) = ''journal.closed'' \<and>
        lifecycle (ra_state acc) = SessionLifecycle.Closed)"

lemma match_pending_frame:
  assumes "match_pending seq ev acc = Ok acc'"
  shows "ra_state acc' = ra_state acc" "ra_entries acc' = ra_entries acc" "ra_last_seq acc' = ra_last_seq acc"
    "ra_saw_normalized acc' = ra_saw_normalized acc" "ra_applied acc' = ra_applied acc"
    "ra_complete acc' = ra_complete acc" "ra_gap acc' = ra_gap acc" "ra_version acc' = ra_version acc"
    "ra_pending acc' = None"
  using assms by (auto simp: match_pending_def Let_def split: option.splits prod.splits if_splits)

lemma event_free_simps [simp]:
  "event_free []" "event_free (es @ [e]) \<longleftrightarrow> event_free es \<and> ent_kind e \<noteq> ''normalized.event''"
  by (auto simp: event_free_def)

lemma event_free_norm: "event_free es \<Longrightarrow> norm_events cd es = []"
  by (induction es rule: rev_induct) (simp_all add: replay_kind_other_events)

text \<open>A record other than an event keeps the invariant when it keeps the parts of the state the
  invariant mentions.\<close>

lemma state_inv_other:
  assumes inv: "state_inv cd es acc" and seq: "ent_seq e = Suc (length es)" "\<not> ra_complete acc"
    and kind: "ent_kind e \<noteq> ''normalized.event''"
    and keep: "ra_entries acc' = Suc (length es)" "ra_last_seq acc' = Suc (length es)"
      "ra_saw_normalized acc' = ra_saw_normalized acc"
      "es = [] \<or> session_id (ra_state acc') = session_id (ra_state acc)"
      "ra_saw_normalized acc \<Longrightarrow> ra_state acc' = ra_state acc \<and> ra_applied acc' = ra_applied acc"
    and check: "ent_kind e = ''state.revision'' \<Longrightarrow>
      ra_saw_normalized acc \<and> recorded_state cd e = Some (ra_state acc)"
    and comp: "ra_complete acc' \<Longrightarrow> ra_saw_normalized acc \<and> ent_kind e = ''journal.closed'' \<and>
      lifecycle (ra_state acc) = SessionLifecycle.Closed"
  shows "state_inv cd (es @ [e]) acc'"
proof -
  have ev: "norm_events cd (es @ [e]) = norm_events cd es"
    using kind by (simp add: replay_kind_other_events)
  have "\<exists>s. recorded_state cd ((es @ [e]) ! k) = Some s \<and>
      apply_all (creating (session_id (ra_state acc'))) (norm_events cd (take k (es @ [e]))) = Ok s"
    if k: "k < Suc (length es)" "ent_kind ((es @ [e]) ! k) = ''state.revision''" for k
  proof (cases "k = length es")
    case True
    then have "ra_saw_normalized acc" "recorded_state cd e = Some (ra_state acc)" using check k by simp_all
    with True inv keep show ?thesis by (simp add: state_inv_def)
  next
    case False
    then have "k < length es" "es \<noteq> []" using k(1) by auto
    moreover from this k(2) inv obtain s where "recorded_state cd (es ! k) = Some s"
        "apply_all (creating (session_id (ra_state acc))) (norm_events cd (take k es)) = Ok s"
      by (auto simp: state_inv_def nth_append)
    ultimately show ?thesis using keep(4) by (simp add: nth_append)
  qed
  then show ?thesis
    using assms(1-5) keep comp unfolding state_inv_def ev by auto
qed

lemma state_inv_event:
  assumes inv: "state_inv cd es acc" and seq: "ent_seq e = Suc (length es)" "\<not> ra_complete acc"
    and kind: "ent_kind e = ''normalized.event''"
    and step: "replay_normalized cd (ent_seq e) (ent_data e) (counted e acc) = Ok acc'"
  shows "state_inv cd (es @ [e]) acc'"
  using step
proof (rule replay_normalized_Ok)
  fix ev s0 s1 c acc1
  assume ev: "cd_from_event cd (ent_data e) = Ok ev"
    and s0: "s0 = (if ra_saw_normalized (counted e acc) then ra_state (counted e acc)
      else creating (session_id (ra_state (counted e acc))))"
    and s1: "apply_event s0 (ent_seq e) ev = Ok (s1, c)"
    and m: "match_pending (ent_seq e) ev (counted e acc\<lparr>ra_state := s0, ra_saw_normalized := True,
       ra_applied := (if ra_saw_normalized (counted e acc) then ra_applied (counted e acc) else 0)\<rparr>) = Ok acc1"
    and acc': "acc' = acc1\<lparr>ra_state := s1, ra_applied := ra_applied acc1 + 1\<rparr>"
  let ?sid = "session_id (ra_state acc)"
  note fr = match_pending_frame [OF m]
  have sid: "session_id (ra_state acc') = ?sid"
    using apply_event_session [OF s1] s0 acc' by (simp add: creating_def split: if_splits)
  have n: "norm_events cd (es @ [e]) = norm_events cd es @ [(ent_seq e, ev)]"
    using kind ev by (simp add: event_of_def)
  have base: "apply_all (creating ?sid) (norm_events cd es) = Ok s0"
    using inv s0 event_free_norm [of es cd] by (auto simp: state_inv_def split: if_splits)
  have st: "apply_all (creating (session_id (ra_state acc'))) (norm_events cd (es @ [e])) = Ok (ra_state acc')"
    unfolding sid n apply_all_snoc using base s1 acc' by simp
  have ap: "ra_applied acc' = length (norm_events cd (es @ [e]))"
    using inv fr acc' n event_free_norm [of es cd] by (auto simp: state_inv_def)
  have ck: "\<exists>s. recorded_state cd ((es @ [e]) ! k) = Some s \<and>
      apply_all (creating (session_id (ra_state acc'))) (norm_events cd (take k (es @ [e]))) = Ok s"
    if k: "k < Suc (length es)" "ent_kind ((es @ [e]) ! k) = ''state.revision''" for k
  proof -
    have "k < length es" using k kind by (cases "k = length es") simp_all
    with k(2) inv show ?thesis unfolding sid by (auto simp: state_inv_def nth_append)
  qed
  show ?thesis
    using st ap ck inv fr acc' seq kind unfolding state_inv_def by simp
qed

lemma state_inv_step:
  assumes "state_inv cd es acc" "replay_entry cd e acc = Ok acc'"
  shows "state_inv cd (es @ [e]) acc'"
proof -
  note ok = replay_entry_Ok [OF assms(2)]
  have seq: "ent_seq e = Suc (length es)" and ent: "ra_entries acc = length es"
    using ok(3) assms(1) by (simp_all add: state_inv_def)
  note other = state_inv_other [OF assms(1) seq ok(1)]
  from ok(4) show ?thesis
  proof (cases rule: replay_kind_cases)
    case (created session n)
    then have es: "es = []" using ent by simp
    then have "\<not> ra_saw_normalized acc" using assms(1) by (simp add: state_inv_def)
    with created es seq ok(1) show ?thesis by (intro other) simp_all
  next
    case mi
    from mi(2) show ?thesis
    proof (cases rule: replay_mi_output_Ok)
      case silent
      with mi seq ok(1) ent show ?thesis by (intro other) simp_all
    next
      case (event ev s n)
      with mi seq ok(1) ent show ?thesis by (intro other) simp_all
    qed
  next
    case normalized
    then show ?thesis by (rule state_inv_event [OF assms(1) seq ok(1)])
  next
    case (checkpoint s)
    with seq ok(1) ent show ?thesis by (intro other) simp_all
  next
    case closed
    with seq ok(1) ent show ?thesis by (intro other) simp_all
  next
    case (gap g)
    with seq ok(1) ent show ?thesis by (intro other) simp_all
  next
    case (snapshot n v)
    with seq ok(1) ent show ?thesis by (intro other) simp_all
  next
    case other2: other
    with seq ok(1) ent show ?thesis by (intro other) simp_all
  qed
qed

lemma state_inv_run:
  assumes "replay_entries cd es (replay_init session) = Ok acc"
  shows "state_inv cd es acc"
  using assms
proof (induction es arbitrary: acc rule: rev_induct)
  case Nil
  then show ?case by (auto simp: state_inv_def replay_init_def)
next
  case (snoc e es)
  then show ?case by (auto simp: replay_entries_snoc result_simps intro: state_inv_step)
qed

text \<open>The session and the format the first record names.\<close>

definition recorded_session :: "'v Codec \<Rightarrow> SessionId \<Rightarrow> 'v JournalEntry list \<Rightarrow> SessionId" where
  "recorded_session cd session es =
     (case es of
        e # _ \<Rightarrow>
          if ent_kind e = ''session.created''
          then (case Option.bind (cd_get cd (ent_data e) ''session_id'') (cd_as_str cd) of
                  Some recorded \<Rightarrow> recorded | None \<Rightarrow> session)
          else session
      | [] \<Rightarrow> session)"

definition recorded_version :: "'v Codec \<Rightarrow> 'v JournalEntry list \<Rightarrow> nat" where
  "recorded_version cd es =
     (case es of
        e # _ \<Rightarrow>
          if ent_kind e = ''session.created''
          then (case Option.bind (cd_get cd (ent_data e) ''normalization_version'') (cd_as_u64 cd) of
                  Some n \<Rightarrow> n | None \<Rightarrow> 1)
          else 1
      | [] \<Rightarrow> 1)"

definition head_inv :: "'v Codec \<Rightarrow> SessionId \<Rightarrow> 'v JournalEntry list \<Rightarrow> 'v ReplayAcc \<Rightarrow> bool" where
  "head_inv cd session es acc \<longleftrightarrow>
     ra_version acc = recorded_version cd es \<and>
     session_id (ra_state acc) = recorded_session cd session es \<and> ra_entries acc = length es"

lemma replay_created_head:
  assumes "replay_created cd (ent_data e) acc = Ok acc'" "ent_kind e = ''session.created''"
  shows "ra_version acc' = recorded_version cd [e] \<and>
    session_id (ra_state acc') = recorded_session cd session [e]"
proof -
  obtain rec s where r: "Option.bind (cd_get cd (ent_data e) ''session_id'') (cd_as_str cd) = Some rec"
      "parse_id ''sess'' rec = Ok s"
      "(case (case cd_get cd (ent_data e) ''normalization_version'' of
             None \<Rightarrow> Some 1 | Some v \<Rightarrow> cd_as_u64 cd v) of
            Some n \<Rightarrow>
              if n = 1 \<or> n = normalization_version
              then Ok (acc\<lparr>ra_state := creating s, ra_version := n\<rparr>)
              else Err (invalid ''unsupported normalization version'')
          | None \<Rightarrow> Err (invalid ''unsupported normalization version'')) = Ok acc'"
    using assms(1) by (auto simp: replay_created_def Let_def result_simps)
  have "s = rec" using r(2) by (simp add: parse_id_def split: option.splits if_splits)
  with r assms(2) show ?thesis
    by (auto simp: recorded_version_def recorded_session_def creating_def
        split: option.splits if_splits)
qed

lemma head_inv_keep:
  assumes "head_inv cd session es acc" "es \<noteq> [] \<or> ent_kind e \<noteq> ''session.created''"
    "ra_version acc' = ra_version acc" "session_id (ra_state acc') = session_id (ra_state acc)"
    "ra_entries acc' = Suc (length es)"
  shows "head_inv cd session (es @ [e]) acc'"
  using assms by (cases es) (simp_all add: head_inv_def recorded_version_def recorded_session_def)

lemma head_inv_step:
  assumes "head_inv cd session es acc" "replay_entry cd e acc = Ok acc'"
  shows "head_inv cd session (es @ [e]) acc'"
proof -
  note ok = replay_entry_Ok [OF assms(2)]
  have ent: "ra_entries acc = length es" using assms(1) by (simp add: head_inv_def)
  note keep = head_inv_keep [OF assms(1)]
  show ?thesis
  proof (cases "ent_kind e = ''session.created''")
    case True
    then have c: "es = []" "replay_created cd (ent_data e) (counted e acc) = Ok acc'"
      using ok(4) ent by (auto simp: replay_kind_def Let_def split: if_splits)
    with replay_created_head [OF c(2) True] replay_created_Ok [OF c(2)] ent show ?thesis
      by (auto simp: head_inv_def)
  next
    case no: False
    from ok(4) show ?thesis
    proof (cases rule: replay_kind_cases)
      case mi
      from mi(2) show ?thesis
        by (cases rule: replay_mi_output_Ok) (rule keep; simp add: no ent)+
    next
      case normalized
      from normalized(2) show ?thesis
      proof (rule replay_normalized_Ok)
        fix ev s0 s1 c acc1
        assume s0: "s0 = (if ra_saw_normalized (counted e acc) then ra_state (counted e acc)
            else creating (session_id (ra_state (counted e acc))))"
          and s1: "apply_event s0 (ent_seq e) ev = Ok (s1, c)"
          and m: "match_pending (ent_seq e) ev (counted e acc\<lparr>ra_state := s0, ra_saw_normalized := True,
             ra_applied := (if ra_saw_normalized (counted e acc) then ra_applied (counted e acc) else 0)\<rparr>) = Ok acc1"
          and acc': "acc' = acc1\<lparr>ra_state := s1, ra_applied := ra_applied acc1 + 1\<rparr>"
        show ?thesis
          using no match_pending_frame [OF m] acc' ent apply_event_session [OF s1] s0
          by (intro keep) (simp_all add: creating_def)
      qed
    qed (rule keep; simp add: no ent)+
  qed
qed

lemma head_inv_run:
  assumes "replay_entries cd es (replay_init session) = Ok acc"
  shows "head_inv cd session es acc"
  using assms
proof (induction es arbitrary: acc rule: rev_induct)
  case Nil
  then show ?case
    by (auto simp: head_inv_def replay_init_def recorded_version_def recorded_session_def creating_def)
next
  case (snoc e es)
  then show ?case by (auto simp: replay_entries_snoc result_simps intro: head_inv_step)
qed

section \<open>Pairing of MI records and events\<close>











section \<open>Files the journal writes\<close>

text \<open>What the encoder of a record promises: compact JSON text is one line of valid UTF-8 that is
  neither blank nor ended by a carriage return, and it is read back as the same record.\<close>

definition line_ok :: "'v Codec \<Rightarrow> 'v JournalEntry \<Rightarrow> bool" where
  "line_ok cd e \<longleftrightarrow>
     CHR 0x0A \<notin> set (cd_line cd e) \<and> utf8_valid (as_bytes (cd_line cd e)) \<and>
     snd (pop_char (CHR 0x0D) (cd_line cd e)) = False \<and> split_whitespace (cd_line cd e) \<noteq> [] \<and>
     cd_parse cd (cd_line cd e) = Ok e"

definition journal_text :: "'v Codec \<Rightarrow> 'v JournalEntry list \<Rightarrow> string" where
  "journal_text cd es = concat (map (\<lambda>e. cd_line cd e @ [CHR 0x0A]) es)"

lemma utf8_valid_append: "utf8_valid a \<Longrightarrow> utf8_valid b \<Longrightarrow> utf8_valid (a @ b)"
proof (induction a rule: length_induct)
  case (1 a)
  show ?case
  proof (cases a)
    case (Cons b0 rest)
    consider (one) "b0 < 0x80" | (two) "\<not> b0 < 0x80" "0xC2 \<le> b0 \<and> b0 \<le> 0xDF"
      | (three) "\<not> b0 < 0x80" "\<not> (0xC2 \<le> b0 \<and> b0 \<le> 0xDF)" "0xE0 \<le> b0 \<and> b0 \<le> 0xEF"
      | (four) "\<not> b0 < 0x80" "\<not> (0xC2 \<le> b0 \<and> b0 \<le> 0xDF)" "\<not> (0xE0 \<le> b0 \<and> b0 \<le> 0xEF)"
          "0xF0 \<le> b0 \<and> b0 \<le> 0xF4"
      using 1(2) Cons by (simp split: if_splits)
    then show ?thesis
    proof cases
      case one
      then show ?thesis using 1 Cons by simp
    next
      case two
      with 1(2) Cons obtain b1 r where "rest = b1 # r" "utf8_cont b1" "utf8_valid r"
        by (simp split: list.splits)
      with 1(1,3) Cons two show ?thesis by simp
    next
      case three
      with 1(2) Cons obtain b1 b2 r where "rest = b1 # b2 # r" "utf8_valid r"
          "utf8_cont b1 \<and> utf8_cont b2 \<and> (b0 = 0xE0 \<longrightarrow> 0xA0 \<le> b1) \<and> (b0 = 0xED \<longrightarrow> b1 \<le> 0x9F)"
        by (simp split: list.splits)
      with 1(1,3) Cons three show ?thesis by (simp only: append_Cons utf8_valid.simps if_True if_False list.case) simp
    next
      case four
      with 1(2) Cons obtain b1 b2 b3 r where "rest = b1 # b2 # b3 # r" "utf8_valid r"
          "utf8_cont b1 \<and> utf8_cont b2 \<and> utf8_cont b3 \<and> (b0 = 0xF0 \<longrightarrow> 0x90 \<le> b1) \<and> (b0 = 0xF4 \<longrightarrow> b1 \<le> 0x8F)"
        by (simp split: list.splits)
      with 1(1,3) Cons four show ?thesis by (simp only: append_Cons utf8_valid.simps if_True if_False list.case) simp
    qed
  qed (use 1(3) in simp)
qed

lemma split_file_line:
  "CHR 0x0A \<notin> set l \<Longrightarrow> split_file a (l @ CHR 0x0A # cs) = (a @ l @ [CHR 0x0A]) # split_file [] cs"
  by (induction l arbitrary: a) auto

lemma split_journal_text:
  "list_all (line_ok cd) es \<Longrightarrow> split_file [] (journal_text cd es) = map (\<lambda>e. cd_line cd e @ [CHR 0x0A]) es"
  by (induction es) (simp_all add: journal_text_def line_ok_def split_file_line)

lemma file_entries_journal_text:
  "list_all (line_ok cd) es \<Longrightarrow> file_entries cd (split_file [] (journal_text cd es)) = Ok es"
proof (simp only: split_journal_text, induction es)
  case (Cons e es)
  have e: "line_ok cd e" using Cons.prems by simp
  have "line_text (cd_line cd e @ [CHR 0x0A]) = cd_line cd e"
    using e by (auto simp: line_text_def pop_char_def line_ok_def split: if_splits)
  moreover have "utf8_valid (as_bytes (cd_line cd e @ [CHR 0x0A]))"
    using e utf8_valid_append [of "as_bytes (cd_line cd e)" "as_bytes [CHR 0x0A]"]
    by (simp add: line_ok_def byte_of_char_def)
  ultimately show ?case using e Cons by (simp add: line_ok_def)
qed simp

section \<open>Properties\<close>

lemma replay_Ok:
  assumes "replay cd file session = Ok rep"
  obtains es acc where "file_entries cd (split_file [] file) = Ok es"
    "replay_entries cd es (replay_init session) = Ok acc" "rep = report_of acc"
    "\<And>m. ra_saw_normalized acc \<Longrightarrow> first_missing acc = Some m \<Longrightarrow>
       (\<exists>g. ra_gap acc = Some g \<and> gap_from_seq g \<le> Suc m)"
proof -
  obtain acc where a: "replay_lines cd (split_file [] file) (replay_init session) = Ok acc"
      "replay_report acc = Ok rep"
    using assms by (auto simp: replay_def result_simps)
  then have "rep = report_of acc" "ra_saw_normalized acc \<Longrightarrow> first_missing acc = Some m \<Longrightarrow>
      (\<exists>g. ra_gap acc = Some g \<and> gap_from_seq g \<le> Suc m)" for m
    by (auto simp: replay_report_def split: option.splits if_splits)
  with a(1) that show ?thesis by (auto simp: replay_lines_Ok)
qed

text \<open>A small journal for the witnesses: the session, one console record of GDB with its event, and a
  checkpoint of the state after it.\<close>

definition sample_raw :: bytes where
  "sample_raw = 0x7E # render_string [0x68]"

definition sample_event :: DomainEvent where
  "sample_event = Output GdbConsoleStream [0x68]"

definition sample_state :: SessionState where
  "sample_state = fst (bump_revision (reduce ((creating ''sess_w'')\<lparr>event_seq := 3\<rparr>) sample_event))"

definition sample_entries :: "PlainValue JournalEntry list" where
  "sample_entries =
     [\<lparr>ent_seq = 1, ent_kind = ''session.created'',
       ent_data = PObj [(''session_id'', PStr ''sess_w''), (''normalization_version'', PNum 2)]\<rparr>,
      \<lparr>ent_seq = 2, ent_kind = ''mi.output'',
       ent_data = PObj [(''raw_base64'', PStr (map char_of_byte sample_raw))]\<rparr>,
      \<lparr>ent_seq = 3, ent_kind = ''normalized.event'', ent_data = PEvent sample_event\<rparr>,
      \<lparr>ent_seq = 4, ent_kind = ''state.revision'',
       ent_data = PObj [(''revision'', PNum (revision sample_state)), (''state'', PState sample_state)]\<rparr>]"

lemma plain_codec_sel [simp]:
  "cd_get (plain_codec es) (PObj kvs) k = map_of kvs k"
  "cd_as_str (plain_codec es) (PStr t) = Some t" "cd_as_u64 (plain_codec es) (PNum n) = Some n"
  "cd_from_event (plain_codec es) (PEvent ev) = Ok ev" "cd_from_state (plain_codec es) (PState s) = Ok s"
  "cd_unbase64 (plain_codec es) t = Ok (as_bytes t)" "cd_line (plain_codec es) = plain_line"
  by (simp_all add: plain_codec_def)

lemma printable_ascii: "list_all printable l \<Longrightarrow> utf8_valid (as_bytes l)"
proof (induction l)
  case (Cons c l)
  then have "byte_of_char c < 0x80" by (auto simp: printable_def word_le_nat_alt word_less_nat_alt)
  with Cons show ?case by simp
qed simp

lemma plain_line_ok:
  assumes "distinct (map ent_seq es)" "e \<in> set es"
  shows "line_ok (plain_codec es) e"
proof -
  have f: "find (\<lambda>x. plain_line e = plain_line x) es = Some e"
    using assms by (induction es) (auto simp: plain_line_def image_iff)
  have r: "printable (CHR ''r'')" and nl: "\<not> printable (CHR 0x0A)" "\<not> printable (CHR 0x0D)"
    by (simp_all add: printable_def byte_of_char_def)
  have "printable c" if "c \<in> set (show_nat n)" for c n
  proof -
    have "is_ascii_digit (byte_of_char c)" using show_nat_digits that by blast
    then show ?thesis by (auto simp: printable_def is_ascii_digit_def word_le_nat_alt)
  qed
  then have pr: "list_all printable (plain_line e)" using r by (auto simp: plain_line_def list_all_iff)
  moreover have "split_whitespace (plain_line e) \<noteq> []"
    using pr by (simp add: split_whitespace_def split_words_printable add_word_def)
      (simp add: plain_line_def)
  moreover have "CHR 0x0A \<notin> set (plain_line e)" "CHR 0x0D \<notin> set (plain_line e)"
    using pr nl by (auto simp: list_all_iff)
  moreover have "cd_parse (plain_codec es) (plain_line e) = Ok e"
    using f by (simp add: plain_codec_def)
  ultimately show ?thesis
    using printable_ascii [OF pr] by (simp add: line_ok_def pop_char_def) (metis last_in_set)
qed

lemma sample_lines: "list_all (line_ok (plain_codec sample_entries)) sample_entries"
  unfolding list_all_iff by (intro ballI plain_line_ok) (simp_all add: sample_entries_def)

lemma sample_raw_record:
  "replay_raw (plain_codec es) (PObj [(''raw_base64'', PStr (map char_of_byte sample_raw))]) =
     Ok (ConsoleStream [0x68])"
proof -
  have "parse_record (0x7E # render_string [0x68]) default_limits = Some (Ok (ConsoleStream [0x68]))"
    by (rule parse_record_stream)
      (simp_all add: record_prefixes default_limits_def render_string_def quote_c_string_def quote_byte_def)
  moreover have "as_bytes (map char_of_byte sample_raw) = sample_raw"
    by (simp add: as_bytes_def comp_def)
  ultimately show ?thesis by (simp add: replay_raw_def ok_or_def sample_raw_def)
qed

lemma sample_event_applies: "apply_event (creating ''sess_w'') 3 sample_event =
    Ok (sample_state, snd (bump_revision (reduce ((creating ''sess_w'')\<lparr>event_seq := 3\<rparr>) sample_event)))"
  unfolding apply_event_Ok sample_state_def by (simp add: creating_def prod_eq_iff del: reduce.simps)

lemma sample_replays:
  "\<exists>acc. replay_entries (plain_codec es) sample_entries (replay_init ''sess_x'') = Ok acc \<and>
     replay_report acc = Ok (report_of acc)"
proof -
  have id: "parse_id ''sess'' ''sess_w'' = Ok ''sess_w''"
    by (simp add: parse_id_def strip_prefix_def id_char_def is_ascii_alphanumeric_def byte_of_char_def)
  have sid: "session_id (creating x) = x" for x by (simp add: creating_def)
  obtain s2 c2 where e2: "apply_event (creating ''sess_w'') 2 sample_event = Ok (s2, c2)"
    unfolding apply_event_Ok by (simp add: creating_def prod_eq_iff del: reduce.simps)
  note s2 = apply_event_session [OF e2, unfolded sid]
  show ?thesis
    unfolding sample_entries_def
    by (simp add: replay_entry_def require_next_sequence_def replay_kind_def replay_init_def
        replay_created_def ok_or_def id normalization_version_def replay_mi_output_def
        sample_raw_record sample_event_def [symmetric] e2 replay_normalized_def sid s2
        match_pending_def sample_event_applies replay_checkpoint_def replay_report_def first_missing_def)
qed

lemma sample_file_replays:
  "\<exists>rep. replay (plain_codec sample_entries) (journal_text (plain_codec sample_entries) sample_entries)
     ''sess_x'' = Ok rep"
proof -
  obtain acc where "replay_entries (plain_codec sample_entries) sample_entries (replay_init ''sess_x'') = Ok acc"
      "replay_report acc = Ok (report_of acc)"
    using sample_replays by blast
  with file_entries_journal_text [OF sample_lines] show ?thesis
    by (auto simp: replay_def result_simps replay_lines_Ok)
qed

lemma sample_kinds: "\<not> event_free sample_entries" "ent_kind (sample_entries ! 3) = ''state.revision''"
  "3 < length sample_entries"
  by (simp_all add: event_free_def sample_entries_def)

lemma creating_session [simp]: "session_id (creating x) = x"
  by (simp add: creating_def)

lemma apply_all_session: "apply_all s es = Ok s' \<Longrightarrow> session_id s' = session_id s"
proof (induction s es rule: apply_all.induct)
  case (2 s n e es)
  then show ?case by (auto split: sum.splits prod.splits dest: apply_event_session)
qed simp

text \<open>C38.  A replay certifies the state it reports: when a journal is accepted, its records are
  numbered 1, 2, 3 and so on; when it contains normalised events, the reported state is the reduction of
  exactly these events from a new session with the recorded identifier; every recorded checkpoint
  equals the reduction of the events before it; and the journal is called complete only when its last
  record closes the journal of a closed session.\<close>

theorem replay_certifies_state:
  assumes "replay cd file session = Ok rep"
  shows "\<exists>es. file_entries cd (split_file [] file) = Ok es \<and>
    rp_entries rep = length es \<and> map ent_seq es = [1..<Suc (length es)] \<and>
    (\<not> event_free es \<longrightarrow>
       apply_all (creating (recorded_session cd session es)) (norm_events cd es) = Ok (rp_state rep) \<and>
       rp_applied_events rep = length (norm_events cd es)) \<and>
    (\<forall>k < length es. ent_kind (es ! k) = ''state.revision'' \<longrightarrow>
       (\<exists>s. recorded_state cd (es ! k) = Some s \<and>
          apply_all (creating (recorded_session cd session es)) (norm_events cd (take k es)) = Ok s)) \<and>
    (rp_complete rep \<longrightarrow> \<not> event_free es \<and> ent_kind (last es) = ''journal.closed'' \<and>
       lifecycle (rp_state rep) = SessionLifecycle.Closed)"
  using assms
proof (rule replay_Ok)
  fix es acc
  assume es: "file_entries cd (split_file [] file) = Ok es"
    and run: "replay_entries cd es (replay_init session) = Ok acc" and rep: "rep = report_of acc"
  have "session_id (ra_state acc) = recorded_session cd session es"
    using head_inv_run [OF run] by (simp add: head_inv_def)
  with es rep state_inv_run [OF run] show ?thesis
    by (intro exI [of _ es]) (auto simp: state_inv_def report_of_def simp del: upt_Suc)
qed

theorem replay_certifies_state_witness:
  "\<exists>rep. replay (plain_codec sample_entries) (journal_text (plain_codec sample_entries) sample_entries)
       ''sess_x'' = Ok rep \<and> rp_entries rep = 4 \<and> session_id (rp_state rep) = ''sess_w''"
proof -
  let ?cd = "plain_codec sample_entries"
  obtain rep where rep: "replay ?cd (journal_text ?cd sample_entries) ''sess_x'' = Ok rep"
    using sample_file_replays by blast
  have len: "length sample_entries = 4" by (simp add: sample_entries_def)
  have rs: "recorded_session ?cd ''sess_x'' sample_entries = ''sess_w''"
    by (simp add: recorded_session_def sample_entries_def)
  from replay_certifies_state [OF rep] file_entries_journal_text [OF sample_lines]
  have "rp_entries rep = 4"
      "apply_all (creating ''sess_w'') (norm_events ?cd sample_entries) = Ok (rp_state rep)"
    using sample_kinds(1) len rs by auto
  with rep apply_all_session show ?thesis by (metis creating_session)
qed



end
