(* ===== verification/Metrics.thy ===== *)
theory Metrics
  imports GDB_Prelude
begin

text \<open>
  The service counters of \<open>crates/gdb-ai-core/src/metrics.rs\<close>: 64-bit atomic counters that wrap
  around.  Every update is one atomic operation, so an update of the whole record stands for it.
\<close>

record Metrics =
  m_sessions_total :: "64 word"
  m_sessions_active :: "64 word"
  m_session_failures :: "64 word"
  m_gdb_start_failures :: "64 word"
  m_mi_records :: "64 word"
  m_mi_parse_errors :: "64 word"
  m_mi_unknown_classes :: "64 word"
  m_commands :: "64 word"
  m_command_latency_micros :: "64 word"
  m_command_timeouts :: "64 word"
  m_target_stops :: "64 word"
  m_snapshots :: "64 word"
  m_snapshot_latency_micros :: "64 word"
  m_snapshot_partial :: "64 word"
  m_raw_commands :: "64 word"
  m_reconciliations :: "64 word"
  m_consistency_lost :: "64 word"
  m_response_truncations :: "64 word"
  m_artifact_bytes :: "64 word"
  m_artifact_stored_bytes :: "64 word"
  m_artifact_capacity_bytes :: "64 word"
  m_inferior_output_spooled_bytes :: "64 word"
  m_inferior_output_dropped_bytes :: "64 word"
  m_event_gaps :: "64 word"

definition metrics_default :: Metrics where
  "metrics_default =
     \<lparr>m_sessions_total = 0, m_sessions_active = 0, m_session_failures = 0, m_gdb_start_failures = 0,
      m_mi_records = 0, m_mi_parse_errors = 0, m_mi_unknown_classes = 0, m_commands = 0,
      m_command_latency_micros = 0, m_command_timeouts = 0, m_target_stops = 0, m_snapshots = 0,
      m_snapshot_latency_micros = 0, m_snapshot_partial = 0, m_raw_commands = 0,
      m_reconciliations = 0, m_consistency_lost = 0, m_response_truncations = 0,
      m_artifact_bytes = 0, m_artifact_stored_bytes = 0, m_artifact_capacity_bytes = 0,
      m_inferior_output_spooled_bytes = 0, m_inferior_output_dropped_bytes = 0, m_event_gaps = 0\<rparr>"

definition session_started :: "Metrics \<Rightarrow> Metrics" where
  "session_started m = m\<lparr>m_sessions_total := m_sessions_total m + 1, m_sessions_active := m_sessions_active m + 1\<rparr>"

definition session_closed :: "Metrics \<Rightarrow> Metrics" where
  "session_closed m = m\<lparr>m_sessions_active := m_sessions_active m - 1\<rparr>"

definition session_failed :: "Metrics \<Rightarrow> Metrics" where
  "session_failed m = m\<lparr>m_session_failures := m_session_failures m + 1\<rparr>"

definition gdb_start_failed :: "Metrics \<Rightarrow> Metrics" where
  "gdb_start_failed m = m\<lparr>m_gdb_start_failures := m_gdb_start_failures m + 1\<rparr>"

definition mi_record :: "Metrics \<Rightarrow> Metrics" where
  "mi_record m = m\<lparr>m_mi_records := m_mi_records m + 1\<rparr>"

definition mi_parse_error :: "Metrics \<Rightarrow> Metrics" where
  "mi_parse_error m = m\<lparr>m_mi_parse_errors := m_mi_parse_errors m + 1\<rparr>"

definition mi_unknown_class :: "Metrics \<Rightarrow> Metrics" where
  "mi_unknown_class m = m\<lparr>m_mi_unknown_classes := m_mi_unknown_classes m + 1\<rparr>"

definition metrics_command :: "64 word \<Rightarrow> bool \<Rightarrow> Metrics \<Rightarrow> Metrics" where
  "metrics_command elapsed_micros timed_out m =
     m\<lparr>m_commands := m_commands m + 1,
       m_command_latency_micros := m_command_latency_micros m + elapsed_micros,
       m_command_timeouts := (if timed_out then m_command_timeouts m + 1 else m_command_timeouts m)\<rparr>"

definition target_stop :: "Metrics \<Rightarrow> Metrics" where
  "target_stop m = m\<lparr>m_target_stops := m_target_stops m + 1\<rparr>"

definition metrics_snapshot :: "64 word \<Rightarrow> bool \<Rightarrow> Metrics \<Rightarrow> Metrics" where
  "metrics_snapshot elapsed_micros partial m =
     m\<lparr>m_snapshots := m_snapshots m + 1,
       m_snapshot_latency_micros := m_snapshot_latency_micros m + elapsed_micros,
       m_snapshot_partial := (if partial then m_snapshot_partial m + 1 else m_snapshot_partial m)\<rparr>"

definition raw_command :: "Metrics \<Rightarrow> Metrics" where
  "raw_command m = m\<lparr>m_raw_commands := m_raw_commands m + 1\<rparr>"

definition reconciliation :: "Metrics \<Rightarrow> Metrics" where
  "reconciliation m = m\<lparr>m_reconciliations := m_reconciliations m + 1\<rparr>"

definition consistency_lost :: "Metrics \<Rightarrow> Metrics" where
  "consistency_lost m = m\<lparr>m_consistency_lost := m_consistency_lost m + 1\<rparr>"

definition response_truncated :: "Metrics \<Rightarrow> Metrics" where
  "response_truncated m = m\<lparr>m_response_truncations := m_response_truncations m + 1\<rparr>"

text \<open>\<open>as u64\<close> of a \<open>usize\<close> keeps the value on the 64-bit targets.\<close>

definition artifact_written :: "nat \<Rightarrow> Metrics \<Rightarrow> Metrics" where
  "artifact_written n m = m\<lparr>m_artifact_bytes := m_artifact_bytes m + of_nat n\<rparr>"

definition artifact_storage :: "nat \<Rightarrow> nat \<Rightarrow> Metrics \<Rightarrow> Metrics" where
  "artifact_storage stored capacity m =
     m\<lparr>m_artifact_stored_bytes := of_nat stored, m_artifact_capacity_bytes := of_nat capacity\<rparr>"

definition inferior_output_spooled :: "nat \<Rightarrow> Metrics \<Rightarrow> Metrics" where
  "inferior_output_spooled n m =
     m\<lparr>m_inferior_output_spooled_bytes := m_inferior_output_spooled_bytes m + of_nat n\<rparr>"

definition inferior_output_dropped :: "nat \<Rightarrow> Metrics \<Rightarrow> Metrics" where
  "inferior_output_dropped n m =
     m\<lparr>m_inferior_output_dropped_bytes := m_inferior_output_dropped_bytes m + of_nat n\<rparr>"

definition event_gap :: "Metrics \<Rightarrow> Metrics" where
  "event_gap m = m\<lparr>m_event_gaps := m_event_gaps m + 1\<rparr>"

lemma session_balance [simp]:
  "m_sessions_active (session_closed (session_started m)) = m_sessions_active m"
  "m_sessions_active (session_failed m) = m_sessions_active m"
  by (simp_all add: session_closed_def session_started_def session_failed_def)

end
