(* ===== verification/Worker.thy ===== *)
theory Worker
  imports Journal Live_State Metrics Byte_Ring Mi_Command
begin

text \<open>
  The session worker of \<open>crates/gdb-ai-core/src/session/actor.rs\<close>: the task that owns the journal,
  the session state and the registries of one session.  This theory holds its state and the code
  every transition goes through: applying an event (journal, reduction, checkpoint, publication,
  the snapshot of a stop), storing snapshots, checkpoints, and the reports of lost evidence.

  The worker's method bodies run without interruption, so each is a function from the worker to a
  result and the next worker.  What the database, the journal's file, the clock and the identifier
  generator answer is the parameter \<open>WorkerEnv\<close>: the \<open>n\<close>-th call to the outside gets the \<open>n\<close>-th
  answer, and \<open>wk_calls\<close> counts the calls.  \<open>wk_stored\<close> records the database writes that succeeded,
  \<open>wk_sent\<close> the events handed to the broadcast channel, \<open>wk_lines\<close> the command lines sent to GDB and
  \<open>wk_replies\<close> the answers to control requests.  \<open>wk_inbox\<close> is what the channels will deliver, in the
  order the worker receives it, with the time of each arrival; \<open>wk_now\<close> is the clock in milliseconds.
\<close>

section \<open>Worker state\<close>

datatype CapabilityStatus =
  Supported | Unsupported | Conditional | Limited | Unknown | TemporarilyUnavailable

record Capability =
  cap_status :: CapabilityStatus
  cap_scope :: string
  cap_constraints :: "string list"
  cap_source :: string
  cap_last_checked_revision :: nat

record PublishedEvent =
  pe_event_seq :: nat
  pe_revision :: nat
  pe_event :: DomainEvent

record PendingModuleBreakpoint =
  pm_id :: BreakpointId
  pm_backend_number :: string
  pm_module :: string
  pm_offset :: nat
  pm_enabled :: bool
  pm_command :: MiCommand

datatype StoreWrite =
    StoreSnapshot SessionId string Json
  | StoreOperation OperationRecord
  | StoreCheckpoint "(SessionState \<times> Profile) option" "OperationRecord list"
  | StoreTracking SessionId TrackingDefinition
  | DropTracking SessionId TrackingId

text \<open>What finalising the spooled output of the inferior reports.\<close>

record EvidenceResult =
  er_status :: Json
  er_spooled_bytes :: nat
  er_artifact_bytes :: nat
  er_stored_bytes :: "nat option"

record WorkerEnv =
  ev_codec :: "Json Codec"
  ev_io :: "nat \<Rightarrow> JournalIo"
  ev_store :: "nat \<Rightarrow> unit result"
  ev_ulid :: "nat \<Rightarrow> string"
  ev_micros :: "nat \<Rightarrow> 64 word"
  ev_backend :: "nat \<Rightarrow> unit result"
  ev_exit_status :: "nat \<Rightarrow> int option result"
  ev_evidence :: "nat \<Rightarrow> EvidenceResult result"
  ev_module_offset :: "nat \<Rightarrow> string option result"
  ev_cancelled :: "nat \<Rightarrow> OperationId \<Rightarrow> bool"
  ev_record_json :: "MiRecord \<Rightarrow> Json"
  ev_json_bytes :: "Json \<Rightarrow> nat"
  ev_tokens_text :: "nat set \<Rightarrow> string"
  ev_layout :: "nat \<Rightarrow> nat"
  ev_spool :: "nat \<Rightarrow> RingRead option"
  ev_written :: "nat \<Rightarrow> nat result"

text \<open>What the worker is told: records and bytes of GDB and the inferior, requests of the control
  lane, and the clock.  The channel a request is answered on is a number.\<close>

datatype BackendInput =
    Mi bytes MiRecord | ProtocolError Error | GdbStderr bytes | InferiorPty | GdbEof

datatype OperationCancelMode = InterruptTarget | CloseSession

datatype ControlRequest =
    RecordOperation OperationRecord nat
  | RecordApi Json nat
  | Interrupt MiCommand nat nat
  | CancelOperation OperationId OperationCancelMode nat
  | Close nat

datatype ExecutionInput =
    ControlInput "ControlRequest option" | BackendReady "BackendInput option" | Deadline

record CommandReply =
  cr_token :: nat
  cr_class :: string
  cr_record :: MiRecord
  cr_stream_records :: "MiRecord list"
  cr_stream_truncated :: bool
  cr_evidence_seq :: nat

datatype WorkerReply =
    UnitReply "unit result"
  | CommandReplied "CommandReply result"
  | RepliesReplied "CommandReply result list result"
  | OperationReplied "OperationRecord result"
  | CapabilitiesReplied "((string, Capability) btree \<times> string list) result"
  | ValueReplied "ValueBinding result"
  | TrackingReplied "TrackingDefinition result"
  | TrackingListed "TrackingDefinition list"
  | ChangesReplied "(string, Json) btree result"
  | SnapshotReplied "Json result"
  | OutputReplied RingRead
  | WrittenReplied "nat result"

record Worker =
  wk_calls :: nat
  wk_now :: nat
  wk_inbox :: "(nat \<times> ExecutionInput) list"
  wk_replies :: "(nat \<times> WorkerReply) list"
  wk_lines :: "bytes list"
  wk_controls_open :: bool
  wk_command_timeout :: nat
  wk_deferred_restoration :: "MiCommand list"
  wk_output_finalized :: bool
  wk_total_artifact_limit :: nat
  wk_journal :: "Json Journal"
  wk_state :: LiveState
  wk_stored :: "StoreWrite list"
  wk_metrics :: Metrics
  wk_profile :: Profile
  wk_capabilities :: "(string, Capability) btree"
  wk_features :: "string list"
  wk_target_features :: "string list"
  wk_commands :: "string list"
  wk_limitations :: "string list"
  wk_sent :: "PublishedEvent list"
  wk_pty :: ByteRing
  wk_pty_generation :: nat
  wk_output_offset :: nat
  wk_output_dropped :: nat
  wk_target_output :: ByteRing
  wk_console_output :: ByteRing
  wk_log_output :: ByteRing
  wk_next_token :: nat
  wk_timed_out_tokens :: "nat set"
  wk_interrupt_fallback_at :: "nat option"
  wk_stream_limit :: nat
  wk_values :: "(string, ValueBinding) btree"
  wk_tracking :: "(string, TrackingDefinition) btree"
  wk_tracking_history :: "(string, Json list) btree"
  wk_snapshots :: "(string \<times> Json) list"
  wk_stale_backend_values :: "string list"
  wk_pending_module_breakpoints :: "(string, PendingModuleBreakpoint) btree"
  wk_active_resume_operation :: "OperationId option"
  wk_module_rebind_needed :: bool
  wk_replacing_module_breakpoint :: bool
  wk_deferred_snapshot_ready :: "(StopId \<times> string \<times> bool) option"
  wk_tracking_memory_limit :: nat
  wk_snapshot_limit :: nat
  wk_state_dirty :: bool
  wk_operations :: "(string, OperationRecord) btree"
  wk_dirty_operations :: "(string, unit) btree"
  wk_operation_limit :: nat
  wk_journal_gap_reported :: bool
  wk_store_failed :: bool
  wk_fatal :: bool
  wk_metric_active :: bool

type_synonym 'a worker_act = "(Worker, Error, 'a) act"

text \<open>The handler of an event, as the recursive calls of the methods below use it.\<close>

type_synonym event_handler = "DomainEvent \<Rightarrow> unit worker_act"

abbreviation worker_session :: "Worker \<Rightarrow> SessionState" where
  "worker_session w \<equiv> live_borrow (wk_state w)"

abbreviation upd_metrics :: "(Metrics \<Rightarrow> Metrics) \<Rightarrow> Worker \<Rightarrow> Worker" where
  "upd_metrics f w \<equiv> w\<lparr>wk_metrics := f (wk_metrics w)\<rparr>"

section \<open>Calls to the outside\<close>

definition with_journal ::
  "WorkerEnv \<Rightarrow> (JournalIo \<Rightarrow> (Json Journal, Error, 'a) act) \<Rightarrow> 'a worker_act" where
  "with_journal env m w =
     (case m (ev_io env (wk_calls w)) (wk_journal w) of
        (r, j) \<Rightarrow> (r, w\<lparr>wk_journal := j, wk_calls := wk_calls w + 1\<rparr>))"

definition store_call :: "WorkerEnv \<Rightarrow> StoreWrite \<Rightarrow> Worker \<Rightarrow> unit result \<times> Worker" where
  "store_call env item w =
     (let r = ev_store env (wk_calls w)
      in (r, w\<lparr>wk_calls := wk_calls w + 1,
                wk_stored := (if is_ok r then wk_stored w @ [item] else wk_stored w)\<rparr>))"

section \<open>Failure\<close>

definition mark_failed :: "Worker \<Rightarrow> Worker" where
  "mark_failed w =
     (case live_fail_closed (wk_state w) of (changed, ls) \<Rightarrow>
        let w1 = w\<lparr>wk_state := ls, wk_state_dirty := (changed \<or> wk_state_dirty w)\<rparr>
        in if wk_metric_active w1
           then upd_metrics (session_closed \<circ> session_failed) (w1\<lparr>wk_metric_active := False\<rparr>)
           else w1)"

definition fail_worker :: "Worker \<Rightarrow> Worker" where
  "fail_worker w = mark_failed (w\<lparr>wk_fatal := True\<rparr>)"

definition gap_reason_text :: "JournalGap \<Rightarrow> string" where
  "gap_reason_text gap =
     ''journal evidence unavailable from sequence '' @ show_nat (gap_from_seq gap) @ '': '' @ gap_reason gap"

definition report_journal_gap :: "event_handler \<Rightarrow> unit worker_act" where
  "report_journal_gap handle w =
     (if \<not> wk_journal_gap_reported w then
        (case jr_gap (wk_journal w) of
           Some gap \<Rightarrow> handle (EvidenceGap (gap_reason_text gap)) (w\<lparr>wk_journal_gap_reported := True\<rparr>)
         | None \<Rightarrow> (Ok (), w))
      else (Ok (), w))"

definition journal_result :: "event_handler \<Rightarrow> 'a result \<Rightarrow> 'a worker_act" where
  "journal_result handle r w =
     (case r of
        Err e \<Rightarrow> (Err e, fail_worker w)
      | Ok x \<Rightarrow> act_bind (report_journal_gap handle) (\<lambda>_. act_return x) w)"

definition store_result :: "event_handler \<Rightarrow> unit result \<Rightarrow> unit worker_act" where
  "store_result handle r w =
     (case r of
        Ok _ \<Rightarrow> (Ok (), w)
      | Err e \<Rightarrow>
          if is_durable (wk_journal w) then (Err e, fail_worker w)
          else if wk_store_failed w then (Ok (), w)
          else handle (EvidenceGap (''SQLite history is incomplete: '' @ error_string e))
                 (w\<lparr>wk_store_failed := True\<rparr>))"

section \<open>Checkpoints\<close>

definition checkpoint_record :: "WorkerEnv \<Rightarrow> event_handler \<Rightarrow> nat worker_act" where
  "checkpoint_record env handle w =
     (let w1 = w\<lparr>wk_state_dirty := False\<rparr>; s = worker_session w1
      in act_then (with_journal env (\<lambda>io. append_state (ev_codec env) io (revision s) s))
           (journal_result handle) w1)"

definition checkpoint_store ::
  "WorkerEnv \<Rightarrow> event_handler \<Rightarrow> bool \<Rightarrow> string list \<Rightarrow> unit worker_act" where
  "checkpoint_store env handle with_state dirty w =
     (case store_call env (StoreCheckpoint
             (if with_state then Some (worker_session w, wk_profile w) else None)
             (List.map_filter (bt_get (wk_operations w)) dirty)) w of
        (r, w1) \<Rightarrow> store_result handle r w1)"

definition checkpoint_history ::
  "WorkerEnv \<Rightarrow> event_handler \<Rightarrow> bool \<Rightarrow> bool \<Rightarrow> string list \<Rightarrow> unit worker_act" where
  "checkpoint_history env handle closing with_state dirty w =
     (if \<not> wk_store_failed w \<or> closing then checkpoint_store env handle with_state dirty w
      else (Ok (), w))"

definition checkpoint_body ::
  "WorkerEnv \<Rightarrow> event_handler \<Rightarrow> bool \<Rightarrow> bool \<Rightarrow> string list \<Rightarrow> unit worker_act" where
  "checkpoint_body env handle closing with_state dirty =
     act_bind (if with_state then checkpoint_record env handle else act_return 0)
       (\<lambda>_. checkpoint_history env handle closing with_state dirty)"

definition checkpoint :: "WorkerEnv \<Rightarrow> event_handler \<Rightarrow> bool \<Rightarrow> unit worker_act" where
  "checkpoint env handle closing w =
     (let dirty = (if wk_store_failed w then [] else bt_keys (wk_dirty_operations w));
          w1 = w\<lparr>wk_dirty_operations := []\<rparr>;
          with_state = (wk_state_dirty w \<or> closing \<and> wk_store_failed w)
      in if \<not> with_state \<and> dirty = [] then (Ok (), w1)
         else checkpoint_body env handle closing with_state dirty w1)"

section \<open>Snapshots\<close>

definition insert_context :: "string \<Rightarrow> (string \<times> Json option) list \<Rightarrow> (string, Json) btree \<Rightarrow> (string, Json) btree"
  where
  "insert_context snapshot_id context nested =
     fold (\<lambda>(name, v) m. case v of Some x \<Rightarrow> bt_insert name x m | None \<Rightarrow> m) context
       (bt_insert ''observation_id'' (JString snapshot_id) nested)"

definition update_nested ::
  "((string, Json) btree \<Rightarrow> (string, Json) btree) \<Rightarrow> string \<Rightarrow> (string, Json) btree \<Rightarrow> (string, Json) btree"
  where
  "update_nested f field object =
     (case bt_get object field of
        Some (JObject nested) \<Rightarrow> bt_insert field (JObject (f nested)) object
      | _ \<Rightarrow> object)"

definition finalize_snapshot :: "string \<Rightarrow> (string, Json) btree \<Rightarrow> (string, Json) btree" where
  "finalize_snapshot snapshot_id object =
     (let o1 = bt_remove ''snapshot_id'' (bt_remove ''observation_id'' object);
          o2 = bt_insert ''snapshot_id'' (JString snapshot_id)
                 (bt_insert ''observation_id'' (JString snapshot_id) o1);
          context = map (\<lambda>field. (field, bt_get o2 field))
                      [''stop_id'', ''captured_revision'', ''execution_epoch'']
      in fold (update_nested (insert_context snapshot_id context)) [''context'', ''observation_context''] o2)"

text \<open>\<open>while snapshots.len() >= limit { pop_front }\<close>; the configuration refuses a limit of zero, for
  which the loop of the source would not end.\<close>

fun evict_front :: "nat \<Rightarrow> 'a list \<Rightarrow> 'a list" where
  "evict_front limit [] = []"
| "evict_front limit (x # xs) = (if limit \<le> length (x # xs) then evict_front limit xs else x # xs)"

definition keep_snapshot :: "string \<Rightarrow> Json \<Rightarrow> Json worker_act" where
  "keep_snapshot snapshot_id snap w =
     (case find (\<lambda>(i, _). i = snapshot_id) (wk_snapshots w) of
        Some (_, existing) \<Rightarrow>
          (if existing = snap then Ok snap
           else Err (new_error Conflict ''observation ID already contains different data''), w)
      | None \<Rightarrow>
          (Ok snap, w\<lparr>wk_snapshots :=
             evict_front (wk_snapshot_limit w) (wk_snapshots w) @ [(snapshot_id, snap)]\<rparr>))"

definition snapshot_history :: "WorkerEnv \<Rightarrow> event_handler \<Rightarrow> string \<Rightarrow> Json \<Rightarrow> unit worker_act" where
  "snapshot_history env handle snapshot_id final w =
     (if \<not> wk_store_failed w
      then (case store_call env (StoreSnapshot (session_id (worker_session w)) snapshot_id final) w of
              (r, w1) \<Rightarrow> store_result handle r w1)
      else (Ok (), w))"

definition commit_snapshot_value :: "WorkerEnv \<Rightarrow> event_handler \<Rightarrow> string \<Rightarrow> Json \<Rightarrow> Json worker_act" where
  "commit_snapshot_value env handle snapshot_id final =
     act_bind
       (act_then (with_journal env (\<lambda>io. append_snapshot (ev_codec env) io snapshot_id final))
          (journal_result handle))
       (\<lambda>_. act_bind (snapshot_history env handle snapshot_id final)
         (\<lambda>_. keep_snapshot snapshot_id final))"

definition store_snapshot_value :: "WorkerEnv \<Rightarrow> event_handler \<Rightarrow> Json \<Rightarrow> Json worker_act" where
  "store_snapshot_value env handle snap w =
     (case json_as_object snap of
        None \<Rightarrow> (Err (new_error InvalidArgument ''snapshot must be an object''), w)
      | Some object \<Rightarrow>
          let snapshot_id = ''obs_'' @ ev_ulid env (wk_calls w)
          in commit_snapshot_value env handle snapshot_id (JObject (finalize_snapshot snapshot_id object))
               (w\<lparr>wk_calls := wk_calls w + 1\<rparr>))"

definition observation_id :: "Json \<Rightarrow> string result" where
  "observation_id snap =
     ok_or (new_error Internal ''stored observation has no ID'')
       (Option.bind (json_get snap ''observation_id'') json_as_str)"

section \<open>Events\<close>

definition set_capability_at ::
  "nat \<Rightarrow> string \<Rightarrow> CapabilityStatus \<Rightarrow> (string, Capability) btree \<Rightarrow> (string, Capability) btree" where
  "set_capability_at r name status caps =
     bt_update name (\<lambda>c. c\<lparr>cap_status := status, cap_last_checked_revision := r\<rparr>) caps"

definition may_execute :: "Profile \<Rightarrow> bool" where
  "may_execute profile \<longleftrightarrow> profile \<in> {DebugControl, LabMutation, RawAdmin}"

fun event_capabilities ::
  "Profile \<Rightarrow> DomainEvent \<Rightarrow> SessionState \<Rightarrow> (string, Capability) btree \<Rightarrow> (string, Capability) btree" where
  "event_capabilities profile (CoreOpened _) s caps =
     set_capability_at (revision s) ''memory_write'' Unsupported
       (set_capability_at (revision s) ''target_mutation'' Unsupported
         (set_capability_at (revision s) ''execution'' Unsupported caps))"
| "event_capabilities profile (DomainEvent.TargetRunning _) s caps =
     set_capability_at (revision s) ''execution''
       (if may_execute profile then Conditional else Unsupported) caps"
| "event_capabilities profile (DomainEvent.TargetStopped _ _ _ _ _) s caps =
     set_capability_at (revision s) ''execution''
       (if may_execute profile then Conditional else Unsupported) caps"
| "event_capabilities profile TargetDetached s caps =
     set_capability_at (revision s) ''execution'' TemporarilyUnavailable caps"
| "event_capabilities profile TargetDisconnected s caps =
     set_capability_at (revision s) ''execution'' TemporarilyUnavailable caps"
| "event_capabilities profile (BackendExited _) s caps =
     set_capability_at (revision s) ''execution'' TemporarilyUnavailable caps"
| "event_capabilities profile (InferiorExited _ _ _) s caps =
     (if list_ex (\<lambda>i. inf_status i = InferiorStatus.Disconnected) (bt_values (inferiors s))
      then set_capability_at (revision s) ''execution'' TemporarilyUnavailable caps else caps)"
| "event_capabilities profile _ s caps = caps"

fun is_stop_event :: "DomainEvent \<Rightarrow> bool" where
  "is_stop_event (DomainEvent.TargetStopped _ _ _ _ _) = True"
| "is_stop_event _ = False"

fun is_running_event :: "DomainEvent \<Rightarrow> bool" where
  "is_running_event (DomainEvent.TargetRunning _) = True"
| "is_running_event _ = False"

fun ends_target :: "DomainEvent \<Rightarrow> bool" where
  "ends_target TargetDisconnected = True"
| "ends_target TargetDetached = True"
| "ends_target (BackendExited _) = True"
| "ends_target _ = False"

fun is_library_loaded :: "DomainEvent \<Rightarrow> bool" where
  "is_library_loaded (LibraryLoaded _ _ _ _) = True"
| "is_library_loaded _ = False"

fun module_breakpoint_event ::
  "DomainEvent \<Rightarrow> (string, PendingModuleBreakpoint) btree \<Rightarrow> (string, PendingModuleBreakpoint) btree" where
  "module_breakpoint_event (BreakpointDeleted number) m = bt_remove number m"
| "module_breakpoint_event (BreakpointModified number enabled _) m =
     bt_update number (\<lambda>b. b\<lparr>pm_enabled := enabled\<rparr>) m"
| "module_breakpoint_event _ m = m"

text \<open>The worker's own bookkeeping before the event is journaled.\<close>

definition before_event :: "DomainEvent \<Rightarrow> Worker \<Rightarrow> Worker" where
  "before_event event w =
     (let w1 = (if attributed_exit (worker_session w) event \<or> is_stop_event event \<or> ends_target event
                then w\<lparr>wk_active_resume_operation := None\<rparr> else w);
          w2 = w1\<lparr>wk_pending_module_breakpoints :=
                 module_breakpoint_event event (wk_pending_module_breakpoints w1)\<rparr>;
          w3 = (if wk_pending_module_breakpoints w2 \<noteq> [] \<and> (is_library_loaded event \<or> is_stop_event event)
                then w2\<lparr>wk_module_rebind_needed := True\<rparr> else w2)
      in if is_running_event event then w3\<lparr>wk_pty_generation := wk_pty_generation w3 + 1\<rparr> else w3)"

definition invalidates_values :: "SessionState \<Rightarrow> DomainEvent \<Rightarrow> bool" where
  "invalidates_values s event \<longleftrightarrow> attributed_exit s event \<or> is_running_event event \<or> ends_target event"

text \<open>The callback that runs with the new state before readers are woken.\<close>

definition after_reduce :: "bool \<Rightarrow> DomainEvent \<Rightarrow> SessionState \<Rightarrow> Worker \<Rightarrow> Worker" where
  "after_reduce invalidates event s w =
     (let w1 = w\<lparr>wk_capabilities := event_capabilities (wk_profile w) event s (wk_capabilities w)\<rparr>
      in if invalidates
         then w1\<lparr>wk_stale_backend_values :=
                  wk_stale_backend_values w1 @ map vb_backend_name (bt_values (wk_values w1)),
                 wk_values := []\<rparr>
         else w1)"

definition reduce_event :: "bool \<Rightarrow> nat \<Rightarrow> DomainEvent \<Rightarrow> bool worker_act" where
  "reduce_event invalidates sequence event w =
     (case live_apply_event_with (after_reduce invalidates event) sequence event (wk_state w, w) of
        (r, ls, w1) \<Rightarrow> (r, w1\<lparr>wk_state := ls\<rparr>))"

definition publish_event :: "nat \<Rightarrow> DomainEvent \<Rightarrow> Worker \<Rightarrow> Worker" where
  "publish_event sequence event w =
     (let w1 = w\<lparr>wk_state := live_publish (wk_state w)\<rparr>
      in w1\<lparr>wk_sent := wk_sent w1 @
             [\<lparr>pe_event_seq = sequence, pe_revision = revision (worker_session w1), pe_event = event\<rparr>]\<rparr>)"

section \<open>The snapshot of a stop\<close>

definition json_option :: "('a \<Rightarrow> Json) \<Rightarrow> 'a option \<Rightarrow> Json" where
  "json_option f x = (case x of None \<Rightarrow> JNull | Some y \<Rightarrow> f y)"

definition frame_json :: "FrameSummary \<Rightarrow> Json" where
  "frame_json f = json_object
     ([(''level'', JNumber (int (frame_level f))), (''address'', json_option JString (frame_address f)),
       (''function'', json_option JString (frame_function f))] @
      (case frame_module f of None \<Rightarrow> [] | Some m \<Rightarrow> [(''module'', JString m)]) @
      [(''source'', json_option JString (frame_source f)),
       (''line'', json_option (\<lambda>n. JNumber (int n)) (frame_line f))])"

definition stop_snapshot :: "nat \<Rightarrow> StopId \<Rightarrow> SessionState \<Rightarrow> Json" where
  "stop_snapshot sequence stop s =
     json_object
       [(''stop_id'', JString stop), (''revision'', JNumber (int (revision s))),
        (''captured_revision'', JNumber (int (revision s))),
        (''execution_epoch'', JNumber (int (execution_epoch s))), (''profile'', JString ''minimal''),
        (''reason'', json_option JString (stop_reason s)),
        (''frame'', json_option frame_json (stopped_frame s)),
        (''partial'', JBool (stopped_frame s = None)),
        (''warnings'', JArray (if stopped_frame s = None
           then [json_object [(''code'', JString ''FRAME_UNAVAILABLE''),
                   (''message'', JString ''GDB stop event did not include a frame'')]]
           else [])),
        (''evidence'', JArray [json_object [(''kind'', JString ''mi-event''),
           (''uri'', JString (''gdbai://session/'' @ session_id s @ ''/event/'' @ show_nat sequence))]])]"

text \<open>\<open>unwrap\<close> of a missing stop would panic; the reduction of a stop event has just set it.\<close>

definition missing_stop :: Error where
  "missing_stop = new_error Internal ''called Option::unwrap() on a None value''"

definition announce_snapshot :: "event_handler \<Rightarrow> StopId \<Rightarrow> bool \<Rightarrow> string \<Rightarrow> unit worker_act" where
  "announce_snapshot handle stop partial snapshot_id w =
     (if wk_replacing_module_breakpoint w
      then (Ok (), w\<lparr>wk_deferred_snapshot_ready := Some (stop, snapshot_id, partial)\<rparr>)
      else handle (SnapshotReady stop (Some snapshot_id) partial) w)"

definition count_snapshot :: "WorkerEnv \<Rightarrow> bool \<Rightarrow> Worker \<Rightarrow> Worker" where
  "count_snapshot env partial w =
     upd_metrics (metrics_snapshot (ev_micros env (wk_calls w)) partial) (w\<lparr>wk_calls := wk_calls w + 1\<rparr>)"

definition finish_stop_snapshot ::
  "WorkerEnv \<Rightarrow> event_handler \<Rightarrow> StopId \<Rightarrow> bool \<Rightarrow> Json \<Rightarrow> unit worker_act" where
  "finish_stop_snapshot env handle stop partial snap =
     act_bind (act_result (observation_id snap)) (\<lambda>snapshot_id.
     act_bind (announce_snapshot handle stop partial snapshot_id)
       (\<lambda>_. act_update (count_snapshot env partial)))"

definition commit_stop_snapshot :: "WorkerEnv \<Rightarrow> event_handler \<Rightarrow> nat \<Rightarrow> unit worker_act" where
  "commit_stop_snapshot env handle sequence w =
     (let s = worker_session w
      in case stop_id s of
           None \<Rightarrow> (Err missing_stop, w)
         | Some stop \<Rightarrow>
             act_then (store_snapshot_value env handle (stop_snapshot sequence stop s))
               (\<lambda>r. case r of
                  Err e \<Rightarrow> act_bind (handle (SnapshotFailed stop)) (\<lambda>_. act_fail e)
                | Ok snap \<Rightarrow> finish_stop_snapshot env handle stop (stopped_frame s = None) snap) w)"

section \<open>Applying an event\<close>

text \<open>The event up to its publication: journaled, reduced, in durable mode checkpointed.  The number of
  its record is returned.\<close>

definition checkpoint_change :: "WorkerEnv \<Rightarrow> event_handler \<Rightarrow> bool \<Rightarrow> unit worker_act" where
  "checkpoint_change env handle changed w =
     (let w1 = w\<lparr>wk_state_dirty := (wk_state_dirty w \<or> changed)\<rparr>
      in if changed \<and> is_durable (wk_journal w1) then checkpoint env handle False w1 else (Ok (), w1))"

definition apply_event_core :: "WorkerEnv \<Rightarrow> event_handler \<Rightarrow> DomainEvent \<Rightarrow> nat worker_act" where
  "apply_event_core env handle event w =
     (let invalidates = invalidates_values (worker_session w) event
      in act_bind (with_journal env (\<lambda>io. append_domain_ref (ev_codec env) io event)) (\<lambda>sequence.
         act_bind (reduce_event invalidates sequence event) (\<lambda>changed.
         act_bind (checkpoint_change env handle changed) (\<lambda>_.
         act_bind (act_update (publish_event sequence event)) (\<lambda>_. act_return sequence))))
           (before_event event w))"

definition apply_event_inner :: "WorkerEnv \<Rightarrow> event_handler \<Rightarrow> DomainEvent \<Rightarrow> unit worker_act" where
  "apply_event_inner env handle event =
     act_bind (apply_event_core env handle event) (\<lambda>sequence.
       if is_stop_event event then commit_stop_snapshot env handle sequence else act_return ())"

text \<open>One unfolding of \<open>apply_event\<close>, with the recursive calls as a parameter.\<close>

definition apply_event_step :: "WorkerEnv \<Rightarrow> event_handler \<Rightarrow> event_handler" where
  "apply_event_step env handle event w =
     (case act_bind (apply_event_inner env handle event) (\<lambda>_. report_journal_gap handle) w of
        (Err e, w1) \<Rightarrow> (Err e, fail_worker w1)
      | (Ok x, w1) \<Rightarrow> (Ok x, w1))"

text \<open>A report of lost evidence is made once for the journal and once for the database, and the
  snapshot of a stop is committed by an event that is not a stop, so the calls nest at most four
  deep.  \<open>apply_event_depth\<close> shows that the value below is the same for every deeper nesting and that
  it satisfies the recursive equation of the source.\<close>

fun apply_event_nested :: "WorkerEnv \<Rightarrow> nat \<Rightarrow> event_handler" where
  "apply_event_nested env 0 event w = (Err (new_error Internal ''nesting''), w)"
| "apply_event_nested env (Suc n) event w = apply_event_step env (apply_event_nested env n) event w"

definition worker_apply_event :: "WorkerEnv \<Rightarrow> event_handler" where
  "worker_apply_event env = apply_event_nested env 4"

end
