(* ===== verification/Worker_Inv.thy ===== *)
theory Worker_Inv
  imports Worker
begin

text \<open>
  Invariants of the session worker.  The methods behind an event call each other (journal, reduction,
  checkpoint, snapshot, reports of lost evidence), and a failure of the required evidence ends in
  \<open>fail_worker\<close>.  \<open>worker_invariant\<close> is the contract a predicate on workers must meet so that
  applying any event keeps it; the later theories interpret it for the predicates they need.
\<close>

section \<open>Actions that keep a predicate\<close>

lemma keeps_intro: "(\<And>w. P w \<Longrightarrow> P (snd (m w))) \<Longrightarrow> keeps P m"
  by (auto simp: keeps_def) (metis snd_conv)

lemma keeps_snd: "keeps P m \<Longrightarrow> P w \<Longrightarrow> P (snd (m w))"
  by (metis keepsD prod.collapse)

lemma keeps_conj: "keeps P m \<Longrightarrow> keeps Q m \<Longrightarrow> keeps (\<lambda>w. P w \<and> Q w) m"
  unfolding keeps_def by blast

lemma keeps_case_res:
  "(\<And>e. r = Err e \<Longrightarrow> keeps P (f e)) \<Longrightarrow> (\<And>x. r = Ok x \<Longrightarrow> keeps P (g x)) \<Longrightarrow>
     keeps P (case r of Err e \<Rightarrow> f e | Ok x \<Rightarrow> g x)"
  by (cases r) simp_all

text \<open>A step that keeps the predicate when it succeeds, and otherwise leaves a worker for which the
  predicate holds again once the worker is failed.\<close>

definition fails_safe :: "(Worker \<Rightarrow> bool) \<Rightarrow> 'a worker_act \<Rightarrow> bool" where
  "fails_safe P m \<longleftrightarrow>
     (\<forall>w r w'. P w \<longrightarrow> m w = (r, w') \<longrightarrow> (is_ok r \<longrightarrow> P w') \<and> P (fail_worker w'))"

lemma fails_safeD:
  assumes "fails_safe P m" "P w" "m w = (r, w')"
  shows "is_ok r \<Longrightarrow> P w'" "P (fail_worker w')"
  using assms by (auto simp: fails_safe_def)

lemma fails_safe_bind:
  assumes "fails_safe P m" "\<And>x. fails_safe P (f x)"
  shows "fails_safe P (act_bind m f)"
  unfolding fails_safe_def
proof (intro allI impI)
  fix w r w' assume w: "P w" "act_bind m f w = (r, w')"
  obtain r0 t where t: "m w = (r0, t)" by (cases "m w")
  note safe = fails_safeD [OF assms(1) w(1) t]
  show "(is_ok r \<longrightarrow> P w') \<and> P (fail_worker w')"
  proof (cases r0)
    case (Inl e)
    with w(2) t safe(2) show ?thesis by (auto simp: act_bind_def)
  next
    case (Inr x)
    with w(2) t have "f x t = (r, w')" by (simp add: act_bind_def)
    with fails_safeD [OF assms(2) safe(1)] Inr show ?thesis by (simp add: result_simps)
  qed
qed

text \<open>The parts of the worker that only count, queue or report.\<close>

definition quiet_step :: "Worker \<Rightarrow> Worker \<Rightarrow> bool" where
  "quiet_step w w' \<longleftrightarrow>
     w'\<lparr>wk_calls := wk_calls w, wk_metrics := wk_metrics w, wk_stored := wk_stored w,
        wk_state_dirty := wk_state_dirty w, wk_dirty_operations := wk_dirty_operations w,
        wk_deferred_snapshot_ready := wk_deferred_snapshot_ready w, wk_snapshots := wk_snapshots w,
        wk_journal_gap_reported := wk_journal_gap_reported w, wk_store_failed := wk_store_failed w\<rparr> = w \<and>
     (wk_journal_gap_reported w \<longrightarrow> wk_journal_gap_reported w') \<and>
     (wk_store_failed w \<longrightarrow> wk_store_failed w')"

lemma quiet_step_frame:
  assumes "quiet_step w w'"
  shows "wk_journal w' = wk_journal w" "wk_state w' = wk_state w" "wk_fatal w' = wk_fatal w"
    "wk_sent w' = wk_sent w" "wk_inbox w' = wk_inbox w" "wk_now w' = wk_now w"
    "wk_next_token w' = wk_next_token w" "wk_lines w' = wk_lines w"
    "wk_interrupt_fallback_at w' = wk_interrupt_fallback_at w"
    "wk_timed_out_tokens w' = wk_timed_out_tokens w" "wk_replies w' = wk_replies w"
proof -
  let ?v = "w'\<lparr>wk_calls := wk_calls w, wk_metrics := wk_metrics w, wk_stored := wk_stored w,
        wk_state_dirty := wk_state_dirty w, wk_dirty_operations := wk_dirty_operations w,
        wk_deferred_snapshot_ready := wk_deferred_snapshot_ready w, wk_snapshots := wk_snapshots w,
        wk_journal_gap_reported := wk_journal_gap_reported w, wk_store_failed := wk_store_failed w\<rparr>"
  have v: "?v = w" using assms by (simp add: quiet_step_def)
  show "wk_journal w' = wk_journal w" using arg_cong [OF v, of wk_journal] by simp
  show "wk_state w' = wk_state w" using arg_cong [OF v, of wk_state] by simp
  show "wk_fatal w' = wk_fatal w" using arg_cong [OF v, of wk_fatal] by simp
  show "wk_sent w' = wk_sent w" using arg_cong [OF v, of wk_sent] by simp
  show "wk_inbox w' = wk_inbox w" using arg_cong [OF v, of wk_inbox] by simp
  show "wk_now w' = wk_now w" using arg_cong [OF v, of wk_now] by simp
  show "wk_next_token w' = wk_next_token w" using arg_cong [OF v, of wk_next_token] by simp
  show "wk_lines w' = wk_lines w" using arg_cong [OF v, of wk_lines] by simp
  show "wk_interrupt_fallback_at w' = wk_interrupt_fallback_at w"
    using arg_cong [OF v, of wk_interrupt_fallback_at] by simp
  show "wk_timed_out_tokens w' = wk_timed_out_tokens w"
    using arg_cong [OF v, of wk_timed_out_tokens] by simp
  show "wk_replies w' = wk_replies w" using arg_cong [OF v, of wk_replies] by simp
qed

section \<open>The contract\<close>

locale worker_invariant =
  fixes env :: WorkerEnv and I :: "Worker \<Rightarrow> bool"
  assumes quiet: "I w \<Longrightarrow> quiet_step w w' \<Longrightarrow> I w'"
    and failing: "I w \<Longrightarrow> I (fail_worker w)"
    and state_append: "I w \<Longrightarrow>
      with_journal env (\<lambda>io. append_state (ev_codec env) io (revision (worker_session w)) (worker_session w)) w
        = (r, w') \<Longrightarrow> (is_ok r \<longrightarrow> I w') \<and> I (fail_worker w')"
    and snapshot_append: "fails_safe I (with_journal env (\<lambda>io. append_snapshot (ev_codec env) io i v))"
    and core_step: "(\<And>ev. keeps I (handle ev)) \<Longrightarrow>
      (\<And>closing. keeps I (checkpoint env handle closing)) \<Longrightarrow> fails_safe I (apply_event_core env handle ev)"
begin

lemma safe_keeps: "keeps I m \<Longrightarrow> fails_safe I m"
  unfolding fails_safe_def by (metis keepsD failing)

lemma keep_gap:
  assumes "\<And>ev. keeps I (handle ev)"
  shows "keeps I (report_journal_gap handle)"
proof (rule keeps_intro)
  fix w assume w: "I w"
  have "I (w\<lparr>wk_journal_gap_reported := True\<rparr>)" by (rule quiet [OF w]) (simp add: quiet_step_def)
  from keeps_snd [OF assms this] w show "I (snd (report_journal_gap handle w))"
    by (simp add: report_journal_gap_def split: option.split)
qed

lemma keep_journaled:
  assumes h: "\<And>ev. keeps I (handle ev)" and m: "fails_safe I m"
  shows "keeps I (act_then m (journal_result handle))"
proof (rule keeps_intro)
  fix w assume w: "I w"
  obtain r t where t: "m w = (r, t)" by (cases "m w")
  note safe = fails_safeD [OF m w t]
  have "I (snd (journal_result handle r t))"
  proof (cases r)
    case (Inl e)
    with safe(2) show ?thesis by (simp add: journal_result_def)
  next
    case (Inr x)
    have "keeps I (act_bind (report_journal_gap handle) (\<lambda>_. act_return x))"
      by (intro keeps_bind keep_gap h keeps_simple)
    from keeps_snd [OF this safe(1)] Inr show ?thesis by (simp add: journal_result_def result_simps)
  qed
  with t show "I (snd (act_then m (journal_result handle) w))"
    by (simp add: act_then_def)
qed

lemma keep_stored:
  assumes h: "\<And>ev. keeps I (handle ev)" and w: "I w"
  shows "I (snd (case store_call env item w of (r, w1) \<Rightarrow> store_result handle r w1))"
proof -
  obtain r t where t: "store_call env item w = (r, t)" by (cases "store_call env item w")
  have "quiet_step w t" using t by (auto simp: store_call_def Let_def quiet_step_def)
  then have "I t" by (rule quiet [OF w])
  moreover have "I (t\<lparr>wk_store_failed := True\<rparr>)" by (rule quiet [OF \<open>I t\<close>]) (simp add: quiet_step_def)
  note keeps_snd [OF h this]
  ultimately have "I (snd (store_result handle r t))"
    using failing [of t] by (simp add: store_result_def split: sum.split)
  with t show ?thesis by simp
qed

lemma keep_checkpoint_record:
  assumes h: "\<And>ev. keeps I (handle ev)"
  shows "keeps I (checkpoint_record env handle)"
proof (rule keeps_intro)
  fix w assume w: "I w"
  let ?w = "w\<lparr>wk_state_dirty := False\<rparr>"
  let ?m = "\<lambda>io. append_state (ev_codec env) io (revision (worker_session ?w)) (worker_session ?w)"
  have w1: "I ?w" by (rule quiet [OF w]) (simp add: quiet_step_def)
  obtain r t where t: "with_journal env ?m ?w = (r, t)" by (cases "with_journal env ?m ?w")
  note safe = state_append [OF w1 t]
  have "I (snd (journal_result handle r t))"
  proof (cases r)
    case (Inl e)
    with safe show ?thesis by (simp add: journal_result_def)
  next
    case (Inr x)
    have "keeps I (act_bind (report_journal_gap handle) (\<lambda>_. act_return x))"
      by (intro keeps_bind keep_gap h keeps_simple)
    with keeps_snd [OF this] safe Inr show ?thesis by (simp add: journal_result_def result_simps)
  qed
  with t show "I (snd (checkpoint_record env handle w))"
    by (simp add: checkpoint_record_def Let_def act_then_def)
qed

lemma keep_checkpoint_history:
  assumes h: "\<And>ev. keeps I (handle ev)"
  shows "keeps I (checkpoint_history env handle closing b ds)"
  by (rule keeps_intro)
    (simp add: checkpoint_history_def checkpoint_store_def keep_stored [OF h] del: split_paired_All)

lemma keep_checkpoint:
  assumes h: "\<And>ev. keeps I (handle ev)"
  shows "keeps I (checkpoint env handle closing)"
proof (rule keeps_intro)
  fix w assume w: "I w"
  have w1: "I (w\<lparr>wk_dirty_operations := []\<rparr>)" by (rule quiet [OF w]) (simp add: quiet_step_def)
  have "keeps I (checkpoint_body env handle closing b ds)" for b ds
    unfolding checkpoint_body_def
    by (rule keeps_bind [OF keeps_if keep_checkpoint_history [OF h]])
      (rule keep_checkpoint_record [OF h] keeps_simple)+
  from keeps_snd [OF this w1] w1 show "I (snd (checkpoint env handle closing w))"
    unfolding checkpoint_def Let_def by simp
qed

lemma keep_store_snapshot:
  assumes h: "\<And>ev. keeps I (handle ev)"
  shows "keeps I (store_snapshot_value env handle snap)"
proof (rule keeps_intro)
  fix w assume w: "I w"
  have hist: "keeps I (snapshot_history env handle i final)" for i final
    by (rule keeps_intro) (simp add: snapshot_history_def keep_stored [OF h])
  have kept: "keeps I (keep_snapshot i final)" for i final
    by (rule keeps_intro)
      (auto simp: keep_snapshot_def quiet_step_def split: option.split elim!: quiet)
  have w1: "I (w\<lparr>wk_calls := wk_calls w + 1\<rparr>)" by (rule quiet [OF w]) (simp add: quiet_step_def)
  have "keeps I (commit_snapshot_value env handle i final)" for i final
    unfolding commit_snapshot_value_def
    by (intro keeps_bind keep_journaled h snapshot_append hist kept)
  from keeps_snd [OF this w1] w show "I (snd (store_snapshot_value env handle snap w))"
    unfolding store_snapshot_value_def Let_def by (simp split: option.split)
qed

lemma keep_finish:
  assumes h: "\<And>ev. keeps I (handle ev)"
  shows "keeps I (finish_stop_snapshot env handle stop partial snap)"
proof -
  have "keeps I (announce_snapshot handle stop partial i)" for i
  proof (rule keeps_intro)
    fix w assume w: "I w"
    have "I (w\<lparr>wk_deferred_snapshot_ready := x\<rparr>)" for x
      by (rule quiet [OF w]) (simp add: quiet_step_def)
    with keeps_snd [OF h w] show "I (snd (announce_snapshot handle stop partial i w))"
      by (simp add: announce_snapshot_def)
  qed
  moreover have "I (count_snapshot env partial w)" if "I w" for w
    by (rule quiet [OF that]) (simp add: count_snapshot_def quiet_step_def)
  ultimately show ?thesis
    unfolding finish_stop_snapshot_def by (intro keeps_bind keeps_simple keeps_update)
qed

lemma keep_commit:
  assumes h: "\<And>ev. keeps I (handle ev)"
  shows "keeps I (commit_stop_snapshot env handle sequence)"
proof (rule keeps_intro)
  fix w assume w: "I w"
  have "keeps I (act_then (store_snapshot_value env handle sn)
      (\<lambda>r. case r of
        Err e \<Rightarrow> act_bind (handle (SnapshotFailed stop)) (\<lambda>_. act_fail e)
      | Ok snap \<Rightarrow> finish_stop_snapshot env handle stop partial snap))" for sn stop partial
    by (intro keeps_then keep_store_snapshot h keeps_case_res keeps_bind keeps_simple keep_finish)
  from keeps_snd [OF this w] w show "I (snd (commit_stop_snapshot env handle sequence w))"
    unfolding commit_stop_snapshot_def Let_def by (simp split: option.split)
qed

lemma step_from:
  assumes h: "\<And>ev. keeps I (handle ev)"
    and core: "\<And>r w'. apply_event_core env handle ev w = (r, w') \<Longrightarrow> (is_ok r \<longrightarrow> I w') \<and> I (fail_worker w')"
  shows "I (snd (apply_event_step env handle ev w))"
proof -
  obtain r t where t: "apply_event_core env handle ev w = (r, t)" by (cases "apply_event_core env handle ev w")
  let ?m = "\<lambda>n. if is_stop_event ev then commit_stop_snapshot env handle n else act_return ()"
  have k: "keeps I (?m n)" for n by (rule keeps_if) (rule keep_commit [OF h] keeps_simple)+
  show ?thesis
  proof (cases r)
    case (Inl e)
    with core [OF t] t show ?thesis
      by (simp add: apply_event_step_def apply_event_inner_def act_bind_def)
  next
    case (Inr n)
    then have "I t" using core [OF t] by simp
    have "keeps I (act_bind (?m n) (\<lambda>_. report_journal_gap handle))"
      by (intro keeps_bind k keep_gap h)
    note fin = keeps_snd [OF this \<open>I t\<close>]
    have "act_bind (apply_event_inner env handle ev) (\<lambda>_. report_journal_gap handle) w =
        act_bind (?m n) (\<lambda>_. report_journal_gap handle) t"
      using t Inr by (simp add: apply_event_inner_def act_bind_def)
    with fin failing [OF fin] show ?thesis
      by (auto simp: apply_event_step_def split: prod.split sum.split)
  qed
qed

lemma keep_step:
  assumes h: "\<And>ev. keeps I (handle ev)"
  shows "keeps I (apply_event_step env handle ev)"
proof (rule keeps_intro)
  fix w assume w: "I w"
  have "fails_safe I (apply_event_core env handle ev)" by (rule core_step [OF h keep_checkpoint [OF h]])
  from fails_safeD [OF this w] show "I (snd (apply_event_step env handle ev w))"
    by (intro step_from [OF h]) blast
qed

lemma keep_nested: "keeps I (apply_event_nested env n ev)"
proof (induction n arbitrary: ev)
  case 0
  then show ?case by (simp add: keeps_def)
next
  case (Suc n)
  have "apply_event_nested env (Suc n) ev = apply_event_step env (apply_event_nested env n) ev"
    by (simp add: fun_eq_iff)
  then show ?case using keep_step [of "apply_event_nested env n", OF Suc] by simp
qed

lemma keep_event: "keeps I (worker_apply_event env ev)"
  by (simp add: worker_apply_event_def keep_nested)

end

end
