(* ===== verification/Worker_Depth.thy ===== *)
theory Worker_Depth
  imports Worker_Inv
begin

text \<open>
  The methods of the worker call each other: applying an event may checkpoint, store a snapshot and
  report lost evidence, each of which may apply another event.  This theory shows that the calls
  nest at most four deep, so that \<open>worker_apply_event\<close> is the value of the recursion in the source.
\<close>

lemma act_bind_agree:
  assumes "m w = m' w" "\<And>x t. m w = (Ok x, t) \<Longrightarrow> f x t = f' x t"
  shows "act_bind m f w = act_bind m' f' w"
  using assms by (auto simp: act_bind_def split: prod.splits sum.splits)

lemma act_then_agree:
  assumes "m w = m' w" "\<And>r t. m w = (r, t) \<Longrightarrow> f r t = f' r t"
  shows "act_then m f w = act_then m' f' w"
  using assms by (auto simp: act_then_def split: prod.splits)

section \<open>Reports left\<close>

definition reports_left :: "Worker \<Rightarrow> nat" where
  "reports_left w =
     (if wk_journal_gap_reported w then 0 else 1) + (if wk_store_failed w then 0 else 1)"

abbreviation few_reports :: "nat \<Rightarrow> Worker \<Rightarrow> bool" where
  "few_reports k w \<equiv> reports_left w \<le> k"

lemma reports_left_update [simp]:
  "reports_left (w\<lparr>wk_state_dirty := b\<rparr>) = reports_left w"
  "reports_left (w\<lparr>wk_dirty_operations := d\<rparr>) = reports_left w"
  "reports_left (w\<lparr>wk_deferred_snapshot_ready := x\<rparr>) = reports_left w"
  "reports_left (w\<lparr>wk_calls := n\<rparr>) = reports_left w"
  "reports_left (w\<lparr>wk_snapshots := sn\<rparr>) = reports_left w"
  "reports_left (w\<lparr>wk_metrics := m\<rparr>) = reports_left w"
  "reports_left (w\<lparr>wk_state := ls\<rparr>) = reports_left w"
  "reports_left (w\<lparr>wk_sent := se\<rparr>) = reports_left w"
  by (simp_all add: reports_left_def)

definition reports_handler :: "event_handler \<Rightarrow> bool" where
  "reports_handler handle \<longleftrightarrow> (\<forall>k ev. keeps (few_reports k) (handle ev))"

lemma reports_handlerD: "reports_handler handle \<Longrightarrow> keeps (few_reports k) (handle ev)"
  by (simp add: reports_handler_def)

lemma mark_failed_frame [simp]:
  "wk_journal_gap_reported (mark_failed w) = wk_journal_gap_reported w"
  "wk_store_failed (mark_failed w) = wk_store_failed w"
  "wk_journal (mark_failed w) = wk_journal w" "wk_fatal (mark_failed w) = wk_fatal w"
  by (simp_all add: mark_failed_def Let_def split: prod.split)

lemma fail_worker_frame [simp]:
  "reports_left (fail_worker w) = reports_left w" "wk_fatal (fail_worker w)"
  "wk_journal (fail_worker w) = wk_journal w"
  by (simp_all add: fail_worker_def reports_left_def)

lemma keeps_with_journal [act_rules]: "keeps (few_reports k) (with_journal env m)"
  by (auto simp: keeps_def with_journal_def reports_left_def split: prod.splits)

lemma store_call_reports [simp]: "reports_left (snd (store_call env item w)) = reports_left w"
  by (simp add: store_call_def Let_def reports_left_def)

lemma after_reduce_reports [simp]: "reports_left (after_reduce b ev s w) = reports_left w"
  by (simp add: after_reduce_def Let_def reports_left_def)

lemma reports_reduce: "keeps (few_reports k) (reduce_event b n ev)"
  by (rule keeps_intro)
    (auto simp: reduce_event_def live_apply_event_with_def split: option.split sum.split)

lemma before_event_reports [simp]: "reports_left (before_event ev w) = reports_left w"
  by (simp add: before_event_def Let_def reports_left_def)

lemma reports_core:
  assumes c: "\<And>closing. keeps (few_reports k) (checkpoint env handle closing)"
  shows "keeps (few_reports k) (apply_event_core env handle ev)"
proof (rule keeps_intro)
  fix w assume w: "few_reports k w"
  have ch: "keeps (few_reports k) (checkpoint_change env handle b)" for b
    by (rule keeps_intro) (use keeps_snd [OF c] in \<open>simp add: checkpoint_change_def Let_def\<close>)
  have "keeps (few_reports k)
      (act_bind (with_journal env (\<lambda>io. append_domain_ref (ev_codec env) io ev)) (\<lambda>sequence.
         act_bind (reduce_event inv sequence ev) (\<lambda>changed.
         act_bind (checkpoint_change env handle changed) (\<lambda>_.
         act_bind (act_update (publish_event sequence ev)) (\<lambda>_. act_return sequence)))))" for inv
    by (intro keeps_bind keeps_with_journal reports_reduce ch keeps_update keeps_simple)
      (simp add: publish_event_def Let_def)
  from keeps_snd [OF this, of "before_event ev w"] w
  show "few_reports k (snd (apply_event_core env handle ev w))"
    unfolding apply_event_core_def Let_def by simp
qed

lemma reports_safe: "keeps (few_reports k) m \<Longrightarrow> fails_safe (few_reports k) m"
  unfolding fails_safe_def by (metis keepsD fail_worker_frame(1))

interpretation reports: worker_invariant env "few_reports k" for env k
proof
  show "few_reports k w'" if "few_reports k w" "quiet_step w w'" for w w'
    using that by (auto simp: quiet_step_def reports_left_def split: if_splits)
  show "few_reports k (fail_worker w)" if "few_reports k w" for w using that by simp
  show "fails_safe (few_reports k) (with_journal env (\<lambda>io. append_snapshot (ev_codec env) io i v))" for i v
    by (rule reports_safe) (rule keeps_with_journal)
  show "(is_ok r \<longrightarrow> few_reports k w') \<and> few_reports k (fail_worker w')"
    if "few_reports k w" "with_journal env (\<lambda>io. append_state (ev_codec env) io (revision (worker_session w))
      (worker_session w)) w = (r, w')" for w r w'
    using keepsD [OF keeps_with_journal that] by simp
  show "fails_safe (few_reports k) (apply_event_core env handle ev)"
    if "\<And>closing. keeps (few_reports k) (checkpoint env handle closing)" for handle ev
    by (rule reports_safe) (rule reports_core [OF that])
qed

lemma reports_journaled:
  assumes "reports_handler handle"
  shows "keeps (few_reports k) (act_then (with_journal env m) (journal_result handle))"
  by (intro reports.keep_journaled reports_safe keeps_with_journal reports_handlerD [OF assms])

lemma reports_nested: "reports_handler (apply_event_nested env n)"
  by (simp add: reports_handler_def reports.keep_nested)

section \<open>Agreement of handlers\<close>

text \<open>Two handlers that agree on the calls that can still be made give the same results.\<close>

definition agree_below :: "nat \<Rightarrow> event_handler \<Rightarrow> event_handler \<Rightarrow> bool" where
  "agree_below k handle handle' \<longleftrightarrow>
     (\<forall>ev w. \<not> is_stop_event ev \<longrightarrow> reports_left w < k \<longrightarrow> handle ev w = handle' ev w)"

lemma agree_belowD:
  "agree_below k handle handle' \<Longrightarrow> \<not> is_stop_event ev \<Longrightarrow> reports_left w < k \<Longrightarrow> handle ev w = handle' ev w"
  by (simp add: agree_below_def)

lemma agree_gap:
  assumes "agree_below k h h'" "few_reports k w"
  shows "report_journal_gap h w = report_journal_gap h' w"
proof (cases "wk_journal_gap_reported w")
  case False
  then have "reports_left (w\<lparr>wk_journal_gap_reported := True\<rparr>) < k"
    using assms(2) by (simp add: reports_left_def)
  with agree_belowD [OF assms(1)] show ?thesis by (simp add: report_journal_gap_def split: option.split)
qed (simp add: report_journal_gap_def)

lemma agree_journal_result:
  assumes "agree_below k h h'" "few_reports k w"
  shows "journal_result h r w = journal_result h' r w"
  by (cases r) (simp_all add: journal_result_def act_bind_def agree_gap [OF assms])

lemma agree_store_result:
  assumes "agree_below k h h'" "few_reports k w"
  shows "store_result h r w = store_result h' r w"
proof (cases "wk_store_failed w")
  case False
  then have "reports_left (w\<lparr>wk_store_failed := True\<rparr>) < k"
    using assms(2) by (simp add: reports_left_def)
  with agree_belowD [OF assms(1)] show ?thesis by (simp add: store_result_def split: sum.split)
qed (simp add: store_result_def split: sum.split)

text \<open>Congruence along the methods: the first handler is one that never adds reports.\<close>

lemma agree_journaled:
  assumes "agree_below k h h'" "few_reports k w"
  shows "act_then (with_journal env m) (journal_result h) w = act_then (with_journal env m) (journal_result h') w"
  by (rule act_then_agree) (simp_all add: agree_journal_result [OF assms(1)] keepsD [OF keeps_with_journal assms(2)])

lemma agree_stored:
  assumes "agree_below k h h'" "few_reports k w"
  shows "(case store_call env item w of (r, w1) \<Rightarrow> store_result h r w1) =
    (case store_call env item w of (r, w1) \<Rightarrow> store_result h' r w1)"
proof -
  have "few_reports k (snd (store_call env item w))" using assms(2) by simp
  from agree_store_result [OF assms(1) this] show ?thesis by (simp add: case_prod_unfold)
qed

lemma agree_checkpoint:
  assumes "reports_handler h" "agree_below k h h'" "few_reports k w"
  shows "checkpoint env h closing w = checkpoint env h' closing w"
proof -
  let ?w1 = "w\<lparr>wk_dirty_operations := []\<rparr>"
  have rec: "checkpoint_record env h w = checkpoint_record env h' w" if "few_reports k w" for w
    unfolding checkpoint_record_def Let_def using that by (intro agree_journaled [OF assms(2)]) simp
  have hist: "checkpoint_history env h closing b ds w = checkpoint_history env h' closing b ds w"
    if "few_reports k w" for b ds w
    unfolding checkpoint_history_def checkpoint_store_def using agree_stored [OF assms(2) that] by simp
  have "checkpoint_body env h closing b ds ?w1 = checkpoint_body env h' closing b ds ?w1" for b ds
    unfolding checkpoint_body_def
  proof (rule act_bind_agree)
    let ?m = "if b then checkpoint_record env h else act_return 0"
    show "?m ?w1 = (if b then checkpoint_record env h' else act_return 0) ?w1"
      using rec [of ?w1] assms(3) by simp
    have m: "keeps (few_reports k) ?m"
      by (rule keeps_if) (rule reports.keep_checkpoint_record [OF reports_handlerD [OF assms(1)]] keeps_simple)+
    show "checkpoint_history env h closing b ds t = checkpoint_history env h' closing b ds t"
      if "?m ?w1 = (Ok x, t)" for x t
      using keepsD [OF m _ that] assms(3) by (intro hist) simp
  qed
  then show ?thesis unfolding checkpoint_def Let_def by (simp only: if_cancel)
qed

lemma agree_store_snapshot:
  assumes "reports_handler h" "agree_below k h h'" "few_reports k w"
  shows "store_snapshot_value env h snap w = store_snapshot_value env h' snap w"
proof -
  have hist: "snapshot_history env h i final w = snapshot_history env h' i final w"
    if "few_reports k w" for i final w
    unfolding snapshot_history_def using agree_stored [OF assms(2) that] by simp
  have "commit_snapshot_value env h i final w = commit_snapshot_value env h' i final w"
    if w: "few_reports k w" for i final w
    unfolding commit_snapshot_value_def
  proof (rule act_bind_agree)
    show "act_then (with_journal env (\<lambda>io. append_snapshot (ev_codec env) io i final)) (journal_result h) w =
        act_then (with_journal env (\<lambda>io. append_snapshot (ev_codec env) io i final)) (journal_result h') w"
      by (rule agree_journaled [OF assms(2) w])
    fix x t assume "act_then (with_journal env (\<lambda>io. append_snapshot (ev_codec env) io i final)) (journal_result h) w = (Ok x, t)"
    then have "few_reports k t" by (rule keepsD [OF reports_journaled [OF assms(1)] w])
    then show "act_bind (snapshot_history env h i final) (\<lambda>_. keep_snapshot i final) t =
        act_bind (snapshot_history env h' i final) (\<lambda>_. keep_snapshot i final) t"
      by (intro act_bind_agree hist) simp_all
  qed
  from this [of "w\<lparr>wk_calls := wk_calls w + 1\<rparr>"] assms(3) show ?thesis
    unfolding store_snapshot_value_def Let_def by (simp split: option.split)
qed

text \<open>Committing the snapshot of a stop also applies events of its own.\<close>

lemma agree_commit:
  assumes "reports_handler h" "agree_below (Suc k) h h'" "few_reports k w"
  shows "commit_stop_snapshot env h n w = commit_stop_snapshot env h' n w"
proof -
  have call: "h ev t = h' ev t" if "few_reports k t" "\<not> is_stop_event ev" for ev t
    using agree_belowD [OF assms(2) that(2)] that(1) by simp
  have fin: "finish_stop_snapshot env h stop partial snap t = finish_stop_snapshot env h' stop partial snap t"
    if "few_reports k t" for stop partial snap t
    unfolding finish_stop_snapshot_def
    by (intro act_bind_agree) (auto simp: act_result_def announce_snapshot_def that call)
  have "act_then (store_snapshot_value env h sn)
      (\<lambda>r. case r of Err e \<Rightarrow> act_bind (h (SnapshotFailed stop)) (\<lambda>_. act_fail e)
        | Ok snap \<Rightarrow> finish_stop_snapshot env h stop partial snap) w =
    act_then (store_snapshot_value env h' sn)
      (\<lambda>r. case r of Err e \<Rightarrow> act_bind (h' (SnapshotFailed stop)) (\<lambda>_. act_fail e)
        | Ok snap \<Rightarrow> finish_stop_snapshot env h' stop partial snap) w" for sn stop partial
  proof (rule act_then_agree)
    show "store_snapshot_value env h sn w = store_snapshot_value env h' sn w"
      using assms by (intro agree_store_snapshot [where k = "Suc k"]) simp_all
    fix r t assume "store_snapshot_value env h sn w = (r, t)"
    then have t: "few_reports k t" by (rule keepsD [OF reports.keep_store_snapshot [OF reports_handlerD [OF assms(1)]] assms(3)])
    show "(case r of Err e \<Rightarrow> act_bind (h (SnapshotFailed stop)) (\<lambda>_. act_fail e)
        | Ok snap \<Rightarrow> finish_stop_snapshot env h stop partial snap) t =
      (case r of Err e \<Rightarrow> act_bind (h' (SnapshotFailed stop)) (\<lambda>_. act_fail e)
        | Ok snap \<Rightarrow> finish_stop_snapshot env h' stop partial snap) t"
      using fin [OF t] call [OF t, of "SnapshotFailed stop"] by (cases r) (simp_all add: act_bind_def)
  qed
  then show ?thesis unfolding commit_stop_snapshot_def Let_def by (simp split: option.split)
qed

lemma agree_core:
  assumes "reports_handler h" "agree_below k h h'" "few_reports k w"
  shows "apply_event_core env h ev w = apply_event_core env h' ev w"
proof -
  have ch: "checkpoint_change env h b t = checkpoint_change env h' b t" if "few_reports k t" for b t
  proof -
    have "checkpoint env h False (t\<lparr>wk_state_dirty := (wk_state_dirty t \<or> b)\<rparr>) =
        checkpoint env h' False (t\<lparr>wk_state_dirty := (wk_state_dirty t \<or> b)\<rparr>)"
      using that by (intro agree_checkpoint [OF assms(1,2)]) simp
    then show ?thesis by (simp only: checkpoint_change_def Let_def)
  qed
  show ?thesis
    unfolding apply_event_core_def Let_def
  proof (rule act_bind_agree [OF refl])
    fix n t assume "with_journal env (\<lambda>io. append_domain_ref (ev_codec env) io ev) (before_event ev w) = (Ok n, t)"
    moreover have "few_reports k (before_event ev w)" using assms(3) by simp
    ultimately have t: "few_reports k t" using keepsD [OF keeps_with_journal] by blast
    show "act_bind (reduce_event (invalidates_values (worker_session w) ev) n ev) (\<lambda>changed.
        act_bind (checkpoint_change env h changed) (\<lambda>_.
        act_bind (act_update (publish_event n ev)) (\<lambda>_. act_return n))) t =
      act_bind (reduce_event (invalidates_values (worker_session w) ev) n ev) (\<lambda>changed.
        act_bind (checkpoint_change env h' changed) (\<lambda>_.
        act_bind (act_update (publish_event n ev)) (\<lambda>_. act_return n))) t"
    proof (rule act_bind_agree [OF refl])
      fix b t' assume "reduce_event (invalidates_values (worker_session w) ev) n ev t = (Ok b, t')"
      then have "few_reports k t'" by (rule keepsD [OF reports_reduce t])
      then show "act_bind (checkpoint_change env h b) (\<lambda>_.
          act_bind (act_update (publish_event n ev)) (\<lambda>_. act_return n)) t' =
        act_bind (checkpoint_change env h' b) (\<lambda>_.
          act_bind (act_update (publish_event n ev)) (\<lambda>_. act_return n)) t'"
        by (intro act_bind_agree ch) simp_all
    qed
  qed
qed

definition event_depth :: "DomainEvent \<Rightarrow> Worker \<Rightarrow> nat" where
  "event_depth ev w = reports_left w + (if is_stop_event ev then 1 else 0)"

lemma event_depth_bound: "event_depth ev w < 4"
  by (simp add: event_depth_def reports_left_def)

lemma agree_step:
  assumes "reports_handler h" "agree_below (event_depth ev w) h h'"
  shows "apply_event_step env h ev w = apply_event_step env h' ev w"
proof -
  let ?k = "reports_left w"
  have low: "agree_below ?k h h'"
    using assms(2) by (auto simp: agree_below_def event_depth_def)
  have keep: "keeps (few_reports ?k) (apply_event_core env h ev)" by (rule reports_core [OF reports.keep_checkpoint [OF reports_handlerD [OF assms(1)]]])
  have inner: "apply_event_inner env h ev w = apply_event_inner env h' ev w"
    unfolding apply_event_inner_def
  proof (rule act_bind_agree)
    show "apply_event_core env h ev w = apply_event_core env h' ev w"
      by (rule agree_core [OF assms(1) low]) simp
    fix n t assume "apply_event_core env h ev w = (Ok n, t)"
    then have "few_reports ?k t" by (rule keepsD [OF keep order_refl])
    then show "(if is_stop_event ev then commit_stop_snapshot env h n else act_return ()) t =
        (if is_stop_event ev then commit_stop_snapshot env h' n else act_return ()) t"
      using assms by (auto simp: event_depth_def intro: agree_commit)
  qed
  have keep2: "keeps (few_reports ?k) (apply_event_inner env h ev)"
    unfolding apply_event_inner_def
    by (intro keeps_bind keep keeps_if reports.keep_commit [OF reports_handlerD [OF assms(1)]] keeps_simple)
  have "act_bind (apply_event_inner env h ev) (\<lambda>_. report_journal_gap h) w =
      act_bind (apply_event_inner env h' ev) (\<lambda>_. report_journal_gap h') w"
  proof (rule act_bind_agree)
    show "apply_event_inner env h ev w = apply_event_inner env h' ev w" by (rule inner)
    fix x t assume "apply_event_inner env h ev w = (Ok x, t)"
    then have "few_reports ?k t" by (rule keepsD [OF keep2 order_refl])
    then show "report_journal_gap h t = report_journal_gap h' t" by (rule agree_gap [OF low])
  qed
  then show ?thesis by (simp add: apply_event_step_def)
qed

lemma nested_agree:
  "event_depth ev w < m \<Longrightarrow> event_depth ev w < n \<Longrightarrow>
     apply_event_nested env m ev w = apply_event_nested env n ev w"
proof (induction m arbitrary: n ev w)
  case (Suc m)
  obtain n' where n: "n = Suc n'" using Suc.prems(2) by (cases n) simp_all
  have "agree_below (event_depth ev w) (apply_event_nested env m) (apply_event_nested env n')"
    unfolding agree_below_def
  proof (intro allI impI)
    fix ev' w' assume e: "\<not> is_stop_event ev'" "reports_left w' < event_depth ev w"
    then have "event_depth ev' w' < event_depth ev w" by (simp add: event_depth_def [of ev'])
    with Suc.prems n show "apply_event_nested env m ev' w' = apply_event_nested env n' ev' w'"
      by (intro Suc.IH) simp_all
  qed
  from agree_step [OF reports_nested this] n show ?case by simp
qed simp

section \<open>Property\<close>

text \<open>C40.  Applying an event ends: however deep the methods of the worker are allowed to call each
  other, from four levels on the result is the same, and it satisfies the recursive equation of the
  source, in which every nested event is applied in full.\<close>

theorem apply_event_depth:
  "apply_event_nested env (4 + n) ev w = worker_apply_event env ev w \<and>
   worker_apply_event env ev w = apply_event_step env (worker_apply_event env) ev w"
proof -
  have eq: "apply_event_nested env (4 + n) ev w = worker_apply_event env ev w" for n ev w
    unfolding worker_apply_event_def using event_depth_bound [of ev w]
    by (intro nested_agree) simp_all
  have "apply_event_nested env (Suc 4) ev w = apply_event_step env (worker_apply_event env) ev w"
    unfolding worker_apply_event_def by (rule apply_event_nested.simps)
  then show ?thesis using eq [of n] eq [of 1] by simp
qed

end
