(* ===== verification/Worker_Exec.thy ===== *)
theory Worker_Exec
  imports Worker_Depth Encoding
begin

text \<open>
  The command side of the session worker (\<open>crates/gdb-ai-core/src/session/actor.rs\<close>): receiving
  input of GDB, sending a command and waiting for its result while control requests are served, and
  closing the session.  The loop that waits takes what the channels deliver from \<open>wk_inbox\<close>; when
  nothing more is delivered its timer fires, as \<open>tokio::time::sleep_until\<close> promises.
\<close>

section \<open>Helper functions\<close>

definition target_running :: "Worker \<Rightarrow> bool" where
  "target_running w \<longleftrightarrow>
     list_ex (\<lambda>i. inf_status i = InferiorStatus.Running) (bt_values (inferiors (worker_session w)))"

definition stream_len :: "MiRecord \<Rightarrow> nat" where
  "stream_len record = (case record of
       ConsoleStream bs \<Rightarrow> length bs | TargetStream bs \<Rightarrow> length bs | LogStream bs \<Rightarrow> length bs
     | _ \<Rightarrow> 0)"

definition is_stream :: "MiRecord \<Rightarrow> bool" where
  "is_stream record = (case record of
       ConsoleStream _ \<Rightarrow> True | TargetStream _ \<Rightarrow> True | LogStream _ \<Rightarrow> True | _ \<Rightarrow> False)"

definition result_token :: "MiRecord \<Rightarrow> nat option" where
  "result_token record = (case record of Result tok _ _ \<Rightarrow> tok | _ \<Rightarrow> None)"

definition command_starts_fresh_inferior :: "MiCommand \<Rightarrow> bool" where
  "command_starts_fresh_inferior c \<longleftrightarrow>
     cmd_name c = ''-exec-run'' \<or>
     (case cmd_arguments c of
        [Bare interpreter, String console_command] \<Rightarrow>
          cmd_name c = ''-interpreter-exec'' \<and> interpreter = ''console'' \<and>
          console_command = as_bytes ''starti''
      | _ \<Rightarrow> False)"

definition command_resumes_target :: "MiCommand \<Rightarrow> bool" where
  "command_resumes_target c \<longleftrightarrow>
     command_starts_fresh_inferior c \<or>
     cmd_name c \<in> {''-exec-run'', ''-exec-continue'', ''-exec-step'', ''-exec-next'', ''-exec-finish'',
       ''-exec-step-instruction'', ''-exec-next-instruction'', ''-exec-until'', ''-exec-jump'',
       ''-exec-return''}"

definition resume_failed_definitively :: "'a result \<Rightarrow> bool \<Rightarrow> bool" where
  "resume_failed_definitively r outcome_unknown \<longleftrightarrow> \<not> is_ok r \<and> \<not> outcome_unknown"

definition operation_owns_resume :: "OperationId option \<Rightarrow> OperationId \<Rightarrow> bool" where
  "operation_owns_resume active requested \<longleftrightarrow> active = Some requested"

definition command_timeout :: "nat \<Rightarrow> Error" where
  "command_timeout tok =
     retryable (with_details
       (new_error Timeout (''MI token '' @ show_nat tok @ '' timed out; command completion is unknown''))
       (json_object [(''outcome_unknown'', JBool True), (''token'', JNumber (int tok))]))"

definition reply_details :: "WorkerEnv \<Rightarrow> nat \<Rightarrow> MiRecord \<Rightarrow> nat \<Rightarrow> MiRecord list \<Rightarrow> bool \<Rightarrow> Json" where
  "reply_details env tok record evidence_seq streams truncated =
     JObject (fold (\<lambda>(k, v). bt_insert k v)
       (command_output (cd_base64 (ev_codec env)) streams truncated)
       (fold (\<lambda>(k, v). bt_insert k v)
          [(''token'', JNumber (int tok)), (''record'', ev_record_json env record),
           (''evidence_seq'', JNumber (int evidence_seq))] []))"

definition command_reply ::
  "WorkerEnv \<Rightarrow> nat \<Rightarrow> MiRecord \<Rightarrow> nat \<Rightarrow> MiRecord list \<Rightarrow> bool \<Rightarrow> CommandReply result" where
  "command_reply env tok record evidence_seq streams truncated =
     (case record of
        Result (Some t) cls results \<Rightarrow>
          if t \<noteq> tok then Err (new_error Internal ''matched MI command token changed'')
          else if cls = ''error'' then
            Err (with_details
              (new_error GdbError (case find_str results ''msg'' of Some m \<Rightarrow> m | None \<Rightarrow> ''GDB command failed''))
              (reply_details env tok record evidence_seq streams truncated))
          else Ok \<lparr>cr_token = tok, cr_class = cls, cr_record = record, cr_stream_records = streams,
                   cr_stream_truncated = truncated, cr_evidence_seq = evidence_seq\<rparr>
      | _ \<Rightarrow> Err (new_error Internal ''matched MI command record is not a result''))"

definition command_deadline :: "nat \<Rightarrow> nat \<Rightarrow> nat" where
  "command_deadline now timeout = now + max timeout 1"

section \<open>Calls to GDB\<close>

abbreviation handle_event :: "WorkerEnv \<Rightarrow> event_handler" where
  "handle_event env \<equiv> worker_apply_event env"

definition backend_call :: "WorkerEnv \<Rightarrow> unit worker_act" where
  "backend_call env w = (ev_backend env (wk_calls w), w\<lparr>wk_calls := wk_calls w + 1\<rparr>)"

definition send_line :: "WorkerEnv \<Rightarrow> bytes \<Rightarrow> unit worker_act" where
  "send_line env raw =
     act_bind (backend_call env) (\<lambda>_. act_update (\<lambda>w. w\<lparr>wk_lines := wk_lines w @ [raw]\<rparr>))"

definition journaled :: "WorkerEnv \<Rightarrow> (JournalIo \<Rightarrow> (Json Journal, Error, 'a) act) \<Rightarrow> 'a worker_act" where
  "journaled env m = act_then (with_journal env m) (journal_result (handle_event env))"

definition require_known_outcome_name :: "WorkerEnv \<Rightarrow> string \<Rightarrow> unit worker_act" where
  "require_known_outcome_name env name w =
     (if wk_timed_out_tokens w \<noteq> {} \<and> name \<noteq> ''-exec-interrupt''
      then (Err (new_error GdbUnresponsive
              (''MI command outcome is unknown for token(s) '' @ ev_tokens_text env (wk_timed_out_tokens w) @
               ''; interrupt or close the session'')), w)
      else (Ok (), w))"

definition require_known_outcome :: "WorkerEnv \<Rightarrow> MiCommand \<Rightarrow> unit worker_act" where
  "require_known_outcome env c = require_known_outcome_name env (cmd_name c)"

definition take_token :: "nat worker_act" where
  "take_token w =
     (if wk_next_token w + 1 > u64_max then (Err (new_error Internal ''MI token counter exhausted''), w)
      else (Ok (wk_next_token w), w\<lparr>wk_next_token := wk_next_token w + 1\<rparr>))"

definition begin_command :: "WorkerEnv \<Rightarrow> MiCommand \<Rightarrow> nat worker_act" where
  "begin_command env c =
     act_bind (require_known_outcome env c) (\<lambda>_.
     act_bind take_token (\<lambda>tok.
     act_bind (journaled env (\<lambda>io. append_mi_input (ev_codec env) io tok (encoded c tok))) (\<lambda>_.
     act_bind (send_line env (encoded c tok)) (\<lambda>_. act_return tok))))"

section \<open>Input of GDB and the inferior\<close>

definition ring_add :: "bytes \<Rightarrow> ByteRing \<Rightarrow> ByteRing" where
  "ring_add bs r = snd (ring_append r bs)"

fun route_output :: "DomainEvent \<Rightarrow> Worker \<Rightarrow> Worker" where
  "route_output (Output source bs) w = (case source of
       GdbConsoleStream \<Rightarrow> w\<lparr>wk_console_output := ring_add bs (wk_console_output w)\<rparr>
     | MiTargetStream \<Rightarrow> w\<lparr>wk_target_output := ring_add bs (wk_target_output w)\<rparr>
     | GdbLogStream \<Rightarrow> w\<lparr>wk_log_output := ring_add bs (wk_log_output w)\<rparr>
     | _ \<Rightarrow> w)"
| "route_output _ w = w"

fun is_unknown_event :: "DomainEvent \<Rightarrow> bool" where
  "is_unknown_event (UnknownBackendEvent _) = True"
| "is_unknown_event (UnknownBackendNotification _) = True"
| "is_unknown_event _ = False"

definition count_event :: "DomainEvent \<Rightarrow> Worker \<Rightarrow> Worker" where
  "count_event event w =
     (let w1 = (if is_unknown_event event then upd_metrics mi_unknown_class w else w)
      in if is_stop_event event then upd_metrics target_stop w1 else w1)"

definition settle_interrupt :: "Worker \<Rightarrow> Worker" where
  "settle_interrupt w = (if target_running w then w else w\<lparr>wk_interrupt_fallback_at := None\<rparr>)"

definition receive_record :: "WorkerEnv \<Rightarrow> bytes \<Rightarrow> MiRecord \<Rightarrow> (MiRecord \<times> nat) option worker_act" where
  "receive_record env raw record =
     act_bind (act_update (upd_metrics mi_record)) (\<lambda>_.
     act_bind (journaled env (\<lambda>io. append_mi_output (ev_codec env) io raw)) (\<lambda>evidence_seq.
       case normalize record of
         None \<Rightarrow> act_return (Some (record, evidence_seq))
       | Some event \<Rightarrow>
           act_bind (act_update (count_event event \<circ> route_output event)) (\<lambda>_.
           act_bind (handle_event env event) (\<lambda>_.
           act_bind (act_update settle_interrupt) (\<lambda>_.
             act_return (Some (record, evidence_seq)))))))"

definition receive_stderr :: "WorkerEnv \<Rightarrow> bytes \<Rightarrow> unit worker_act" where
  "receive_stderr env bs =
     act_bind (journaled env (\<lambda>io. append_gdb_stderr (ev_codec env) io bs)) (\<lambda>_.
       act_update (\<lambda>w. w\<lparr>wk_log_output := ring_add bs (wk_log_output w)\<rparr>))"

definition receive_pty :: "WorkerEnv \<Rightarrow> unit worker_act" where
  "receive_pty env w =
     (let next_off = ring_end (wk_pty w); dropped = dropped_bytes (wk_pty w);
          offset = min (wk_output_offset w) next_off; len = next_off - offset
      in if len = 0 \<and> dropped = wk_output_dropped w then (Ok (), w)
         else act_bind (journaled env (\<lambda>io. append_inferior_output (ev_codec env) io offset len dropped)) (\<lambda>_.
              act_bind (act_update (\<lambda>w. upd_metrics (inferior_output_dropped (dropped - wk_output_dropped w))
                (w\<lparr>wk_output_offset := next_off, wk_output_dropped := dropped\<rparr>))) (\<lambda>_.
                handle_event env (OutputAdvanced OutputSource.InferiorPty offset len dropped))) w)"

definition lose_protocol :: "WorkerEnv \<Rightarrow> Error \<Rightarrow> 'a worker_act" where
  "lose_protocol env e =
     act_bind (act_update (\<lambda>w. upd_metrics (consistency_lost \<circ> mi_parse_error) (w\<lparr>wk_fatal := True\<rparr>))) (\<lambda>_.
     act_then (handle_event env (DomainEvent.ConsistencyLost (error_string e))) (\<lambda>lost.
     act_then (handle_event env (BackendExited None)) (\<lambda>exited.
     act_bind (act_update mark_failed) (\<lambda>_.
     act_bind (act_result lost) (\<lambda>_.
     act_bind (act_result exited) (\<lambda>_. act_fail e))))))"

definition exit_status :: "WorkerEnv \<Rightarrow> int option worker_act" where
  "exit_status env w = (ev_exit_status env (wk_calls w), w\<lparr>wk_calls := wk_calls w + 1\<rparr>)"

definition receive_eof :: "WorkerEnv \<Rightarrow> 'a worker_act" where
  "receive_eof env =
     act_bind (exit_status env) (\<lambda>status.
     act_bind (act_update (\<lambda>w. w\<lparr>wk_fatal := True\<rparr>)) (\<lambda>_.
     act_then (handle_event env (BackendExited status)) (\<lambda>exited.
     act_bind (act_update mark_failed) (\<lambda>_.
     act_bind (act_result exited) (\<lambda>_. act_fail (new_error GdbExited ''GDB stdout closed''))))))"

fun process_input :: "WorkerEnv \<Rightarrow> BackendInput \<Rightarrow> (MiRecord \<times> nat) option worker_act" where
  "process_input env (Mi raw record) = receive_record env raw record"
| "process_input env (GdbStderr bs) = act_bind (receive_stderr env bs) (\<lambda>_. act_return None)"
| "process_input env BackendInput.InferiorPty = act_bind (receive_pty env) (\<lambda>_. act_return None)"
| "process_input env (ProtocolError e) = lose_protocol env e"
| "process_input env GdbEof = receive_eof env"

definition take_delayed_token :: "MiRecord \<Rightarrow> Worker \<Rightarrow> nat option \<times> Worker" where
  "take_delayed_token record w =
     (case result_token record of
        Some tok \<Rightarrow>
          if tok \<in> wk_timed_out_tokens w
          then (Some tok, w\<lparr>wk_timed_out_tokens := wk_timed_out_tokens w - {tok}\<rparr>) else (None, w)
      | None \<Rightarrow> (None, w))"

definition debug_token :: "nat option \<Rightarrow> string" where
  "debug_token tok = (case tok of None \<Rightarrow> ''None'' | Some n \<Rightarrow> ''Some('' @ show_nat n @ '')'')"

definition handle_unmatched_result :: "WorkerEnv \<Rightarrow> MiRecord \<Rightarrow> unit worker_act" where
  "handle_unmatched_result env record = (case record of
       Result tok cls _ \<Rightarrow>
         handle_event env (DomainEvent.ConsistencyDirty
           (''unmatched MI result token '' @ debug_token tok @ '' class '' @ cls))
     | _ \<Rightarrow> act_return ())"

end
