(* ===== verification/Worker_Loop.thy ===== *)
theory Worker_Loop
  imports Worker_Exec
begin

text \<open>
  The loop of \<open>SessionWorker::execute_until_inner\<close>: while a command waits for its result the worker
  keeps taking control requests (records of requests and operations, interrupts, cancellations,
  close), input of GDB, and the expiry of the timers.  One iteration is \<open>exec_step\<close>; the clock is read
  once in it.
\<close>

section \<open>Control operations\<close>

definition require_active_resume :: "OperationId \<Rightarrow> unit worker_act" where
  "require_active_resume operation_id w =
     (if operation_owns_resume (wk_active_resume_operation w) operation_id then Ok ()
      else Err (new_error Conflict ''operation no longer owns the active target resume''), w)"

definition owned_interrupt_command :: "OperationId \<Rightarrow> MiCommand worker_act" where
  "owned_interrupt_command operation_id =
     act_bind (require_active_resume operation_id) (\<lambda>_.
       act_result (command_new ''-exec-interrupt''))"

definition record_api :: "WorkerEnv \<Rightarrow> Json \<Rightarrow> unit worker_act" where
  "record_api env request =
     journaled env (\<lambda>io. act_bind (append_api (ev_codec env) io request) (\<lambda>_. act_return ()))"

text \<open>\<open>min_by_key\<close>: the first of the records with the smallest key.\<close>

fun oldest_operation :: "OperationRecord list \<Rightarrow> OperationRecord option" where
  "oldest_operation [] = None"
| "oldest_operation (r # rs) =
     (case oldest_operation rs of
        None \<Rightarrow> Some r
      | Some q \<Rightarrow> if op_created_revision r \<le> op_created_revision q then Some r else Some q)"

definition evict_operation :: "Worker \<Rightarrow> Worker" where
  "evict_operation w =
     (case oldest_operation (bt_values (wk_operations w)) of
        Some oldest \<Rightarrow> w\<lparr>wk_operations := bt_remove (op_operation_id oldest) (wk_operations w),
                         wk_dirty_operations := bt_remove (op_operation_id oldest) (wk_dirty_operations w)\<rparr>
      | None \<Rightarrow> w)"

definition keep_operation :: "OperationRecord \<Rightarrow> Worker \<Rightarrow> Worker" where
  "keep_operation operation w =
     (let i = op_operation_id operation;
          w1 = (if bt_get (wk_operations w) i = None \<and> wk_operation_limit w \<le> length (wk_operations w)
                then evict_operation w else w)
      in w1\<lparr>wk_operations := bt_insert i operation (wk_operations w1)\<rparr>)"

definition operation_history :: "WorkerEnv \<Rightarrow> OperationRecord \<Rightarrow> unit worker_act" where
  "operation_history env operation w =
     (if is_durable (wk_journal w)
      then (case store_call env (StoreOperation operation) w of (r, w1) \<Rightarrow> store_result (handle_event env) r w1)
      else (Ok (), w\<lparr>wk_dirty_operations := bt_insert (op_operation_id operation) () (wk_dirty_operations w)\<rparr>))"

definition record_operation :: "WorkerEnv \<Rightarrow> OperationRecord \<Rightarrow> unit worker_act" where
  "record_operation env operation =
     act_bind (operation_history env operation) (\<lambda>_. act_update (keep_operation operation))"

definition finalized_metrics :: "EvidenceResult \<Rightarrow> Worker \<Rightarrow> Worker" where
  "finalized_metrics e w =
     (let m1 = inferior_output_spooled (er_spooled_bytes e) (wk_metrics w);
          m2 = (if er_artifact_bytes e > 0 then artifact_written (er_artifact_bytes e) m1 else m1);
          m3 = (case er_stored_bytes e of
                  Some stored \<Rightarrow> artifact_storage stored (wk_total_artifact_limit w) m2 | None \<Rightarrow> m2)
      in w\<lparr>wk_metrics := m3, wk_output_finalized := True\<rparr>)"

definition finish_evidence :: "WorkerEnv \<Rightarrow> EvidenceResult worker_act" where
  "finish_evidence env w = (ev_evidence env (wk_calls w), w\<lparr>wk_calls := wk_calls w + 1\<rparr>)"

definition finalize_output_evidence :: "WorkerEnv \<Rightarrow> unit worker_act" where
  "finalize_output_evidence env w =
     (if wk_output_finalized w then (Ok (), w)
      else act_bind (finish_evidence env) (\<lambda>e.
           act_bind (act_update (finalized_metrics e)) (\<lambda>_.
           act_bind (journaled env (\<lambda>io. append_inferior_output_evidence (ev_codec env) io (er_status e)))
             (\<lambda>_. act_return ()))) w)"

definition close_metric :: "Worker \<Rightarrow> Worker" where
  "close_metric w =
     (if wk_metric_active w then upd_metrics session_closed (w\<lparr>wk_metric_active := False\<rparr>) else w)"

definition finish_journal :: "WorkerEnv \<Rightarrow> unit worker_act" where
  "finish_journal env = journaled env (journal_finish (ev_codec env))"

definition close_tail :: "WorkerEnv \<Rightarrow> unit worker_act" where
  "close_tail env =
     act_bind (finalize_output_evidence env) (\<lambda>_.
     act_bind (handle_event env SessionClosed) (\<lambda>_.
     act_bind (checkpoint env (handle_event env) True) (\<lambda>_.
     act_bind (checkpoint env (handle_event env) False) (\<lambda>_.
     act_bind (finish_journal env) (\<lambda>_.
     act_bind (checkpoint env (handle_event env) False) (\<lambda>_.
       act_update close_metric))))))"

definition close :: "WorkerEnv \<Rightarrow> unit worker_act" where
  "close env =
     act_then (handle_event env SessionClosing) (\<lambda>closing.
     act_then (backend_call env) (\<lambda>shutdown.
     act_bind (act_result closing) (\<lambda>_.
     act_bind (act_result shutdown) (\<lambda>_. close_tail env))))"

section \<open>Interrupts\<close>

definition finish_interrupt :: "CommandReply result \<Rightarrow> Worker \<Rightarrow> Worker" where
  "finish_interrupt r w =
     (if is_ok r \<and> target_running w then w\<lparr>wk_interrupt_fallback_at := Some (wk_now w + 250)\<rparr> else w)"

definition escalate_acknowledged_interrupt :: "WorkerEnv \<Rightarrow> unit worker_act" where
  "escalate_acknowledged_interrupt env w =
     (case wk_interrupt_fallback_at w of
        None \<Rightarrow> (Ok (), w)
      | Some deadline \<Rightarrow>
          if deadline > wk_now w then (Ok (), w)
          else let w1 = w\<lparr>wk_interrupt_fallback_at := None\<rparr>
               in if target_running w1 then backend_call env w1 else (Ok (), w1))"

datatype PendingControlResponse = InterruptResponse nat | CancelResponse nat

record PendingControl =
  pc_token :: nat
  pc_deadline :: nat
  pc_escalate_at :: nat
  pc_escalated :: bool
  pc_response :: PendingControlResponse

definition reply :: "nat \<Rightarrow> WorkerReply \<Rightarrow> Worker \<Rightarrow> Worker" where
  "reply channel r w = w\<lparr>wk_replies := wk_replies w @ [(channel, r)]\<rparr>"

fun response_send :: "PendingControlResponse \<Rightarrow> CommandReply result \<Rightarrow> Worker \<Rightarrow> Worker" where
  "response_send (InterruptResponse channel) r w = reply channel (CommandReplied r) w"
| "response_send (CancelResponse channel) r w =
     reply channel (UnitReply (bind_res r (\<lambda>_. Ok ()))) w"

section \<open>One iteration\<close>

record ExecState =
  es_streams :: "MiRecord list"
  es_bytes :: nat
  es_truncated :: bool
  es_normal :: "CommandReply result option"
  es_pending :: "PendingControl option"

definition exec_init :: ExecState where
  "exec_init = \<lparr>es_streams = [], es_bytes = 0, es_truncated = False, es_normal = None, es_pending = None\<rparr>"

datatype flow = Again ExecState | Return "CommandReply result"

type_synonym exec_act = "ExecState \<Rightarrow> Worker \<Rightarrow> flow \<times> Worker"

definition elapsed_command :: "WorkerEnv \<Rightarrow> bool \<Rightarrow> Worker \<Rightarrow> Worker" where
  "elapsed_command env failed w =
     upd_metrics (metrics_command (ev_micros env (wk_calls w)) failed) (w\<lparr>wk_calls := wk_calls w + 1\<rparr>)"

text \<open>\<open>?\<close>: an error ends the loop.\<close>

definition or_return :: "'a worker_act \<Rightarrow> ('a \<Rightarrow> Worker \<Rightarrow> flow \<times> Worker) \<Rightarrow> Worker \<Rightarrow> flow \<times> Worker" where
  "or_return m f w = (case m w of (Err e, w1) \<Rightarrow> (Return (Err e), w1) | (Ok x, w1) \<Rightarrow> f x w1)"

definition conflict_pending :: Error where
  "conflict_pending = new_error Conflict ''an interrupt is already pending''"

definition start_interrupt ::
  "WorkerEnv \<Rightarrow> MiCommand \<Rightarrow> nat \<Rightarrow> PendingControlResponse \<Rightarrow> exec_act" where
  "start_interrupt env c deadline response x w =
     (case begin_command env c w of
        (Ok control_token, w1) \<Rightarrow>
          (Again (x\<lparr>es_pending := Some \<lparr>pc_token = control_token, pc_deadline = deadline,
             pc_escalate_at = wk_now w1 + 250, pc_escalated = False, pc_response = response\<rparr>\<rparr>), w1)
      | (Err e, w1) \<Rightarrow> (Again x, response_send response (Err e) w1))"

definition exec_cancel :: "WorkerEnv \<Rightarrow> OperationId \<Rightarrow> nat \<Rightarrow> exec_act" where
  "exec_cancel env operation_id channel x w =
     (if es_pending x \<noteq> None then (Again x, reply channel (UnitReply (Err conflict_pending)) w)
      else (case owned_interrupt_command operation_id w of
          (Err e, w1) \<Rightarrow> (Again x, reply channel (UnitReply (Err e)) w1)
        | (Ok c, w1) \<Rightarrow>
            start_interrupt env c (command_deadline (wk_now w1) (wk_command_timeout w1))
              (CancelResponse channel) x w1))"

definition exec_interrupt :: "WorkerEnv \<Rightarrow> MiCommand \<Rightarrow> nat \<Rightarrow> nat \<Rightarrow> exec_act" where
  "exec_interrupt env c deadline channel x w =
     (if es_pending x \<noteq> None then (Again x, reply channel (CommandReplied (Err conflict_pending)) w)
      else if deadline \<le> wk_now w
      then (Again x, reply channel (CommandReplied
             (Err (retryable (new_error Timeout ''interrupt deadline expired while queued'')))) w)
      else start_interrupt env c deadline (InterruptResponse channel) x w)"

definition cancel_close :: "WorkerEnv \<Rightarrow> OperationId \<Rightarrow> unit worker_act" where
  "cancel_close env operation_id =
     act_bind (require_active_resume operation_id) (\<lambda>_. close env)"

fun exec_control :: "WorkerEnv \<Rightarrow> ControlRequest option \<Rightarrow> exec_act" where
  "exec_control env None x w = (Again x, w\<lparr>wk_controls_open := False\<rparr>)"
| "exec_control env (Some (RecordApi request channel)) x w =
     (case record_api env request w of (r, w1) \<Rightarrow>
        let w2 = reply channel (UnitReply r) w1
        in (if wk_fatal w2 then Return (Err (new_error GdbExited ''required journal failed'')) else Again x, w2))"
| "exec_control env (Some (RecordOperation operation channel)) x w =
     (case record_operation env operation w of (r, w1) \<Rightarrow>
        let w2 = reply channel (UnitReply r) w1
        in (if wk_fatal w2 then Return (Err (new_error GdbExited ''required history failed'')) else Again x, w2))"
| "exec_control env (Some (Close channel)) x w =
     (case close env w of (r, w1) \<Rightarrow>
        (Return (Err (new_error GdbExited ''session closed'')),
         (reply channel (UnitReply r) w1)\<lparr>wk_fatal := True\<rparr>))"
| "exec_control env (Some (CancelOperation operation_id CloseSession channel)) x w =
     (case cancel_close env operation_id w of (r, w1) \<Rightarrow>
        let w2 = reply channel (UnitReply r) w1
        in if is_ok r
           then (Return (Err (new_error ErrorCode.Cancelled ''operation closed session'')), w2\<lparr>wk_fatal := True\<rparr>)
           else (Again x, w2))"
| "exec_control env (Some (CancelOperation operation_id InterruptTarget channel)) x w =
     exec_cancel env operation_id channel x w"
| "exec_control env (Some (ControlRequest.Interrupt c deadline channel)) x w =
     exec_interrupt env c deadline channel x w"

text \<open>The timers, in the order the source checks them.\<close>

definition escalate_pending :: "WorkerEnv \<Rightarrow> exec_act" where
  "escalate_pending env x w =
     (case es_pending x of
        Some c \<Rightarrow>
          if \<not> pc_escalated c \<and> pc_escalate_at c \<le> wk_now w
          then (case backend_call env w of
                  (Err e, w1) \<Rightarrow> (Again (x\<lparr>es_pending := None\<rparr>), response_send (pc_response c) (Err e) w1)
                | (Ok _, w1) \<Rightarrow> (Again (x\<lparr>es_pending := Some (c\<lparr>pc_escalated := True\<rparr>)\<rparr>), w1))
          else (Again x, w)
      | None \<Rightarrow> (Again x, w))"

definition outcome_unknown :: "WorkerEnv \<Rightarrow> nat \<Rightarrow> unit worker_act" where
  "outcome_unknown env tok =
     act_bind (act_update (\<lambda>w. w\<lparr>wk_timed_out_tokens := insert tok (wk_timed_out_tokens w)\<rparr>)) (\<lambda>_.
     act_bind (handle_event env (CommandOutcomeUnknown tok)) (\<lambda>_.
       act_update (elapsed_command env True)))"

definition expire_pending :: "WorkerEnv \<Rightarrow> exec_act" where
  "expire_pending env x w =
     (case es_pending x of
        Some c \<Rightarrow>
          if pc_deadline c \<le> wk_now w
          then or_return (outcome_unknown env (pc_token c)) (\<lambda>_ w1.
                 (Again (x\<lparr>es_pending := None\<rparr>),
                  response_send (pc_response c) (Err (command_timeout (pc_token c))) w1)) w
          else (Again x, w)
      | None \<Rightarrow> (Again x, w))"

definition expire_command :: "WorkerEnv \<Rightarrow> nat \<Rightarrow> nat \<Rightarrow> exec_act" where
  "expire_command env tok deadline x w =
     (if es_normal x = None \<and> deadline \<le> wk_now w
      then or_return (outcome_unknown env tok) (\<lambda>_ w1.
             (Again (x\<lparr>es_normal := Some (Err (command_timeout tok))\<rparr>), w1)) w
      else (Again x, w))"

definition and_then :: "flow \<times> Worker \<Rightarrow> exec_act \<Rightarrow> flow \<times> Worker" where
  "and_then fw f = (case fw of (Again x, w) \<Rightarrow> f x w | (Return r, w) \<Rightarrow> (Return r, w))"

definition exec_deadline :: "WorkerEnv \<Rightarrow> nat \<Rightarrow> nat \<Rightarrow> exec_act" where
  "exec_deadline env tok deadline x w =
     or_return (escalate_acknowledged_interrupt env) (\<lambda>_ w1.
       and_then (and_then (escalate_pending env x w1) (expire_pending env)) (expire_command env tok deadline)) w"

text \<open>A record of GDB.\<close>

definition collect_stream :: "MiRecord \<Rightarrow> nat \<Rightarrow> ExecState \<Rightarrow> ExecState" where
  "collect_stream record limit x =
     (if es_normal x = None \<and> is_stream record
      then if saturating_add (es_bytes x) (stream_len record) \<le> limit
           then x\<lparr>es_bytes := es_bytes x + stream_len record, es_streams := es_streams x @ [record]\<rparr>
           else x\<lparr>es_truncated := True\<rparr>
      else x)"

definition resolve_delayed :: "WorkerEnv \<Rightarrow> MiRecord \<Rightarrow> nat option worker_act" where
  "resolve_delayed env record w =
     (case take_delayed_token record w of
        (Some tok, w1) \<Rightarrow>
          act_bind (handle_event env (CommandOutcomeResolved tok)) (\<lambda>_. act_return (Some tok)) w1
      | (None, w1) \<Rightarrow> (Ok None, w1))"

definition answer_pending :: "WorkerEnv \<Rightarrow> PendingControl \<Rightarrow> MiRecord \<Rightarrow> nat \<Rightarrow> exec_act" where
  "answer_pending env c record evidence_seq x w =
     (let r = command_reply env (pc_token c) record evidence_seq [] False
      in (Again (x\<lparr>es_pending := None\<rparr>),
          response_send (pc_response c) r (finish_interrupt r (elapsed_command env False w))))"

definition answer_command :: "WorkerEnv \<Rightarrow> nat \<Rightarrow> MiRecord \<Rightarrow> nat \<Rightarrow> exec_act" where
  "answer_command env tok record evidence_seq x w =
     (Again (x\<lparr>es_normal := Some (command_reply env tok record evidence_seq (es_streams x) (es_truncated x)),
               es_streams := []\<rparr>), elapsed_command env False w)"

definition other_record :: "WorkerEnv \<Rightarrow> nat option \<Rightarrow> MiRecord \<Rightarrow> exec_act" where
  "other_record env delayed record x =
     or_return (if delayed = None then handle_unmatched_result env record else act_return ()) (\<lambda>_ w1.
       (Again (collect_stream record (wk_stream_limit w1) x), w1))"

definition pending_matches :: "ExecState \<Rightarrow> MiRecord \<Rightarrow> PendingControl option" where
  "pending_matches x record =
     (case es_pending x of
        Some c \<Rightarrow> if result_token record = Some (pc_token c) then Some c else None
      | None \<Rightarrow> None)"

definition exec_record :: "WorkerEnv \<Rightarrow> nat \<Rightarrow> MiRecord \<Rightarrow> nat \<Rightarrow> exec_act" where
  "exec_record env tok record evidence_seq x =
     or_return (resolve_delayed env record) (\<lambda>delayed.
       case pending_matches x record of
         Some c \<Rightarrow> answer_pending env c record evidence_seq x
       | None \<Rightarrow>
           if result_token record = Some tok then answer_command env tok record evidence_seq x
           else other_record env delayed record x)"

fun exec_backend :: "WorkerEnv \<Rightarrow> nat \<Rightarrow> BackendInput option \<Rightarrow> exec_act" where
  "exec_backend env tok None x w = (Return (Err (new_error GdbExited ''GDB input channel closed'')), w)"
| "exec_backend env tok (Some input) x w =
     or_return (process_input env input) (\<lambda>out.
       case out of
         None \<Rightarrow> (\<lambda>w1. (Again x, w1))
       | Some (record, evidence_seq) \<Rightarrow> exec_record env tok record evidence_seq x) w"

text \<open>When the loop wakes up without input.\<close>

definition exec_wake :: "nat \<Rightarrow> ExecState \<Rightarrow> Worker \<Rightarrow> nat" where
  "exec_wake deadline x w =
     (let base = (if es_normal x = None then deadline
                  else case es_pending x of Some c \<Rightarrow> pc_deadline c | None \<Rightarrow> deadline);
          pend = (case es_pending x of
                    Some c \<Rightarrow> (let d = min base (pc_deadline c)
                               in if pc_escalated c then d else min d (pc_escalate_at c))
                  | None \<Rightarrow> base)
      in case wk_interrupt_fallback_at w of Some t \<Rightarrow> min pend t | None \<Rightarrow> pend)"

text \<open>\<open>select!\<close>: what is delivered before the timer expires comes first.  An entry \<open>Deadline\<close> lets the
  timer expire late, at its time.  A closed control channel is not read.\<close>

definition select_input :: "nat \<Rightarrow> Worker \<Rightarrow> ExecutionInput \<times> Worker" where
  "select_input wake w =
     (let fire = max (wk_now w) wake
      in case wk_inbox w of
           (t, Deadline) # rest \<Rightarrow> (Deadline, w\<lparr>wk_inbox := rest, wk_now := max fire t\<rparr>)
         | (t, input) # rest \<Rightarrow>
             if t \<le> fire then (input, w\<lparr>wk_inbox := rest, wk_now := max (wk_now w) t\<rparr>)
             else (Deadline, w\<lparr>wk_now := fire\<rparr>)
         | [] \<Rightarrow> (Deadline, w\<lparr>wk_now := fire\<rparr>))"

definition exec_input :: "WorkerEnv \<Rightarrow> nat \<Rightarrow> nat \<Rightarrow> ExecutionInput \<Rightarrow> exec_act" where
  "exec_input env tok deadline input x w = (case input of
       ControlInput c \<Rightarrow> if wk_controls_open w then exec_control env c x w else (Again x, w)
     | BackendReady b \<Rightarrow> exec_backend env tok b x w
     | Deadline \<Rightarrow> exec_deadline env tok deadline x w)"

definition exec_step :: "WorkerEnv \<Rightarrow> nat \<Rightarrow> nat \<Rightarrow> exec_act" where
  "exec_step env tok deadline x w =
     (case select_input (exec_wake deadline x w) w of
        (input, w1) \<Rightarrow> exec_input env tok deadline input x w1)"

end
