(* ===== verification/Worker_Keep.thy ===== *)
theory Worker_Keep
  imports Worker_Loop
begin

text \<open>
  Invariants of the command side of the worker.  \<open>session_invariant\<close> extends the contract of
  \<open>worker_invariant\<close> by what the methods around commands and input do, \<open>exec_invariant\<close> by what the loop
  that waits for a result does.
\<close>

section \<open>A failed worker stays failed\<close>

lemma mark_failed_fields [simp]:
  "wk_inbox (mark_failed w) = wk_inbox w" "wk_now (mark_failed w) = wk_now w"
  "wk_interrupt_fallback_at (mark_failed w) = wk_interrupt_fallback_at w"
  "wk_sent (mark_failed w) = wk_sent w" "wk_lines (mark_failed w) = wk_lines w"
  "wk_next_token (mark_failed w) = wk_next_token w"
  "wk_timed_out_tokens (mark_failed w) = wk_timed_out_tokens w"
  "wk_replies (mark_failed w) = wk_replies w"
  by (simp_all add: mark_failed_def Let_def split: prod.split)

lemma fail_worker_fields [simp]:
  "wk_inbox (fail_worker w) = wk_inbox w" "wk_now (fail_worker w) = wk_now w"
  "wk_interrupt_fallback_at (fail_worker w) = wk_interrupt_fallback_at w"
  "wk_sent (fail_worker w) = wk_sent w" "wk_lines (fail_worker w) = wk_lines w"
  "wk_next_token (fail_worker w) = wk_next_token w"
  "wk_timed_out_tokens (fail_worker w) = wk_timed_out_tokens w"
  "wk_replies (fail_worker w) = wk_replies w"
  by (simp_all add: fail_worker_def)

lemma after_reduce_fields [simp]:
  "wk_inbox (after_reduce b e s w) = wk_inbox w" "wk_now (after_reduce b e s w) = wk_now w"
  "wk_interrupt_fallback_at (after_reduce b e s w) = wk_interrupt_fallback_at w"
  "wk_fatal (after_reduce b e s w) = wk_fatal w" "wk_lines (after_reduce b e s w) = wk_lines w"
  "wk_next_token (after_reduce b e s w) = wk_next_token w"
  "wk_timed_out_tokens (after_reduce b e s w) = wk_timed_out_tokens w"
  "wk_replies (after_reduce b e s w) = wk_replies w"
  "wk_sent (after_reduce b e s w) = wk_sent w" "wk_journal (after_reduce b e s w) = wk_journal w"
  "wk_state (after_reduce b e s w) = wk_state w"
  by (simp_all add: after_reduce_def Let_def)

lemma before_event_fields [simp]:
  "wk_inbox (before_event e w) = wk_inbox w" "wk_now (before_event e w) = wk_now w"
  "wk_interrupt_fallback_at (before_event e w) = wk_interrupt_fallback_at w"
  "wk_fatal (before_event e w) = wk_fatal w" "wk_lines (before_event e w) = wk_lines w"
  "wk_next_token (before_event e w) = wk_next_token w"
  "wk_timed_out_tokens (before_event e w) = wk_timed_out_tokens w"
  "wk_replies (before_event e w) = wk_replies w"
  "wk_sent (before_event e w) = wk_sent w" "wk_journal (before_event e w) = wk_journal w"
  "wk_state (before_event e w) = wk_state w" "wk_calls (before_event e w) = wk_calls w"
  by (simp_all add: before_event_def Let_def)

section \<open>What applying an event does not touch\<close>

definition exec_part :: "Worker \<Rightarrow>
    (nat \<times> ExecutionInput) list \<times> nat \<times> nat option \<times> bytes list \<times> nat \<times> nat set \<times> (nat \<times> WorkerReply) list" where
  "exec_part w = (wk_inbox w, wk_now w, wk_interrupt_fallback_at w, wk_lines w, wk_next_token w,
     wk_timed_out_tokens w, wk_replies w)"

text \<open>A predicate that depends only on what an event leaves alone.\<close>

definition event_frame :: "(Worker \<Rightarrow> bool) \<Rightarrow> bool" where
  "event_frame P \<longleftrightarrow>
     (\<forall>w w'. exec_part w' = exec_part w \<longrightarrow> (wk_fatal w \<longrightarrow> wk_fatal w') \<longrightarrow> P w \<longrightarrow> P w')"

lemma event_frameD:
  "event_frame P \<Longrightarrow> P w \<Longrightarrow> exec_part w' = exec_part w \<Longrightarrow> (wk_fatal w \<Longrightarrow> wk_fatal w') \<Longrightarrow> P w'"
  unfolding event_frame_def by blast

lemma exec_part_simps [simp]:
  "exec_part (fail_worker w) = exec_part w" "exec_part (mark_failed w) = exec_part w"
  "exec_part (before_event e w) = exec_part w" "exec_part (after_reduce b e s w) = exec_part w"
  "exec_part (w\<lparr>wk_state := ls\<rparr>) = exec_part w" "exec_part (w\<lparr>wk_sent := se\<rparr>) = exec_part w"
  "exec_part (w\<lparr>wk_journal := j\<rparr>) = exec_part w" "exec_part (w\<lparr>wk_calls := n\<rparr>) = exec_part w"
  "exec_part (w\<lparr>wk_state_dirty := d\<rparr>) = exec_part w" "exec_part (w\<lparr>wk_metrics := m\<rparr>) = exec_part w"
  by (simp_all add: exec_part_def)

lemma frame_with_journal: "event_frame P \<Longrightarrow> keeps P (with_journal env m)"
  by (rule keeps_intro) (auto simp: with_journal_def elim!: event_frameD split: prod.splits)

lemma frame_safe: "event_frame P \<Longrightarrow> keeps P m \<Longrightarrow> fails_safe P m"
  unfolding fails_safe_def by (metis keepsD event_frameD exec_part_simps(1) fail_worker_frame(2))

lemma frame_reduce: "event_frame P \<Longrightarrow> keeps P (reduce_event b n ev)"
  by (rule keeps_intro)
    (auto simp: reduce_event_def live_apply_event_with_def elim!: event_frameD split: option.split sum.split)

lemma frame_core:
  assumes P: "event_frame P" and c: "\<And>closing. keeps P (checkpoint env handle closing)"
  shows "keeps P (apply_event_core env handle ev)"
proof (rule keeps_intro)
  fix w assume w: "P w"
  have ch: "keeps P (checkpoint_change env handle b)" for b
  proof (rule keeps_intro)
    fix w assume "P w"
    then have "P (w\<lparr>wk_state_dirty := d\<rparr>)" for d by (rule event_frameD [OF P]) simp_all
    with keeps_snd [OF c] show "P (snd (checkpoint_change env handle b w))"
      by (simp add: checkpoint_change_def Let_def)
  qed
  have "keeps P
      (act_bind (with_journal env (\<lambda>io. append_domain_ref (ev_codec env) io ev)) (\<lambda>sequence.
         act_bind (reduce_event inv sequence ev) (\<lambda>changed.
         act_bind (checkpoint_change env handle changed) (\<lambda>_.
         act_bind (act_update (publish_event sequence ev)) (\<lambda>_. act_return sequence)))))" for inv
    by (intro keeps_bind frame_with_journal frame_reduce P ch keeps_update keeps_simple)
      (auto simp: publish_event_def Let_def elim!: event_frameD [OF P])
  moreover have "P (before_event ev w)" by (rule event_frameD [OF P w]) simp_all
  ultimately show "P (snd (apply_event_core env handle ev w))"
    unfolding apply_event_core_def Let_def by (rule keeps_snd)
qed

lemma frame_invariant:
  assumes P: "event_frame P"
  shows "worker_invariant env P"
proof
  show "P w'" if "P w" "quiet_step w w'" for w w'
    by (rule event_frameD [OF P that(1)]) (simp_all add: exec_part_def quiet_step_frame [OF that(2)])
  show "P (fail_worker w)" if "P w" for w by (rule event_frameD [OF P that]) simp_all
  show "fails_safe P (with_journal env (\<lambda>io. append_snapshot (ev_codec env) io i v))" for i v
    by (intro frame_safe P frame_with_journal)
  show "(is_ok r \<longrightarrow> P w') \<and> P (fail_worker w')"
    if "P w" "with_journal env (\<lambda>io. append_state (ev_codec env) io (revision (worker_session w))
      (worker_session w)) w = (r, w')" for w r w'
    using fails_safeD [OF frame_safe [OF P frame_with_journal [OF P]] that] by simp
  show "fails_safe P (apply_event_core env handle ev)"
    if "\<And>closing. keeps P (checkpoint env handle closing)" for handle ev
    by (intro frame_safe P frame_core that)
qed

interpretation sticky: worker_invariant env wk_fatal for env
  by (rule frame_invariant) (simp add: event_frame_def)

interpretation outside: worker_invariant env "\<lambda>w. exec_part w = p" for env p
  by (rule frame_invariant) (simp add: event_frame_def)

lemma exec_part_event [simp]: "exec_part (snd (worker_apply_event env ev w)) = exec_part w"
  by (rule keeps_snd [OF outside.keep_event refl])

section \<open>Commands and input\<close>

text \<open>Steps that leave the journal, the session and what is to come alone.\<close>

definition same_session :: "Worker \<Rightarrow> Worker \<Rightarrow> bool" where
  "same_session w w' \<longleftrightarrow>
     wk_journal w' = wk_journal w \<and> wk_state w' = wk_state w \<and> wk_sent w' = wk_sent w \<and>
     wk_inbox w' = wk_inbox w \<and> wk_now w' = wk_now w \<and>
     (wk_interrupt_fallback_at w' = wk_interrupt_fallback_at w \<or> wk_interrupt_fallback_at w' = None) \<and>
     (wk_fatal w \<longrightarrow> wk_fatal w')"

text \<open>The kinds of record that replay only counts.\<close>

definition plain_kinds :: "string set" where
  "plain_kinds = {''mi.input'', ''gdb.stderr'', ''inferior.output'', ''inferior.input'',
     ''inferior.output.evidence''}"

locale session_invariant = worker_invariant +
  fixes admissible :: "bytes \<Rightarrow> MiRecord \<Rightarrow> bool"
  assumes same: "I w \<Longrightarrow> same_session w w' \<Longrightarrow> I w'"
    and failed: "I w \<Longrightarrow> wk_fatal w \<Longrightarrow> I (mark_failed w)"
    and plain_append: "kind \<in> plain_kinds \<Longrightarrow>
      fails_safe I (with_journal env (\<lambda>io. append_entry (ev_codec env) io kind v))"
    and api_append: "fails_safe I (with_journal env (\<lambda>io. append_api (ev_codec env) io v))"
    and flushing: "fails_safe I (with_journal env journal_flush)"
    and receiving: "admissible raw record \<Longrightarrow> keeps I (receive_record env raw record)"
begin

lemma keep_same: "(\<And>w. same_session w (snd (m w))) \<Longrightarrow> keeps I m"
  by (rule keeps_intro) (rule same)

lemma keep_plain:
  "kind \<in> plain_kinds \<Longrightarrow> keeps I (journaled env (\<lambda>io. append_entry (ev_codec env) io kind v))"
  unfolding journaled_def by (intro keep_journaled keep_event plain_append)

lemma keep_backend_call: "keeps I (backend_call env)"
  by (rule keep_same) (simp add: backend_call_def same_session_def)

lemma keep_send_line: "keeps I (send_line env raw)"
  unfolding send_line_def
  by (intro keeps_bind keep_backend_call keep_same) (simp add: act_update_def same_session_def)

lemma keep_begin: "keeps I (begin_command env c)"
proof -
  have "keeps I (journaled env (\<lambda>io. append_mi_input (ev_codec env) io tok raw))" for tok raw
    unfolding append_mi_input_def by (rule keep_plain) (simp add: plain_kinds_def)
  moreover have "keeps I (require_known_outcome env c)" "keeps I take_token"
    by (rule keep_same; simp add: require_known_outcome_def require_known_outcome_name_def take_token_def
        same_session_def)+
  ultimately show ?thesis
    unfolding begin_command_def by (intro keeps_bind keeps_simple keep_send_line)
qed

lemma keep_stderr: "keeps I (receive_stderr env bs)"
proof -
  have "keeps I (journaled env (\<lambda>io. append_gdb_stderr (ev_codec env) io bs))"
    unfolding append_gdb_stderr_def append_base64_def by (rule keep_plain) (simp add: plain_kinds_def)
  moreover have "keeps I (act_update (\<lambda>w. w\<lparr>wk_log_output := ring_add bs (wk_log_output w)\<rparr>))"
    by (rule keep_same) (simp add: act_update_def same_session_def)
  ultimately show ?thesis unfolding receive_stderr_def by (intro keeps_bind)
qed

lemma keep_pty: "keeps I (receive_pty env)"
proof (rule keeps_intro)
  fix w assume w: "I w"
  have app: "keeps I (journaled env (\<lambda>io. append_inferior_output (ev_codec env) io offset len dropped))"
    for offset len dropped
    unfolding append_inferior_output_def by (rule keep_plain) (simp add: plain_kinds_def)
  have "keeps I (act_bind (journaled env (\<lambda>io. append_inferior_output (ev_codec env) io offset len dropped)) (\<lambda>_.
        act_bind (act_update (\<lambda>w. upd_metrics (inferior_output_dropped (dropped - wk_output_dropped w))
          (w\<lparr>wk_output_offset := off, wk_output_dropped := dropped\<rparr>))) (\<lambda>_. handle_event env ev)))"
    for offset len dropped off ev
    by (intro keeps_bind app keep_event keep_same) (simp add: act_update_def same_session_def)
  from keeps_snd [OF this w] w show "I (snd (receive_pty env w))"
    unfolding receive_pty_def Let_def by simp
qed

lemma keep_after_fatal:
  assumes f: "\<And>w. same_session w (f w) \<and> wk_fatal (f w)" and m: "keeps (\<lambda>w. I w \<and> wk_fatal w) m"
  shows "keeps I (act_bind (act_update f) (\<lambda>_. m))"
proof (rule keeps_intro)
  fix w assume w: "I w"
  have "I (f w)" by (rule same [OF w]) (use f in simp)
  with f have "I (f w) \<and> wk_fatal (f w)" by simp
  from keeps_snd [OF m this] show "I (snd (act_bind (act_update f) (\<lambda>_. m) w))"
    by (simp add: act_bind_def act_update_def)
qed

lemmas keep_fatal = keeps_conj [OF keep_event sticky.keep_event]

lemma keep_eof: "keeps I (receive_eof env)"
proof -
  have "keeps I (exit_status env)" by (rule keep_same) (simp add: exit_status_def same_session_def)
  then show ?thesis
    unfolding receive_eof_def
    by (intro keeps_bind [of I "exit_status env"] keep_after_fatal keeps_then keeps_bind [of "\<lambda>w. I w \<and> wk_fatal w"]
        keep_fatal keeps_update keeps_simple) (simp_all add: same_session_def failed)
qed

lemma keep_lost: "keeps I (lose_protocol env e)"
  unfolding lose_protocol_def
  by (intro keep_after_fatal keeps_then keeps_bind keep_fatal keeps_update keeps_simple)
    (simp_all add: same_session_def failed)

lemma keep_input:
  assumes "\<And>raw record. input = Mi raw record \<Longrightarrow> admissible raw record"
  shows "keeps I (process_input env input)"
proof (cases input)
  case (Mi raw rd)
  with assms receiving have "keeps I (receive_record env raw rd)" by simp
  moreover have "process_input env (Mi raw rd) = receive_record env raw rd" by (simp add: fun_eq_iff)
  ultimately show ?thesis using Mi by simp
next
  case (ProtocolError e)
  then have "process_input env input = lose_protocol env e" by (simp add: fun_eq_iff)
  then show ?thesis using keep_lost by simp
next
  case (GdbStderr bs)
  then have "process_input env input = act_bind (receive_stderr env bs) (\<lambda>_. act_return None)"
    by (simp add: fun_eq_iff)
  then show ?thesis by (simp add: keeps_bind keeps_simple keep_stderr)
next
  case InferiorPty
  then have "process_input env input = act_bind (receive_pty env) (\<lambda>_. act_return None)"
    by (simp add: fun_eq_iff)
  then show ?thesis by (simp add: keeps_bind keeps_simple keep_pty)
next
  case GdbEof
  then have "process_input env input = receive_eof env" by (simp add: fun_eq_iff)
  then show ?thesis using keep_eof by simp
qed

lemma keep_unmatched: "keeps I (handle_unmatched_result env rd)"
  unfolding handle_unmatched_result_def
  by (cases rd) (simp_all add: keeps_simple keep_event)

lemma keep_resolve: "keeps I (resolve_delayed env record)"
proof (rule keeps_intro)
  fix w assume w: "I w"
  obtain x t where t: "take_delayed_token record w = (x, t)" by (cases "take_delayed_token record w")
  have "same_session w t"
    using t by (auto simp: take_delayed_token_def same_session_def split: option.splits if_splits)
  then have "I t" by (rule same [OF w])
  moreover have "keeps I (act_bind (handle_event env ev) (\<lambda>_. act_return y))" for ev and y :: "nat option"
    by (intro keeps_bind keep_event keeps_simple)
  ultimately have "I (snd (act_bind (handle_event env ev) (\<lambda>_. act_return y) t))" for ev and y :: "nat option"
    by (metis keeps_snd)
  with t \<open>I t\<close> show "I (snd (resolve_delayed env record w))"
    by (simp add: resolve_delayed_def split: option.split)
qed

lemma keep_outcome_unknown: "keeps I (outcome_unknown env tok)"
  unfolding outcome_unknown_def
  by (intro keeps_bind keep_event keep_same)
    (simp_all add: act_update_def same_session_def elapsed_command_def)

lemma keep_escalate: "keeps I (escalate_acknowledged_interrupt env)"
proof (rule keeps_intro)
  fix w assume w: "I w"
  have w1: "I (w\<lparr>wk_interrupt_fallback_at := None\<rparr>)" by (rule same [OF w]) (simp add: same_session_def)
  from keeps_snd [OF keep_backend_call w1] w w1
  show "I (snd (escalate_acknowledged_interrupt env w))"
    by (simp add: escalate_acknowledged_interrupt_def Let_def split: option.split)
qed

lemma keep_record_api: "keeps I (record_api env request)"
proof -
  let ?m = "\<lambda>io. act_bind (append_api (ev_codec env) io request) (\<lambda>_. act_return ())"
  have "with_journal env ?m =
      act_bind (with_journal env (\<lambda>io. append_api (ev_codec env) io request)) (\<lambda>_. act_return ())"
    by (auto simp: fun_eq_iff with_journal_def act_bind_def act_return_def split: prod.split sum.split)
  then have "fails_safe I (with_journal env ?m)"
    by (simp add: fails_safe_bind api_append safe_keeps keeps_simple)
  then show ?thesis unfolding record_api_def journaled_def by (intro keep_journaled keep_event)
qed

lemma keep_record_operation: "keeps I (record_operation env operation)"
proof -
  have "keeps I (operation_history env operation)"
  proof (rule keeps_intro)
    fix w assume w: "I w"
    have "I (w\<lparr>wk_dirty_operations := d\<rparr>)" for d by (rule same [OF w]) (simp add: same_session_def)
    with keep_stored [OF keep_event w] show "I (snd (operation_history env operation w))"
      by (simp add: operation_history_def)
  qed
  moreover have "same_session w (keep_operation operation w)" for w
    by (simp add: keep_operation_def evict_operation_def Let_def same_session_def split: option.split)
  ultimately show ?thesis
    unfolding record_operation_def by (intro keeps_bind keeps_update) (auto intro: same)
qed

lemma keep_finalize: "keeps I (finalize_output_evidence env)"
proof (rule keeps_intro)
  fix w assume w: "I w"
  have app: "keeps I (journaled env (\<lambda>io. append_inferior_output_evidence (ev_codec env) io v))" for v
    unfolding append_inferior_output_evidence_def by (rule keep_plain) (simp add: plain_kinds_def)
  have "keeps I (finish_evidence env)" by (rule keep_same) (simp add: finish_evidence_def same_session_def)
  moreover have "same_session w (finalized_metrics e w)" for e w
    by (simp add: finalized_metrics_def Let_def same_session_def)
  then have "keeps I (act_update (finalized_metrics e))" for e by (intro keeps_update) (auto intro: same)
  ultimately have "keeps I (act_bind (finish_evidence env) (\<lambda>e.
           act_bind (act_update (finalized_metrics e)) (\<lambda>_.
           act_bind (journaled env (\<lambda>io. append_inferior_output_evidence (ev_codec env) io (er_status e)))
             (\<lambda>_. act_return ()))))"
    by (intro keeps_bind app keeps_simple)
  from keeps_snd [OF this w] w show "I (snd (finalize_output_evidence env w))"
    unfolding finalize_output_evidence_def by simp
qed

lemma keep_close:
  assumes "keeps I (finish_journal env)"
  shows "keeps I (close env)"
proof -
  have "same_session w (close_metric w)" for w by (simp add: close_metric_def same_session_def)
  then have "keeps I (act_update close_metric)" by (intro keeps_update) (auto intro: same)
  then show ?thesis
    unfolding close_def close_tail_def
    by (intro keeps_then keeps_bind keep_event keep_backend_call keeps_simple keep_finalize keep_checkpoint assms)
qed

lemma keep_cancel_close:
  assumes "keeps I (finish_journal env)"
  shows "keeps I (cancel_close env operation_id)"
proof -
  have "keeps I (require_active_resume operation_id)"
    by (rule keep_same) (simp add: require_active_resume_def same_session_def)
  then show ?thesis unfolding cancel_close_def by (intro keeps_bind keep_close assms)
qed

end

section \<open>The loop\<close>

definition keeps_flow :: "(Worker \<Rightarrow> bool) \<Rightarrow> (Worker \<Rightarrow> flow \<times> Worker) \<Rightarrow> bool" where
  "keeps_flow P f \<longleftrightarrow> (\<forall>w. P w \<longrightarrow> P (snd (f w)))"

lemma keeps_flowI: "(\<And>w. P w \<Longrightarrow> P (snd (f w))) \<Longrightarrow> keeps_flow P f"
  by (simp add: keeps_flow_def)

lemma keeps_flowD: "keeps_flow P f \<Longrightarrow> P w \<Longrightarrow> P (snd (f w))"
  by (simp add: keeps_flow_def)

lemma keeps_flow_or_return:
  assumes "keeps P m" "\<And>x. keeps_flow P (f x)"
  shows "keeps_flow P (or_return m f)"
proof (rule keeps_flowI)
  fix w assume w: "P w"
  obtain r t where t: "m w = (r, t)" by (cases "m w")
  have "P t" by (rule keepsD [OF assms(1) w t])
  with t keeps_flowD [OF assms(2) this] show "P (snd (or_return m f w))"
    by (simp add: or_return_def split: sum.split)
qed

lemma keeps_flow_and_then:
  assumes "keeps_flow P m" "\<And>x. keeps_flow P (f x)"
  shows "keeps_flow P (\<lambda>w. and_then (m w) f)"
proof (rule keeps_flowI)
  fix w assume w: "P w"
  obtain r t where t: "m w = (r, t)" by (cases "m w")
  have "P t" using keeps_flowD [OF assms(1) w] t by simp
  with t keeps_flowD [OF assms(2) this] show "P (snd (and_then (m w) f))"
    by (simp add: and_then_def split: flow.split)
qed

locale exec_invariant = session_invariant +
  assumes closing: "I w \<Longrightarrow> close env w = (r, w') \<Longrightarrow> (is_ok r \<or> I w') \<and> I (w'\<lparr>wk_fatal := True\<rparr>)"
    and waiting: "I w \<Longrightarrow> I (w\<lparr>wk_interrupt_fallback_at := Some t\<rparr>)"
begin

lemma keep_reply: "I w \<Longrightarrow> I (reply channel r w)"
  by (erule same) (simp add: reply_def same_session_def)

lemma keep_response: "I w \<Longrightarrow> I (response_send response r w)"
  by (cases response) (simp_all add: keep_reply)

lemma flow_start: "keeps_flow I (start_interrupt env c deadline response x)"
proof (rule keeps_flowI)
  fix w assume w: "I w"
  obtain r t where t: "begin_command env c w = (r, t)" by (cases "begin_command env c w")
  have "I t" by (rule keepsD [OF keep_begin w t])
  with t keep_response [OF this] show "I (snd (start_interrupt env c deadline response x w))"
    by (simp add: start_interrupt_def split: sum.split)
qed

lemma flow_cancel: "keeps_flow I (exec_cancel env operation_id channel x)"
proof (rule keeps_flowI)
  fix w assume w: "I w"
  obtain r t where t: "owned_interrupt_command operation_id w = (r, t)"
    by (cases "owned_interrupt_command operation_id w")
  have "t = w" using t by (auto simp: owned_interrupt_command_def require_active_resume_def act_bind_def
      act_result_def split: if_splits)
  with t w keep_reply [OF w] keeps_flowD [OF flow_start w]
  show "I (snd (exec_cancel env operation_id channel x w))"
    by (simp add: exec_cancel_def split: sum.split)
qed

lemma flow_interrupt: "keeps_flow I (exec_interrupt env c deadline channel x)"
  by (rule keeps_flowI) (simp add: exec_interrupt_def keep_reply keeps_flowD [OF flow_start])

lemma flow_close:
  assumes w: "I w"
  shows "I (snd (exec_control env (Some (Close channel)) x w))"
    "I (snd (exec_control env (Some (CancelOperation operation_id CloseSession channel)) x w))"
proof -
  have set_fatal: "(reply channel r w)\<lparr>wk_fatal := True\<rparr> = reply channel r (w\<lparr>wk_fatal := True\<rparr>)" for r w
    by (simp add: reply_def)
  obtain r t where t: "close env w = (r, t)" by (cases "close env w")
  note cl = closing [OF w t]
  show "I (snd (exec_control env (Some (Close channel)) x w))"
    using t cl by (simp add: set_fatal keep_reply)
  have "cancel_close env operation_id w = (r, t) \<or> (\<exists>e. cancel_close env operation_id w = (Err e, w))"
    using t by (auto simp: cancel_close_def act_bind_def require_active_resume_def)
  with cl w show "I (snd (exec_control env (Some (CancelOperation operation_id CloseSession channel)) x w))"
    by (auto simp: set_fatal keep_reply Let_def)
qed

lemma flow_control: "keeps_flow I (exec_control env c x)"
proof (rule keeps_flowI)
  fix w assume w: "I w"
  show "I (snd (exec_control env c x w))"
  proof (cases c)
    case None
    with same [OF w] show ?thesis by (simp add: same_session_def)
  next
    case (Some q)
    show ?thesis
    proof (cases q)
      case (RecordOperation operation channel)
      have "I (snd (record_operation env operation w))" by (rule keeps_snd [OF keep_record_operation w])
      with Some RecordOperation show ?thesis by (auto simp: Let_def keep_reply split: prod.split)
    next
      case (RecordApi request channel)
      have "I (snd (record_api env request w))" by (rule keeps_snd [OF keep_record_api w])
      with Some RecordApi show ?thesis by (auto simp: Let_def keep_reply split: prod.split)
    next
      case (Interrupt command deadline channel)
      with Some keeps_flowD [OF flow_interrupt w] show ?thesis by simp
    next
      case (CancelOperation operation_id mode channel)
      with Some keeps_flowD [OF flow_cancel w] flow_close(2) [OF w] show ?thesis by (cases mode) simp_all
    next
      case (Close channel)
      with Some flow_close(1) [OF w] show ?thesis by simp
    qed
  qed
qed

lemma flow_deadline: "keeps_flow I (exec_deadline env tok deadline x)"
proof -
  have esc: "keeps_flow I (escalate_pending env x)" for x
  proof (rule keeps_flowI)
    fix w assume w: "I w"
    obtain r t where t: "backend_call env w = (r, t)" by (cases "backend_call env w")
    have "I t" by (rule keepsD [OF keep_backend_call w t])
    with w t keep_response [OF this] show "I (snd (escalate_pending env x w))"
      by (simp add: escalate_pending_def split: option.split sum.split)
  qed
  have pend: "keeps_flow I (expire_pending env x)" for x
  proof (rule keeps_flowI)
    fix w assume w: "I w"
    have "keeps_flow I (or_return (outcome_unknown env tok) (\<lambda>_ w1. (y, response_send p r w1)))" for tok y p r
      by (intro keeps_flow_or_return keep_outcome_unknown keeps_flowI) (simp add: keep_response)
    from keeps_flowD [OF this w] w show "I (snd (expire_pending env x w))"
      by (simp add: expire_pending_def split: option.split)
  qed
  have cmd: "keeps_flow I (expire_command env tok deadline x)" for x
  proof (rule keeps_flowI)
    fix w assume w: "I w"
    have "keeps_flow I (or_return (outcome_unknown env tok) (\<lambda>_ w1. (y, w1)))" for y
      by (intro keeps_flow_or_return keep_outcome_unknown keeps_flowI) simp
    from keeps_flowD [OF this w] w show "I (snd (expire_command env tok deadline x w))"
      by (simp add: expire_command_def)
  qed
  have "exec_deadline env tok deadline x = or_return (escalate_acknowledged_interrupt env) (\<lambda>_ w1.
       and_then (and_then (escalate_pending env x w1) (expire_pending env)) (expire_command env tok deadline))"
    by (simp add: fun_eq_iff exec_deadline_def)
  moreover have "keeps_flow I (or_return (escalate_acknowledged_interrupt env) (\<lambda>_ w1.
       and_then (and_then (escalate_pending env x w1) (expire_pending env)) (expire_command env tok deadline)))"
    by (intro keeps_flow_or_return keep_escalate keeps_flow_and_then esc pend cmd)
  ultimately show ?thesis by simp
qed

lemma flow_record: "keeps_flow I (exec_record env tok rd evidence_seq x)"
proof -
  have elapsed: "I (elapsed_command env b w)" if "I w" for b w
    by (rule same [OF that]) (simp add: elapsed_command_def same_session_def)
  have fin: "I (finish_interrupt r w)" if "I w" for r w
    using that waiting by (simp add: finish_interrupt_def)
  have pend: "keeps_flow I (answer_pending env c rd evidence_seq x)" for c
    by (rule keeps_flowI) (simp add: answer_pending_def Let_def keep_response fin elapsed)
  have cmd: "keeps_flow I (answer_command env tok rd evidence_seq x)"
    by (rule keeps_flowI) (simp add: answer_command_def elapsed)
  have other: "keeps_flow I (other_record env delayed rd x)" for delayed
    unfolding other_record_def
    by (intro keeps_flow_or_return keeps_if keep_unmatched keeps_simple keeps_flowI) simp
  have "keeps_flow I (case pending_matches x rd of
         Some c \<Rightarrow> answer_pending env c rd evidence_seq x
       | None \<Rightarrow>
           if result_token rd = Some tok then answer_command env tok rd evidence_seq x
           else other_record env delayed rd x)" for delayed
    using pend cmd other by (simp split: option.split)
  then show ?thesis
    unfolding exec_record_def by (intro keeps_flow_or_return keep_resolve)
qed

lemma flow_backend:
  assumes "\<And>raw record. input = Some (Mi raw record) \<Longrightarrow> admissible raw record"
  shows "keeps_flow I (exec_backend env tok input x)"
proof (cases input)
  case None
  then show ?thesis by (auto intro: keeps_flowI)
next
  case (Some i)
  let ?f = "\<lambda>out. case out of
         None \<Rightarrow> (\<lambda>w1. (Again x, w1))
       | Some (record, evidence_seq) \<Rightarrow> exec_record env tok record evidence_seq x"
  have "keeps_flow I (?f out)" for out
    using flow_record by (auto simp: keeps_flow_def split: option.split)
  then have "keeps_flow I (or_return (process_input env i) ?f)"
    using assms Some by (intro keeps_flow_or_return keep_input) simp_all
  then show ?thesis using Some by (simp add: keeps_flow_def)
qed

lemma flow_input:
  assumes "\<And>raw record. input = BackendReady (Some (Mi raw record)) \<Longrightarrow> admissible raw record"
  shows "keeps_flow I (exec_input env tok deadline input x)"
proof (cases input)
  case (ControlInput c)
  then show ?thesis using flow_control by (auto simp: exec_input_def keeps_flow_def)
next
  case (BackendReady b)
  then have "keeps_flow I (exec_backend env tok b x)" using assms by (intro flow_backend) simp
  then show ?thesis using BackendReady by (simp add: exec_input_def keeps_flow_def)
next
  case Deadline
  then show ?thesis using flow_deadline by (simp add: exec_input_def keeps_flow_def)
qed

end

end
