(* ===== verification/Worker_Execute.thy ===== *)
theory Worker_Execute
  imports Worker_Keep Replay
begin

text \<open>
  Executing a command (\<open>execute\<close>, \<open>execute_until\<close>, \<open>execute_operation_until\<close>): the loop over
  \<open>exec_step\<close> with the proof that it ends, the removal of a breakpoint that a failed insertion left
  behind, and the ownership of a resumed target.
\<close>

section \<open>What a step of the loop leaves alone\<close>

lemma frame_journaled:
  assumes P: "event_frame P"
  shows "keeps P (journaled env m)"
  unfolding journaled_def
  by (intro worker_invariant.keep_journaled [OF frame_invariant [OF P]]
      worker_invariant.keep_event [OF frame_invariant [OF P]] frame_safe P frame_with_journal)

lemma frame_receive:
  assumes P: "event_frame P" and same: "\<And>w w'. P w \<Longrightarrow> same_session w w' \<Longrightarrow> P w'"
  shows "keeps P (receive_record env raw rd)"
proof -
  have upd: "keeps P (act_update f)" if "\<And>w. same_session w (f w)" for f
    using that same by (intro keeps_update) blast
  have route: "same_session w ((count_event ev \<circ> route_output ev) w)" for ev w
  proof (cases ev)
    case (Output source bs)
    then show ?thesis by (cases source) (simp_all add: count_event_def Let_def same_session_def)
  qed (simp_all add: count_event_def Let_def same_session_def)
  have "keeps P (case normalize rd of
         None \<Rightarrow> act_return (Some (rd, n))
       | Some event \<Rightarrow>
           act_bind (act_update (count_event event \<circ> route_output event)) (\<lambda>_.
           act_bind (handle_event env event) (\<lambda>_.
           act_bind (act_update settle_interrupt) (\<lambda>_. act_return (Some (rd, n))))))" for n
  proof (cases "normalize rd")
    case (Some event)
    have "keeps P (act_bind (act_update (count_event event \<circ> route_output event)) (\<lambda>_.
           act_bind (handle_event env event) (\<lambda>_.
           act_bind (act_update settle_interrupt) (\<lambda>_. act_return (Some (rd, n))))))"
      by (intro keeps_bind keeps_simple worker_invariant.keep_event [OF frame_invariant [OF P]] upd route)
        (simp add: settle_interrupt_def same_session_def)
    with Some show ?thesis by simp
  qed (simp add: keeps_simple)
  then show ?thesis
    unfolding receive_record_def
    by (intro keeps_bind upd frame_journaled [OF P]) (simp_all add: same_session_def)
qed

lemma frame_session:
  assumes P: "event_frame P" and same: "\<And>w w'. P w \<Longrightarrow> same_session w w' \<Longrightarrow> P w'"
  shows "session_invariant env P (\<lambda>_ _. True)"
proof (intro session_invariant.intro frame_invariant P session_invariant_axioms.intro)
  show "P w'" if "P w" "same_session w w'" for w w' using same that by blast
  show "P (mark_failed w)" if "P w" for w by (rule event_frameD [OF P that]) simp_all
  show "keeps P (receive_record env raw rd)" for raw rd by (rule frame_receive [OF P same])
qed (intro frame_safe P frame_with_journal)+

text \<open>The inbox.\<close>

lemma inbox_frame: "event_frame (\<lambda>w. wk_inbox w = ib)"
  by (simp add: event_frame_def exec_part_def)

interpretation inbox: session_invariant env "\<lambda>w. wk_inbox w = ib" "\<lambda>_ _. True" for env ib
  by (intro frame_session inbox_frame) (simp add: same_session_def)

interpretation inbox: exec_invariant env "\<lambda>w. wk_inbox w = ib" "\<lambda>_ _. True" for env ib
proof
  show "(is_ok r \<or> wk_inbox w' = ib) \<and> wk_inbox (w'\<lparr>wk_fatal := True\<rparr>) = ib"
    if "wk_inbox w = ib" "close env w = (r, w')" for w r w'
  proof -
    have "keeps (\<lambda>w. wk_inbox w = ib) (close env)"
      by (rule inbox.keep_close) (simp add: finish_journal_def frame_journaled inbox_frame)
    from keepsD [OF this that] show ?thesis by simp
  qed
qed simp

lemma exec_input_inbox [simp]: "wk_inbox (snd (exec_input env tok deadline input x w)) = wk_inbox w"
  by (rule keeps_flowD [OF inbox.flow_input]) simp_all

section \<open>The loop\<close>

definition pending_potential :: "PendingControl option \<Rightarrow> nat" where
  "pending_potential p = (case p of None \<Rightarrow> 0 | Some c \<Rightarrow> if pc_escalated c then 1 else 2)"

text \<open>Each entry of the inbox may start an interrupt and arm its fallback; each expiry of the timer
  spends one of the four timers that are armed.\<close>

definition exec_potential :: "ExecState \<Rightarrow> Worker \<Rightarrow> nat" where
  "exec_potential x w =
     (if wk_interrupt_fallback_at w = None then 0 else 1) + pending_potential (es_pending x) +
     (if es_normal x = None then 1 else 0)"

definition exec_measure :: "ExecState \<Rightarrow> Worker \<Rightarrow> nat" where
  "exec_measure x w = 5 * length (wk_inbox w) + exec_potential x w"

lemma exec_potential_bound: "exec_potential x w \<le> 4"
  by (simp add: exec_potential_def pending_potential_def split: option.split)

definition timers :: "Worker \<Rightarrow> nat \<times> nat option" where
  "timers w = (wk_now w, wk_interrupt_fallback_at w)"

lemma timers_frame: "event_frame (\<lambda>w. timers w = p)"
  by (simp add: event_frame_def exec_part_def timers_def)

lemma timers_reply [simp]: "timers (reply channel r w) = timers w"
  "timers (response_send response r' w) = timers w"
  by (cases response; simp add: timers_def reply_def)+

lemma timers_event [simp]: "timers (snd (worker_apply_event env ev w)) = timers w"
  using exec_part_event [of env ev w] by (simp add: timers_def exec_part_def)

lemma timers_outcome [simp]: "timers (snd (outcome_unknown env tok w)) = timers w"
proof -
  have "keeps (\<lambda>v. timers v = timers w) (outcome_unknown env tok)"
    unfolding outcome_unknown_def
    by (intro keeps_bind keeps_update worker_invariant.keep_event [OF frame_invariant [OF timers_frame]])
      (simp_all add: timers_def elapsed_command_def)
  from keeps_snd [OF this refl] show ?thesis .
qed

text \<open>What a step did to the timers: the clock and the fallback stay, nothing is armed, and a step
  that was due spends its own timer.\<close>

definition spends :: "bool \<Rightarrow> ExecState \<Rightarrow> Worker \<Rightarrow> flow \<times> Worker \<Rightarrow> bool" where
  "spends due x w fw \<longleftrightarrow>
     (case fw of
        (Return _, _) \<Rightarrow> True
      | (Again x', w') \<Rightarrow>
          timers w' = timers w \<and>
          (x' = x \<or> exec_potential x' w < exec_potential x w) \<and>
          (due \<longrightarrow> exec_potential x' w < exec_potential x w))"

lemma exec_potential_timers: "timers w' = timers w \<Longrightarrow> exec_potential x w' = exec_potential x w"
  by (simp add: exec_potential_def timers_def)

lemma spends_or_return:
  assumes "\<And>v. timers v = timers w \<Longrightarrow> spends due x w (f v)" "timers (snd (m w)) = timers w"
  shows "spends due x w (or_return m (\<lambda>_. f) w)"
proof -
  obtain r t where t: "m w = (r, t)" by (cases "m w")
  with assms(2) have "timers t = timers w" by simp
  from assms(1) [OF this] t show ?thesis
    by (cases r) (simp_all add: or_return_def spends_def)
qed

definition escalate_due :: "ExecState \<Rightarrow> Worker \<Rightarrow> bool" where
  "escalate_due x w = (case es_pending x of
       Some c \<Rightarrow> \<not> pc_escalated c \<and> pc_escalate_at c \<le> wk_now w | None \<Rightarrow> False)"

lemma escalate_pending_spends: "spends (escalate_due x w) x w (escalate_pending env x w)"
proof (cases "escalate_due x w")
  case True
  then obtain c where c: "es_pending x = Some c" "\<not> pc_escalated c" "pc_escalate_at c \<le> wk_now w"
    by (auto simp: escalate_due_def split: option.splits)
  then have e: "escalate_pending env x w = (case backend_call env w of
      (Err e, w1) \<Rightarrow> (Again (x\<lparr>es_pending := None\<rparr>), response_send (pc_response c) (Err e) w1)
    | (Ok _, w1) \<Rightarrow> (Again (x\<lparr>es_pending := Some (c\<lparr>pc_escalated := True\<rparr>)\<rparr>), w1))"
    by (simp add: escalate_pending_def)
  obtain r t where t: "backend_call env w = (r, t)" by (cases "backend_call env w")
  have "timers t = timers w" using t by (auto simp: backend_call_def timers_def)
  then show ?thesis
    by (cases r) (simp_all add: e t spends_def exec_potential_def pending_potential_def c(1,2))
next
  case False
  then have "escalate_pending env x w = (Again x, w)"
    by (auto simp: escalate_due_def escalate_pending_def split: option.splits)
  with False show ?thesis by (simp add: spends_def)
qed

definition pending_due :: "ExecState \<Rightarrow> Worker \<Rightarrow> bool" where
  "pending_due x w = (case es_pending x of Some c \<Rightarrow> pc_deadline c \<le> wk_now w | None \<Rightarrow> False)"

lemma due_now:
  "wk_now v = wk_now w \<Longrightarrow> pending_due x v = pending_due x w"
  "wk_now v = wk_now w \<Longrightarrow> escalate_due x v = escalate_due x w"
  by (simp_all add: pending_due_def escalate_due_def cong: option.case_cong)

lemma expire_pending_spends: "spends (pending_due x w) x w (expire_pending env x w)"
proof (cases "pending_due x w")
  case True
  then obtain c where c: "es_pending x = Some c" "pc_deadline c \<le> wk_now w"
    by (auto simp: pending_due_def split: option.splits)
  then have e: "expire_pending env x w = or_return (outcome_unknown env (pc_token c)) (\<lambda>_ w1.
      (Again (x\<lparr>es_pending := None\<rparr>),
       response_send (pc_response c) (Err (command_timeout (pc_token c))) w1)) w"
    by (simp add: expire_pending_def)
  show ?thesis unfolding e
    by (rule spends_or_return)
      (auto simp: spends_def exec_potential_def pending_potential_def c)
next
  case False
  then have "expire_pending env x w = (Again x, w)"
    by (auto simp: pending_due_def expire_pending_def split: option.splits)
  with False show ?thesis by (simp add: spends_def)
qed

lemma expire_command_spends:
  "spends (es_normal x = None \<and> deadline \<le> wk_now w) x w (expire_command env tok deadline x w)"
proof (cases "es_normal x = None \<and> deadline \<le> wk_now w")
  case True
  then have e: "expire_command env tok deadline x w = or_return (outcome_unknown env tok) (\<lambda>_ w1.
      (Again (x\<lparr>es_normal := Some (Err (command_timeout tok))\<rparr>), w1)) w"
    by (simp add: expire_command_def)
  show ?thesis unfolding e
    by (rule spends_or_return) (auto simp: spends_def exec_potential_def True)
next
  case False
  then have "expire_command env tok deadline x w = (Again x, w)" by (auto simp: expire_command_def)
  with False show ?thesis by (auto simp: spends_def)
qed

text \<open>Steps one after the other: a step that was due when the first began is still due, unless the
  first has spent a timer itself.\<close>

lemma spends_and_then:
  assumes m: "spends d1 x w m" and f: "\<And>x v. spends (d2 x v) x v (f x v)"
    and d2: "\<And>v. timers v = timers w \<Longrightarrow> d2 x v = d2 x w"
  shows "spends (d1 \<or> d2 x w) x w (and_then m f)"
proof (cases "fst m")
  case (Return r)
  then show ?thesis by (cases m) (simp add: and_then_def spends_def)
next
  case (Again x1)
  then obtain w1 where m1: "m = (Again x1, w1)" by (cases m) simp
  with m have w1: "timers w1 = timers w"
      "x1 = x \<or> exec_potential x1 w < exec_potential x w" "d1 \<longrightarrow> exec_potential x1 w < exec_potential x w"
    by (auto simp: spends_def)
  have f1: "spends (d2 x1 w1) x1 w1 (f x1 w1)" by (rule f)
  have a: "and_then m f = f x1 w1" using m1 by (simp add: and_then_def)
  show ?thesis
  proof (cases "f x1 w1")
    case (Pair fl w2)
    show ?thesis
    proof (cases fl)
      case (Return r)
      then show ?thesis using Pair a by (simp add: spends_def)
    next
      case (Again x2)
      with f1 Pair have w2: "timers w2 = timers w1"
          "x2 = x1 \<or> exec_potential x2 w < exec_potential x1 w"
          "d2 x1 w1 \<longrightarrow> exec_potential x2 w < exec_potential x1 w"
        using exec_potential_timers [OF w1(1)] by (simp_all add: spends_def)
      have "d2 x w \<longrightarrow> exec_potential x2 w < exec_potential x w"
        using w1(2) w2(2,3) d2 [OF w1(1)] by (metis less_trans)
      moreover have "x2 = x \<or> exec_potential x2 w < exec_potential x w"
        using w1(2) w2(2) by (metis less_trans)
      moreover have "d1 \<longrightarrow> exec_potential x2 w < exec_potential x w"
        using w1(3) w2(2) by (metis less_trans)
      ultimately show ?thesis using Again Pair a w1(1) w2(1) by (simp add: spends_def)
    qed
  qed
qed

definition returns_now :: "ExecState \<Rightarrow> bool" where
  "returns_now x \<longleftrightarrow> es_pending x = None \<and> es_normal x \<noteq> None"

lemma escalate_acknowledged_timers:
  assumes "escalate_acknowledged_interrupt env w = (r, w1)"
  shows "wk_now w1 = wk_now w"
    "wk_interrupt_fallback_at w1 =
       (case wk_interrupt_fallback_at w of
          Some t \<Rightarrow> if t \<le> wk_now w then None else Some t | None \<Rightarrow> None)"
  using assms
  by (auto simp: escalate_acknowledged_interrupt_def Let_def backend_call_def split: option.splits if_splits)

lemma deadline_spends:
  "spends (escalate_due x w \<or> pending_due x w \<or> es_normal x = None \<and> deadline \<le> wk_now w) x w
     (and_then (and_then (escalate_pending env x w) (expire_pending env)) (expire_command env tok deadline))"
proof -
  have "spends (escalate_due x w \<or> pending_due x w) x w (and_then (escalate_pending env x w) (expire_pending env))"
    by (rule spends_and_then [OF escalate_pending_spends expire_pending_spends due_now(1)])
      (simp add: timers_def)
  then have "spends ((escalate_due x w \<or> pending_due x w) \<or> es_normal x = None \<and> deadline \<le> wk_now w) x w
     (and_then (and_then (escalate_pending env x w) (expire_pending env)) (expire_command env tok deadline))"
    by (rule spends_and_then [where ?d2.0 = "\<lambda>x v. es_normal x = None \<and> deadline \<le> wk_now v"])
      (simp_all add: expire_command_spends timers_def)
  then show ?thesis by simp
qed

text \<open>A timer that is due when the loop wakes up.\<close>

lemma wake_due:
  assumes "\<not> returns_now x" "exec_wake deadline x w \<le> wk_now w"
  shows "(\<exists>t. wk_interrupt_fallback_at w = Some t \<and> t \<le> wk_now w) \<or>
    escalate_due x w \<or> pending_due x w \<or> es_normal x = None \<and> deadline \<le> wk_now w"
  using assms
  by (auto simp: returns_now_def exec_wake_def Let_def escalate_due_def pending_due_def min_le_iff_disj
      split: option.splits if_splits)

lemma exec_deadline_decreases:
  assumes "\<not> returns_now x" "exec_wake deadline x w \<le> wk_now w"
    and step: "exec_deadline env tok deadline x w = (Again x', w')"
  shows "exec_potential x' w' < exec_potential x w"
proof -
  obtain r w1 where w1: "escalate_acknowledged_interrupt env w = (r, w1)"
    by (cases "escalate_acknowledged_interrupt env w")
  note t = escalate_acknowledged_timers [OF w1]
  let ?due = "escalate_due x w \<or> pending_due x w \<or> es_normal x = None \<and> deadline \<le> wk_now w"
  have same_due: "(escalate_due x w1 \<or> pending_due x w1 \<or> es_normal x = None \<and> deadline \<le> wk_now w1) = ?due"
    by (simp add: due_now [OF t(1)] t(1))
  have "and_then (and_then (escalate_pending env x w1) (expire_pending env)) (expire_command env tok deadline)
      = (Again x', w')"
    using step w1 by (cases r) (simp_all add: exec_deadline_def or_return_def)
  with deadline_spends [of x w1 deadline env tok] same_due
  have s: "timers w' = timers w1" "x' = x \<or> exec_potential x' w1 < exec_potential x w1"
      "?due \<longrightarrow> exec_potential x' w1 < exec_potential x w1"
    by (simp_all add: spends_def)
  have le: "exec_potential x w1 \<le> exec_potential x w"
    by (simp add: exec_potential_def t(2) split: option.split)
  have p: "exec_potential x' w' = exec_potential x' w1" by (rule exec_potential_timers [OF s(1)])
  from wake_due [OF assms(1,2)] show ?thesis
  proof
    assume "\<exists>t. wk_interrupt_fallback_at w = Some t \<and> t \<le> wk_now w"
    then have "exec_potential x w1 < exec_potential x w" by (auto simp: exec_potential_def t(2))
    with s(2) p show ?thesis by auto
  next
    assume ?due
    with s(3) p le show ?thesis by simp
  qed
qed

lemma exec_step_decreases:
  assumes "\<not> returns_now x" and step: "exec_step env tok deadline x w = (Again x', w')"
  shows "exec_measure x' w' < exec_measure x w"
proof -
  let ?wake = "exec_wake deadline x w"
  obtain input w1 where sel: "select_input ?wake w = (input, w1)" by (cases "select_input ?wake w")
  with step have e: "exec_input env tok deadline input x w1 = (Again x', w')" by (simp add: exec_step_def)
  then have inbox: "wk_inbox w' = wk_inbox w1" using exec_input_inbox [of env tok deadline input x w1] by simp
  from sel consider "Suc (length (wk_inbox w1)) = length (wk_inbox w)"
    | "input = Deadline" "w1 = w\<lparr>wk_now := max (wk_now w) ?wake\<rparr>"
    by (auto simp: select_input_def Let_def split: list.splits ExecutionInput.splits if_splits)
  then show ?thesis
  proof cases
    case 1
    with inbox exec_potential_bound [of x' w'] show ?thesis by (simp add: exec_measure_def)
  next
    case 2
    have wake: "exec_wake deadline x w1 = ?wake" using 2(2) by (simp add: exec_wake_def)
    have "exec_potential x' w' < exec_potential x w1"
      using e 2 wake by (intro exec_deadline_decreases [OF assms(1)]) (simp_all add: exec_input_def)
    moreover have "exec_potential x w1 = exec_potential x w" using 2 by (simp add: exec_potential_def)
    ultimately show ?thesis using inbox 2 by (simp add: exec_measure_def)
  qed
qed

function exec_loop :: "WorkerEnv \<Rightarrow> nat \<Rightarrow> nat \<Rightarrow> ExecState \<Rightarrow> Worker \<Rightarrow> CommandReply result \<times> Worker" where
  "exec_loop env tok deadline x w =
     (if returns_now x then (the (es_normal x), w)
      else (case exec_step env tok deadline x w of
              (Again x', w') \<Rightarrow> exec_loop env tok deadline x' w'
            | (Return r, w') \<Rightarrow> (r, w')))"
  by pat_completeness auto

termination
  by (relation "measure (\<lambda>(env, tok, deadline, x, w). exec_measure x w)") (auto intro: exec_step_decreases)

declare exec_loop.simps [simp del]

section \<open>Executing a command\<close>

definition execute_until_inner :: "WorkerEnv \<Rightarrow> MiCommand \<Rightarrow> nat \<Rightarrow> CommandReply worker_act" where
  "execute_until_inner env c deadline w =
     (if deadline \<le> wk_now w
      then (Err (retryable (new_error Timeout ''MI command deadline expired while queued'')),
            upd_metrics (metrics_command 0 True) w)
      else act_bind (begin_command env c) (\<lambda>tok. exec_loop env tok deadline exec_init) w)"

text \<open>\<open>str::lines\<close> and \<open>strip_suffix\<close>.\<close>

definition str_lines :: "string \<Rightarrow> string list" where
  "str_lines s = map line_text (split_file [] s)"

definition strip_suffix_char :: "char \<Rightarrow> string \<Rightarrow> string option" where
  "strip_suffix_char c s = (if s \<noteq> [] \<and> last s = c then Some (butlast s) else None)"

definition inserted_number :: "string \<Rightarrow> string option" where
  "inserted_number message =
     find_map (\<lambda>l.
       Option.bind (strip_prefix ''Cannot insert breakpoint '' l) (\<lambda>r.
       Option.bind (strip_suffix_char (CHR ''.'') r) (\<lambda>ds.
       Option.bind (from_str_radix 64 10 ds) (\<lambda>n. if n > 0 then Some (show_nat n) else None))))
     (str_lines message)"

definition numbers_before :: "MiCommand \<Rightarrow> Worker \<Rightarrow> string list option" where
  "numbers_before c w =
     (if cmd_name c = ''-break-insert'' \<and> consistency (worker_session w) = Consistency.Clean \<and>
         \<not> reconciliation_required (worker_session w)
      then Some (bt_keys (breakpoints (worker_session w))) else None)"

text \<open>The breakpoint a failed insertion reported and left behind.\<close>

definition leftover_breakpoint :: "CommandReply result \<Rightarrow> string list option \<Rightarrow> Worker \<Rightarrow> string option" where
  "leftover_breakpoint r before w =
     (case (r, before) of
        (Err e, Some numbers) \<Rightarrow>
          if err_code e = GdbError
          then (case inserted_number (err_message e) of
                  Some number \<Rightarrow> if number \<notin> set numbers \<and> \<not> wk_fatal w then Some number else None
                | None \<Rightarrow> None)
          else None
      | _ \<Rightarrow> None)"

definition leftover_removed :: "string \<Rightarrow> CommandReply result \<Rightarrow> bool" where
  "leftover_removed number r = (case r of
       Ok _ \<Rightarrow> True
     | Err e \<Rightarrow> err_code e = GdbError \<and> err_message e = ''No breakpoint number '' @ number @ ''.'')"

definition settle_leftover :: "WorkerEnv \<Rightarrow> string \<Rightarrow> CommandReply result \<Rightarrow> unit worker_act" where
  "settle_leftover env number r w =
     (if leftover_removed number r
      then if bt_get (breakpoints (worker_session w)) number \<noteq> None
           then handle_event env (BreakpointDeleted number) w else (Ok (), w)
      else (case r of
          Err e \<Rightarrow>
            let w1 = w\<lparr>wk_module_rebind_needed := False\<rparr>
            in if wk_fatal w1 then (Ok (), w1)
               else handle_event env (DomainEvent.ConsistencyDirty
                      (''failed breakpoint insertion cleanup: '' @ error_string e)) w1
        | Ok _ \<Rightarrow> (Ok (), w)))"

definition bare_command :: "string \<Rightarrow> string list \<Rightarrow> MiCommand result" where
  "bare_command name args = fold (\<lambda>a r. bind_res r (\<lambda>c. command_bare c a)) args (command_new name)"

definition remove_leftover :: "WorkerEnv \<Rightarrow> nat \<Rightarrow> string \<Rightarrow> unit worker_act" where
  "remove_leftover env deadline number =
     act_then (require_known_outcome_name env ''-break-delete'') (\<lambda>known.
       case known of
         Err e \<Rightarrow> settle_leftover env number (Err e)
       | Ok _ \<Rightarrow>
           act_bind (act_result (bare_command ''-break-delete'' [number])) (\<lambda>c.
           act_then (execute_until_inner env c deadline) (settle_leftover env number)))"

definition execute_until :: "WorkerEnv \<Rightarrow> MiCommand \<Rightarrow> nat \<Rightarrow> CommandReply worker_act" where
  "execute_until env c deadline w =
     (case execute_until_inner env c deadline w of (r, w1) \<Rightarrow>
        (case leftover_breakpoint r (numbers_before c w) w1 of
           None \<Rightarrow> (r, w1)
         | Some number \<Rightarrow>
             act_bind (remove_leftover env deadline number) (\<lambda>_. act_result r) w1))"

definition execute :: "WorkerEnv \<Rightarrow> MiCommand \<Rightarrow> nat \<Rightarrow> CommandReply worker_act" where
  "execute env c timeout w = execute_until env c (command_deadline (wk_now w) timeout) w"

section \<open>Operations\<close>

definition require_active :: "WorkerEnv \<Rightarrow> OperationId option \<Rightarrow> unit worker_act" where
  "require_active env operation w =
     (case operation of
        None \<Rightarrow> (Ok (), w)
      | Some i \<Rightarrow>
          (if ev_cancelled env (wk_calls w) i
           then Err (new_error ErrorCode.Cancelled ''operation was cancelled'') else Ok (),
           w\<lparr>wk_calls := wk_calls w + 1\<rparr>))"

definition execute_owned ::
  "WorkerEnv \<Rightarrow> MiCommand \<Rightarrow> OperationId option \<Rightarrow> nat \<Rightarrow> CommandReply worker_act" where
  "execute_owned env c operation deadline w =
     (let resumes = command_resumes_target c;
          w1 = (if resumes then w\<lparr>wk_active_resume_operation := operation\<rparr> else w)
      in case execute_until env c deadline w1 of (r, w2) \<Rightarrow>
           (r, if resumes \<and> resume_failed_definitively r (wk_timed_out_tokens w2 \<noteq> {}) \<and>
                  wk_active_resume_operation w2 = operation
               then w2\<lparr>wk_active_resume_operation := None\<rparr> else w2))"

definition execute_operation_until ::
  "WorkerEnv \<Rightarrow> MiCommand \<Rightarrow> OperationId option \<Rightarrow> nat \<Rightarrow> CommandReply worker_act" where
  "execute_operation_until env c operation deadline =
     act_bind (require_active env operation) (\<lambda>_.
     act_bind (if command_starts_fresh_inferior c then backend_call env else act_return ()) (\<lambda>_.
       execute_owned env c operation deadline))"

section \<open>Invariants of whole commands\<close>

locale loop_invariant = exec_invariant +
  assumes ticking: "I w \<Longrightarrow> I (w\<lparr>wk_now := t\<rparr>)"
    and taking: "I w \<Longrightarrow> wk_inbox w = entry # rest \<Longrightarrow> I (w\<lparr>wk_inbox := rest\<rparr>)"
    and arriving: "I w \<Longrightarrow> (t, BackendReady (Some (Mi raw rd))) \<in> set (wk_inbox w) \<Longrightarrow> admissible raw rd"
begin

lemma select_keeps:
  assumes w: "I w" and sel: "select_input wake w = (input, w1)"
  shows "I w1" "input = BackendReady (Some (Mi raw rd)) \<Longrightarrow> admissible raw rd"
proof -
  consider "w1 = w\<lparr>wk_now := wk_now w1\<rparr>" "input = Deadline"
    | t rest where "wk_inbox w = (t, input) # rest" "w1 = w\<lparr>wk_inbox := rest, wk_now := wk_now w1\<rparr>"
    using sel by (auto simp: select_input_def Let_def split: list.splits ExecutionInput.splits if_splits)
  then have "I w1 \<and> (input = BackendReady (Some (Mi raw rd)) \<longrightarrow> admissible raw rd)"
  proof cases
    case 1
    then show ?thesis using ticking [OF w] by (metis ExecutionInput.distinct(5))
  next
    case (2 t rest)
    have "I (w\<lparr>wk_inbox := rest, wk_now := wk_now w1\<rparr>)" by (rule ticking [OF taking [OF w 2(1)]])
    moreover have "input = BackendReady (Some (Mi raw rd)) \<longrightarrow> admissible raw rd"
      using arriving [OF w, of t raw rd] 2(1) by simp
    ultimately show ?thesis using 2(2) by simp
  qed
  then show "I w1" "input = BackendReady (Some (Mi raw rd)) \<Longrightarrow> admissible raw rd" by simp_all
qed

lemma flow_step: "keeps_flow I (exec_step env tok deadline x)"
proof (rule keeps_flowI)
  fix w assume w: "I w"
  obtain input w1 where sel: "select_input (exec_wake deadline x w) w = (input, w1)"
    by (cases "select_input (exec_wake deadline x w) w")
  have "keeps_flow I (exec_input env tok deadline input x)"
    by (rule flow_input) (rule select_keeps(2) [OF w sel])
  from keeps_flowD [OF this select_keeps(1) [OF w sel]] sel
  show "I (snd (exec_step env tok deadline x w))" by (simp add: exec_step_def)
qed

lemma keep_loop: "I w \<Longrightarrow> I (snd (exec_loop env tok deadline x w))"
proof (induction "exec_measure x w" arbitrary: x w rule: less_induct)
  case less
  show ?case
  proof (cases "returns_now x")
    case True
    then show ?thesis using less.prems by (simp add: exec_loop.simps [of env tok deadline x w])
  next
    case False
    obtain fl w' where step: "exec_step env tok deadline x w = (fl, w')"
      by (cases "exec_step env tok deadline x w")
    have w': "I w'" using keeps_flowD [OF flow_step less.prems] step by (metis snd_conv)
    show ?thesis
    proof (cases fl)
      case (Again x')
      have "exec_measure x' w' < exec_measure x w"
        by (rule exec_step_decreases [OF False]) (use step Again in simp)
      from less.hyps [OF this w'] False step Again show ?thesis
        by (simp add: exec_loop.simps [of env tok deadline x w])
    next
      case (Return r)
      with False step w' show ?thesis by (simp add: exec_loop.simps [of env tok deadline x w])
    qed
  qed
qed

lemma keep_inner: "keeps I (execute_until_inner env c deadline)"
proof (rule keeps_intro)
  fix w assume w: "I w"
  have "keeps I (exec_loop env tok deadline exec_init)" for tok by (intro keeps_intro keep_loop)
  then have "keeps I (act_bind (begin_command env c) (\<lambda>tok. exec_loop env tok deadline exec_init))"
    by (intro keeps_bind keep_begin)
  moreover have "I (upd_metrics f w)" for f by (rule same [OF w]) (simp add: same_session_def)
  ultimately show "I (snd (execute_until_inner env c deadline w))"
    using w by (simp add: execute_until_inner_def keeps_snd)
qed

lemma keep_settle: "keeps I (settle_leftover env number r)"
proof (rule keeps_intro)
  fix w assume w: "I w"
  have "I (w\<lparr>wk_module_rebind_needed := False\<rparr>)" by (rule same [OF w]) (simp add: same_session_def)
  with w keeps_snd [OF keep_event this] keeps_snd [OF keep_event w]
  show "I (snd (settle_leftover env number r w))"
    by (simp add: settle_leftover_def Let_def split: sum.split)
qed

lemma keep_known: "keeps I (require_known_outcome_name env name)"
  by (rule keep_same) (simp add: require_known_outcome_name_def same_session_def)

lemma keep_execute_until: "keeps I (execute_until env c deadline)"
proof (rule keeps_intro)
  fix w assume w: "I w"
  obtain r w1 where inner: "execute_until_inner env c deadline w = (r, w1)"
    by (cases "execute_until_inner env c deadline w")
  have w1: "I w1" by (rule keepsD [OF keep_inner w inner])
  have "keeps I (remove_leftover env deadline number)" for number
    unfolding remove_leftover_def
    by (intro keeps_then keeps_case_res keeps_bind keep_settle keep_known keep_inner keeps_simple)
  then have "keeps I (act_bind (remove_leftover env deadline number) (\<lambda>_. act_result r))" for number
    by (intro keeps_bind keeps_simple)
  from keeps_snd [OF this w1] w1 inner show "I (snd (execute_until env c deadline w))"
    by (simp add: execute_until_def split: option.split)
qed

lemma keep_execute: "keeps I (execute env c timeout)"
  by (rule keeps_intro) (simp add: execute_def keeps_snd [OF keep_execute_until])

lemma keep_active: "keeps I (require_active env operation)"
  by (rule keep_same) (simp add: require_active_def same_session_def split: option.split)

lemma keep_owned: "keeps I (execute_owned env c operation deadline)"
proof (rule keeps_intro)
  fix w assume w: "I w"
  let ?w1 = "if command_resumes_target c then w\<lparr>wk_active_resume_operation := operation\<rparr> else w"
  have "I ?w1" using same [OF w, of ?w1] by (simp add: same_session_def)
  obtain r w2 where w2: "execute_until env c deadline ?w1 = (r, w2)"
    by (cases "execute_until env c deadline ?w1")
  have "I w2" by (rule keepsD [OF keep_execute_until \<open>I ?w1\<close> w2])
  then have "I (w2\<lparr>wk_active_resume_operation := None\<rparr>)" by (rule same) (simp add: same_session_def)
  with \<open>I w2\<close> w2 show "I (snd (execute_owned env c operation deadline w))"
    by (simp add: execute_owned_def Let_def)
qed

lemma keep_operation_until: "keeps I (execute_operation_until env c operation deadline)"
  unfolding execute_operation_until_def
  by (intro keeps_bind keep_active keeps_if keep_backend_call keeps_simple keep_owned)

end

end
