(* ===== verification/Tracking.thy ===== *)
theory Tracking
  imports Json
begin

text \<open>
  The difference of two observations of a tracked memory range (\<open>tracking_change\<close> of
  \<open>crates/gdb-ai-core/src/session/actor.rs\<close>): the ranges in which the bytes differ, bounded to 128
  ranges and 4096 bytes.
\<close>

section \<open>Definitions\<close>

text \<open>\<open>slice::get\<close>.\<close>

definition byte_at :: "bytes \<Rightarrow> nat \<Rightarrow> u8 option" where
  "byte_at bs i = (if i < length bs then Some (bs ! i) else None)"

record ChangedRange =
  cg_offset :: nat
  cg_end :: nat

abbreviation max_emitted :: nat where "max_emitted \<equiv> 4096"
abbreviation max_ranges :: nat where "max_ranges \<equiv> 128"

function differing_end :: "bytes \<Rightarrow> bytes \<Rightarrow> nat \<Rightarrow> nat \<Rightarrow> nat" where
  "differing_end before after maximum offset =
     (if offset < maximum \<and> byte_at before offset \<noteq> byte_at after offset
      then differing_end before after maximum (offset + 1) else offset)"
  by pat_completeness auto

termination by (relation "measure (\<lambda>(_, _, m, i). m - i)") auto

declare differing_end.simps [simp del]

lemma differing_end_le: "offset \<le> differing_end before after maximum offset"
  by (induction before after maximum offset rule: differing_end.induct) (subst differing_end.simps, auto)

lemma differing_end_less:
  "offset < maximum \<Longrightarrow> byte_at before offset \<noteq> byte_at after offset \<Longrightarrow>
     offset < differing_end before after maximum offset"
  by (subst differing_end.simps) (use differing_end_le [of "offset + 1"] in \<open>auto simp: Suc_le_eq\<close>)

text \<open>The outer loop with its variables \<open>ranges\<close>, \<open>offset\<close>, \<open>emitted\<close>; it returns the ranges, the offset
  it reached and \<open>truncated\<close>.\<close>

function changed_ranges ::
  "bytes \<Rightarrow> bytes \<Rightarrow> nat \<Rightarrow> ChangedRange list \<Rightarrow> nat \<Rightarrow> nat \<Rightarrow> ChangedRange list \<times> nat \<times> bool" where
  "changed_ranges before after maximum ranges offset emitted =
     (if offset < maximum \<and> length ranges < max_ranges \<and> emitted < max_emitted
      then if byte_at before offset = byte_at after offset
           then changed_ranges before after maximum ranges (offset + 1) emitted
           else let stop = differing_end before after maximum offset;
                    visible_end = min stop (offset + (max_emitted - emitted));
                    ranges' = ranges @ [\<lparr>cg_offset = offset, cg_end = visible_end\<rparr>]
                in if visible_end < stop then (ranges', stop, True)
                   else changed_ranges before after maximum ranges' stop (emitted + (visible_end - offset))
      else (ranges, offset, False))"
  by pat_completeness auto

termination
  by (relation "measure (\<lambda>(_, _, m, _, i, _). m - i)")
    (auto simp: Let_def dest: differing_end_less intro!: diff_less_mono2)

declare changed_ranges.simps [simp del]

definition slice :: "bytes \<Rightarrow> nat \<Rightarrow> nat \<Rightarrow> bytes" where
  "slice bs i j = drop (min i (length bs)) (take (min j (length bs)) bs)"

definition range_json :: "(bytes \<Rightarrow> string) \<Rightarrow> bytes \<Rightarrow> bytes \<Rightarrow> ChangedRange \<Rightarrow> Json" where
  "range_json base64 before after r =
     json_object [(''offset'', JNumber (int (cg_offset r))),
       (''before_base64'', JString (base64 (slice before (cg_offset r) (cg_end r)))),
       (''after_base64'', JString (base64 (slice after (cg_offset r) (cg_end r))))]"

definition observed_bytes :: "(string \<Rightarrow> bytes option) \<Rightarrow> Json \<Rightarrow> bytes option" where
  "observed_bytes unbase64 v =
     Option.bind (Option.bind (json_get v ''data_base64'') json_as_str) unbase64"

text \<open>\<open>json!\<close> of an optional reference: the value, or null.\<close>

definition json_field :: "Json \<Rightarrow> string \<Rightarrow> Json" where
  "json_field v k = (case json_get v k of Some x \<Rightarrow> x | None \<Rightarrow> JNull)"

definition tracking_change ::
  "(bytes \<Rightarrow> string) \<Rightarrow> (string \<Rightarrow> bytes option) \<Rightarrow> Json \<Rightarrow> Json \<Rightarrow> Json" where
  "tracking_change base64 unbase64 before after =
     (case (observed_bytes unbase64 before, observed_bytes unbase64 after) of
        (Some b, Some a) \<Rightarrow>
          let maximum = max (length b) (length a)
          in (case changed_ranges b a maximum [] 0 0 of (ranges, offset, truncated) \<Rightarrow>
                json_object [(''before_sha256'', json_field before ''sha256''),
                  (''after_sha256'', json_field after ''sha256''),
                  (''changed_ranges'', JArray (map (range_json base64 b a) ranges)),
                  (''truncated'', JBool (truncated \<or> offset < maximum))])
      | _ \<Rightarrow> json_object [(''before'', before), (''after'', after)])"

section \<open>The ranges\<close>

abbreviation differs :: "bytes \<Rightarrow> bytes \<Rightarrow> nat \<Rightarrow> bool" where
  "differs b a i \<equiv> byte_at b i \<noteq> byte_at a i"

definition covered :: "ChangedRange list \<Rightarrow> nat \<Rightarrow> bool" where
  "covered rs i \<longleftrightarrow> (\<exists>r \<in> set rs. cg_offset r \<le> i \<and> i < cg_end r)"

definition emitted_bytes :: "ChangedRange list \<Rightarrow> nat" where
  "emitted_bytes rs = sum_list (map (\<lambda>r. cg_end r - cg_offset r) rs)"

lemma differing_end_spec:
  assumes "offset \<le> maximum"
  shows "differing_end b a maximum offset \<le> maximum"
    "offset \<le> i \<Longrightarrow> i < differing_end b a maximum offset \<Longrightarrow> differs b a i"
  using assms
proof (induction b a maximum offset rule: differing_end.induct)
  case (1 b a m k)
  { case 1
    then show ?case using "1.IH"(1) by (subst differing_end.simps) auto }
  { case 2
    then show ?case
    proof (cases "k < m \<and> differs b a k")
      case True
      then have "differing_end b a m k = differing_end b a m (k + 1)" by (subst differing_end.simps) simp
      with True 2 "1.IH"(2) show ?thesis by (cases "i = k") auto
    next
      case False
      then have "differing_end b a m k = k" by (subst differing_end.simps) auto
      with 2 show ?thesis by simp
    qed }
qed

text \<open>The invariant of the outer loop: up to the current offset the ranges are exactly the offsets in
  which the bytes differ, each in one range, in order.\<close>

definition ranges_inv :: "bytes \<Rightarrow> bytes \<Rightarrow> ChangedRange list \<Rightarrow> nat \<Rightarrow> nat \<Rightarrow> bool" where
  "ranges_inv b a rs k emitted \<longleftrightarrow>
     (\<forall>i. covered rs i \<longleftrightarrow> i < k \<and> differs b a i) \<and> (\<forall>r \<in> set rs. cg_offset r < cg_end r \<and> cg_end r \<le> k) \<and>
     sorted_wrt (\<lambda>r r'. cg_end r \<le> cg_offset r') rs \<and> length rs \<le> max_ranges \<and>
     emitted = emitted_bytes rs \<and> emitted \<le> max_emitted"

definition ranges_ok :: "bytes \<Rightarrow> bytes \<Rightarrow> nat \<Rightarrow> ChangedRange list \<times> nat \<times> bool \<Rightarrow> bool" where
  "ranges_ok b a m res \<longleftrightarrow>
     (case res of (rs, k, truncated) \<Rightarrow>
        (\<forall>i. covered rs i \<longrightarrow> i < m \<and> differs b a i) \<and>
        (\<forall>r \<in> set rs. cg_offset r < cg_end r) \<and>
        sorted_wrt (\<lambda>r r'. cg_end r \<le> cg_offset r') rs \<and>
        length rs \<le> max_ranges \<and> emitted_bytes rs \<le> max_emitted \<and>
        (if truncated \<or> k < m then length rs = max_ranges \<or> emitted_bytes rs = max_emitted
         else (\<forall>i < m. differs b a i \<longrightarrow> covered rs i)))"

lemma covered_append: "covered (rs @ [r]) i \<longleftrightarrow> covered rs i \<or> (cg_offset r \<le> i \<and> i < cg_end r)"
  by (auto simp: covered_def)

lemma emitted_append: "emitted_bytes (rs @ [r]) = emitted_bytes rs + (cg_end r - cg_offset r)"
  by (simp add: emitted_bytes_def)

lemma ranges_inv_append:
  assumes inv: "ranges_inv b a rs k emitted" and l: "length rs < max_ranges"
    and r: "k < e" "\<And>i. k \<le> i \<Longrightarrow> i < e \<Longrightarrow> differs b a i" "emitted + (e - k) \<le> max_emitted"
  shows "ranges_inv b a (rs @ [\<lparr>cg_offset = k, cg_end = e\<rparr>]) e (emitted + (e - k))"
proof -
  have "covered (rs @ [\<lparr>cg_offset = k, cg_end = e\<rparr>]) i \<longleftrightarrow> i < e \<and> differs b a i" for i
    using inv r(1,2) by (cases "i < k") (auto simp: ranges_inv_def covered_append)
  with inv l r show ?thesis
    by (auto simp: ranges_inv_def emitted_append sorted_wrt_append)
qed

lemma changed_ranges_ok:
  assumes "ranges_inv b a rs k emitted" "k \<le> m"
  shows "ranges_ok b a m (changed_ranges b a m rs k emitted)"
  using assms
proof (induction b a m rs k emitted rule: changed_ranges.induct)
  case (1 b a m rs k emitted)
  let ?stop = "differing_end b a m k"
  let ?e = "min ?stop (k + (max_emitted - emitted))"
  let ?rs = "rs @ [\<lparr>cg_offset = k, cg_end = ?e\<rparr>]"
  consider (finished) "\<not> (k < m \<and> length rs < max_ranges \<and> emitted < max_emitted)"
    | (equal) "k < m" "length rs < max_ranges" "emitted < max_emitted" "\<not> differs b a k"
    | (range) "k < m" "length rs < max_ranges" "emitted < max_emitted" "differs b a k"
    by blast
  then show ?case
  proof cases
    case finished
    then have "changed_ranges b a m rs k emitted = (rs, k, False)"
      by (subst changed_ranges.simps) (auto simp: Let_def)
    with finished "1.prems" show ?thesis by (auto simp: ranges_ok_def ranges_inv_def)
  next
    case equal
    have "ranges_inv b a rs (k + 1) emitted"
      using "1.prems"(1) equal(4) by (auto simp: ranges_inv_def less_Suc_eq)
    with equal "1.IH"(1) show ?thesis by (subst changed_ranges.simps) simp
  next
    case range
    have stop: "k < ?stop" "?stop \<le> m" "\<And>i. k \<le> i \<Longrightarrow> i < ?stop \<Longrightarrow> differs b a i"
      using differing_end_less [OF range(1,4)] differing_end_spec "1.prems"(2) by auto
    have inv: "ranges_inv b a ?rs ?e (emitted + (?e - k))"
      using stop range(3) by (intro ranges_inv_append [OF "1.prems"(1) range(2)]) auto
    show ?thesis
    proof (cases "?e < ?stop")
      case True
      then have "changed_ranges b a m rs k emitted = (?rs, ?stop, True)"
        using range by (subst changed_ranges.simps) (simp only: Let_def if_True if_False simp_thms)
      moreover have "emitted + (?e - k) = max_emitted" using True range(3) by auto
      ultimately show ?thesis using inv stop(2) True by (auto simp: ranges_ok_def ranges_inv_def)
    next
      case False
      then have e: "?e = ?stop" by simp
      have "changed_ranges b a m rs k emitted = changed_ranges b a m ?rs ?stop (emitted + (?e - k))"
        using range False by (subst changed_ranges.simps) (simp only: Let_def if_True if_False simp_thms)
      moreover have "ranges_ok b a m (changed_ranges b a m ?rs ?stop (emitted + (?e - k)))"
        using "1.IH"(2) [OF _ _ refl refl refl] range False inv e stop(2) by simp
      ultimately show ?thesis by simp
    qed
  qed
qed

lemma empty_ranges_inv: "ranges_inv b a [] 0 0"
  by (simp add: ranges_inv_def covered_def emitted_bytes_def)

lemma byte_at_beyond: "differs b a i \<Longrightarrow> i < max (length b) (length a)"
  by (auto simp: byte_at_def split: if_splits)

text \<open>C4.  The difference of two observations is exact and bounded: the reported ranges are non-empty,
  in order and disjoint, at most 128 of them with at most 4096 bytes together; every byte inside a range
  has changed; a report that is not truncated covers exactly the changed bytes; and a report is called
  truncated only when one of the two bounds was reached.\<close>

theorem tracking_ranges_exact:
  assumes "changed_ranges b a (max (length b) (length a)) [] 0 0 = (rs, k, truncated)"
  shows "(\<forall>r \<in> set rs. cg_offset r < cg_end r) \<and> sorted_wrt (\<lambda>r r'. cg_end r \<le> cg_offset r') rs \<and>
    length rs \<le> 128 \<and> emitted_bytes rs \<le> 4096 \<and> (\<forall>i. covered rs i \<longrightarrow> byte_at b i \<noteq> byte_at a i) \<and>
    (if truncated \<or> k < max (length b) (length a)
     then length rs = 128 \<or> emitted_bytes rs = 4096
     else \<forall>i. covered rs i \<longleftrightarrow> byte_at b i \<noteq> byte_at a i)"
proof -
  have "ranges_ok b a (max (length b) (length a)) (rs, k, truncated)"
    using changed_ranges_ok [OF empty_ranges_inv, of "max (length b) (length a)" b a] assms by simp
  then have ok: "\<forall>i. covered rs i \<longrightarrow> i < max (length b) (length a) \<and> differs b a i"
      "\<forall>r \<in> set rs. cg_offset r < cg_end r" "sorted_wrt (\<lambda>r r'. cg_end r \<le> cg_offset r') rs"
      "length rs \<le> max_ranges" "emitted_bytes rs \<le> max_emitted"
      "if truncated \<or> k < max (length b) (length a) then length rs = max_ranges \<or> emitted_bytes rs = max_emitted
       else (\<forall>i < max (length b) (length a). differs b a i \<longrightarrow> covered rs i)"
    by (simp_all add: ranges_ok_def)
  have eq: "\<forall>i. covered rs i \<longleftrightarrow> differs b a i" if "\<not> (truncated \<or> k < max (length b) (length a))"
  proof
    fix i
    have "differs b a i \<longrightarrow> covered rs i" using ok(6) [unfolded if_not_P [OF that]] byte_at_beyond by blast
    with ok(1) show "covered rs i \<longleftrightarrow> differs b a i" by blast
  qed
  have "if truncated \<or> k < max (length b) (length a) then length rs = 128 \<or> emitted_bytes rs = 4096
     else \<forall>i. covered rs i \<longleftrightarrow> differs b a i"
    using ok(6) eq by (cases "truncated \<or> k < max (length b) (length a)") (simp_all only: if_True if_False simp_thms)
  with ok(1-5) show ?thesis by blast
qed

theorem tracking_ranges_exact_witness:
  "\<exists>rs k. changed_ranges [1, 2, 3] [1, 9, 3, 4] (max (length [1, 2, 3 :: u8]) (length [1, 9, 3, 4 :: u8])) [] 0 0 =
       (rs, k, False) \<and> map cg_offset rs = [1, 3] \<and> map cg_end rs = [2, 4] \<and> emitted_bytes rs \<le> 4096"
proof -
  let ?rs = "[\<lparr>cg_offset = 1, cg_end = 2\<rparr>, \<lparr>cg_offset = 3, cg_end = 4\<rparr>]"
  have run: "changed_ranges [1, 2, 3] [1, 9, 3, 4] (max (length [1, 2, 3 :: u8]) (length [1, 9, 3, 4 :: u8])) [] 0 0 =
     (?rs, 4, False)"
    by (simp add: changed_ranges.simps differing_end.simps byte_at_def Let_def)
  from tracking_ranges_exact [OF this] have "emitted_bytes ?rs \<le> 4096" by blast
  with run show ?thesis by (intro exI [of _ ?rs] exI [of _ 4]) simp
qed

end
