(* ===== verification/Worker_Requests.thy ===== *)
theory Worker_Requests
  imports Worker_Execute Tracking
begin

text \<open>
  The requests of the session worker: \<open>handle_request\<close> and \<open>handle_control\<close> with the routines they use
  (restoring settings, safe evaluation, module breakpoints, values, tracking, snapshots, output), and
  the iterations of its main loop \<open>run\<close>.
\<close>

section \<open>Restoring settings\<close>

fun run_restoration :: "WorkerEnv \<Rightarrow> nat \<Rightarrow> MiCommand list \<Rightarrow> unit worker_act" where
  "run_restoration env deadline [] = act_return ()"
| "run_restoration env deadline (c # cs) =
     act_bind (execute_until env c deadline) (\<lambda>_. run_restoration env deadline cs)"

definition restoration_error :: "Error \<Rightarrow> Error" where
  "restoration_error e =
     new_error ErrorCode.ConsistencyDirty (''deferred GDB setting restoration failed: '' @ error_string e)"

definition restore_deferred_commands :: "WorkerEnv \<Rightarrow> nat \<Rightarrow> unit worker_act" where
  "restore_deferred_commands env deadline w =
     (if wk_deferred_restoration w = [] then (Ok (), w)
      else act_then (run_restoration env deadline (wk_deferred_restoration w)) (\<lambda>r.
             case r of
               Err e \<Rightarrow> act_fail (restoration_error e)
             | Ok _ \<Rightarrow> act_update (\<lambda>w. w\<lparr>wk_deferred_restoration := []\<rparr>)) w)"

section \<open>Stale values\<close>

definition halted :: "SessionState \<Rightarrow> bool" where
  "halted s \<longleftrightarrow> list_ex (\<lambda>i. inf_status i = InferiorStatus.Stopped \<or> inf_status i = InferiorStatus.Core)
     (bt_values (inferiors s))"

definition outcome_open :: "CommandReply result \<Rightarrow> bool" where
  "outcome_open r = (case r of Err e \<Rightarrow> err_code e \<in> {Timeout, GdbUnresponsive} | Ok _ \<Rightarrow> False)"

definition cleanup_one_stale_value :: "WorkerEnv \<Rightarrow> Worker \<Rightarrow> Worker" where
  "cleanup_one_stale_value env w =
     (if wk_timed_out_tokens w \<noteq> {} \<or> \<not> halted (worker_session w) \<or> wk_stale_backend_values w = [] then w
      else let name = last (wk_stale_backend_values w);
               w1 = w\<lparr>wk_stale_backend_values := butlast (wk_stale_backend_values w)\<rparr>
           in case bare_command ''-var-delete'' [name] of
                Err _ \<Rightarrow> w1
              | Ok c \<Rightarrow>
                  (case execute_until env c (command_deadline (wk_now w1) 250) w1 of (r, w2) \<Rightarrow>
                     if outcome_open r
                     then w2\<lparr>wk_stale_backend_values := wk_stale_backend_values w2 @ [name]\<rparr> else w2))"

section \<open>Module breakpoints\<close>

definition capability_status :: "string \<Rightarrow> Worker \<Rightarrow> CapabilityStatus option" where
  "capability_status name w = map_option cap_status (bt_get (wk_capabilities w) name)"

definition move_breakpoint :: "PendingModuleBreakpoint \<Rightarrow> bool \<Rightarrow> string \<Rightarrow> Worker \<Rightarrow> Worker" where
  "move_breakpoint b enabled number w =
     w\<lparr>wk_pending_module_breakpoints :=
         bt_insert number (b\<lparr>pm_backend_number := number, pm_enabled := enabled\<rparr>)
           (bt_remove (pm_backend_number b) (wk_pending_module_breakpoints w))\<rparr>"

definition delete_moved :: "WorkerEnv \<Rightarrow> nat \<Rightarrow> string \<Rightarrow> string \<Rightarrow> unit worker_act" where
  "delete_moved env deadline old_number new_number =
     act_bind (act_result (bare_command ''-break-delete'' [old_number])) (\<lambda>c.
     act_then (execute_until env c deadline) (\<lambda>r.
       case r of
         Ok _ \<Rightarrow> act_return ()
       | Err e \<Rightarrow>
           act_bind (handle_event env (DomainEvent.ConsistencyDirty
             (''module breakpoint moved to '' @ new_number @ '', but old breakpoint '' @ old_number @
              '' could not be deleted: '' @ error_string e))) (\<lambda>_. act_fail e)))"

definition replace_body ::
  "WorkerEnv \<Rightarrow> PendingModuleBreakpoint \<Rightarrow> bool \<Rightarrow> MiCommand \<Rightarrow> string option \<Rightarrow> nat \<Rightarrow> unit worker_act" where
  "replace_body env b enabled c address deadline =
     act_bind (execute_until env c deadline) (\<lambda>rep.
     act_bind (act_result (breakpoint_number (cr_record rep))) (\<lambda>number.
     act_bind (if enabled then act_return ()
               else act_bind (act_result (bare_command ''-break-disable'' [number])) (\<lambda>d.
                    act_bind (execute_until env d deadline) (\<lambda>_. act_return ()))) (\<lambda>_.
     act_bind (handle_event env (BreakpointRebound (pm_id b) (pm_backend_number b) number enabled address)) (\<lambda>_.
     act_bind (act_update (move_breakpoint b enabled number)) (\<lambda>_.
       delete_moved env deadline (pm_backend_number b) number)))))"

definition publish_deferred :: "WorkerEnv \<Rightarrow> bool \<Rightarrow> unit worker_act" where
  "publish_deferred env replaced w =
     (let w1 = w\<lparr>wk_deferred_snapshot_ready := None\<rparr>
      in case wk_deferred_snapshot_ready w of
           None \<Rightarrow> (Ok (), w1)
         | Some (stop, snapshot_id, partial) \<Rightarrow>
             if wk_fatal w1 \<or> stop_id (worker_session w1) \<noteq> Some stop then (Ok (), w1)
             else handle_event env (if replaced then SnapshotReady stop (Some snapshot_id) partial
                                    else SnapshotFailed stop) w1)"

definition replace_module_breakpoint ::
  "WorkerEnv \<Rightarrow> PendingModuleBreakpoint \<Rightarrow> bool \<Rightarrow> MiCommand \<Rightarrow> string option \<Rightarrow> nat \<Rightarrow> unit worker_act" where
  "replace_module_breakpoint env b enabled c address deadline =
     act_bind (act_update (\<lambda>w. w\<lparr>wk_replacing_module_breakpoint := True\<rparr>)) (\<lambda>_.
     act_then (replace_body env b enabled c address deadline) (\<lambda>r.
     act_bind (act_update (\<lambda>w. w\<lparr>wk_replacing_module_breakpoint := False\<rparr>)) (\<lambda>_.
     act_then (publish_deferred env (is_ok r)) (\<lambda>published.
       act_bind (act_result r) (\<lambda>_. act_result published)))))"

definition module_offset :: "WorkerEnv \<Rightarrow> string option worker_act" where
  "module_offset env w = (ev_module_offset env (wk_calls w), w\<lparr>wk_calls := wk_calls w + 1\<rparr>)"

definition rebind_one :: "WorkerEnv \<Rightarrow> PendingModuleBreakpoint \<Rightarrow> unit worker_act" where
  "rebind_one env b =
     act_bind (module_offset env) (\<lambda>address w.
       case address of
         None \<Rightarrow> (Ok (), w)
       | Some a \<Rightarrow>
           replace_module_breakpoint env b (pm_enabled b)
             (command_string (pm_command b) (as_bytes (CHR ''*'' # a))) (Some a)
             (command_deadline (wk_now w) (wk_command_timeout w)) w)"

fun rebind_each :: "WorkerEnv \<Rightarrow> PendingModuleBreakpoint list \<Rightarrow> unit worker_act" where
  "rebind_each env [] = act_return ()"
| "rebind_each env (b # bs) = act_bind (rebind_one env b) (\<lambda>_. rebind_each env bs)"

definition registered_breakpoint :: "Worker \<Rightarrow> PendingModuleBreakpoint \<Rightarrow> BreakpointState option" where
  "registered_breakpoint w b = bt_get (breakpoints (worker_session w)) (pm_backend_number b)"

definition rebind_pending_module_breakpoints :: "WorkerEnv \<Rightarrow> unit worker_act" where
  "rebind_pending_module_breakpoints env w =
     (if target_running w \<and>
         capability_status ''module_offset_rebinding'' w = Some CapabilityStatus.Unsupported
      then (Ok (), w)
      else rebind_each env
             (filter (\<lambda>b. case registered_breakpoint w b of Some s \<Rightarrow> bp_pending s | None \<Rightarrow> False)
               (bt_values (wk_pending_module_breakpoints w))) w)"

definition materialized_breakpoints :: "Worker \<Rightarrow> (PendingModuleBreakpoint \<times> bool) list" where
  "materialized_breakpoints w =
     List.map_filter (\<lambda>b. case registered_breakpoint w b of
         Some s \<Rightarrow> if bp_pending s then None else Some (b, bp_enabled s)
       | None \<Rightarrow> None) (bt_values (wk_pending_module_breakpoints w))"

definition placeholder_command :: "PendingModuleBreakpoint \<Rightarrow> MiCommand result" where
  "placeholder_command b =
     bind_res (bare_command ''-break-insert'' [''-f'']) (\<lambda>c.
       Ok (command_string c (as_bytes (''__gdb_ai_pending_'' @ pm_id b))))"

fun park_each :: "WorkerEnv \<Rightarrow> nat \<Rightarrow> (PendingModuleBreakpoint \<times> bool) list \<Rightarrow> unit worker_act" where
  "park_each env deadline [] = act_return ()"
| "park_each env deadline ((b, enabled) # bs) =
     act_bind (act_result (placeholder_command b)) (\<lambda>c.
     act_bind (replace_module_breakpoint env b enabled c None deadline) (\<lambda>_.
       park_each env deadline bs))"

definition park_module_breakpoints :: "WorkerEnv \<Rightarrow> nat \<Rightarrow> unit worker_act" where
  "park_module_breakpoints env deadline w =
     act_bind (park_each env deadline (materialized_breakpoints w)) (\<lambda>_.
       act_update (\<lambda>w. if wk_pending_module_breakpoints w \<noteq> []
                        then w\<lparr>wk_module_rebind_needed := True\<rparr> else w)) w"

section \<open>Safe evaluation\<close>

definition safe_settings :: "string list" where
  "safe_settings = [''may-call-functions'', ''may-write-memory'', ''may-write-registers'']"

fun safe_evaluation_settings :: "Profile \<Rightarrow> string list \<times> bool" where
  "safe_evaluation_settings RawAdmin = (safe_settings, True)"
| "safe_evaluation_settings DebugControl = (drop 1 safe_settings, False)"
| "safe_evaluation_settings LabMutation = (drop 1 safe_settings, False)"
| "safe_evaluation_settings OfflineCore = ([], False)"
| "safe_evaluation_settings LiveObserver = ([], False)"

fun read_originals ::
  "WorkerEnv \<Rightarrow> OperationId option \<Rightarrow> nat \<Rightarrow> string list \<Rightarrow> (string \<times> string) list worker_act" where
  "read_originals env operation deadline [] = act_return []"
| "read_originals env operation deadline (setting # rest) =
     act_bind (require_active env operation) (\<lambda>_.
     act_bind (act_result (bare_command ''-gdb-show'' [setting])) (\<lambda>c.
     act_bind (execute_until env c deadline) (\<lambda>rep.
     act_bind (act_result (ok_or (new_error GdbError ''GDB setting has no value'')
       (find_str (record_results (cr_record rep)) ''value''))) (\<lambda>v.
     act_bind (read_originals env operation deadline rest) (\<lambda>vs. act_return ((setting, v) # vs))))))"

text \<open>Switches the settings off; the error that stopped it and the settings that were changed.\<close>

fun guard_settings ::
  "WorkerEnv \<Rightarrow> OperationId option \<Rightarrow> nat \<Rightarrow> string list \<Rightarrow> string list \<Rightarrow> (Error option \<times> string list) worker_act"
  where
  "guard_settings env operation deadline [] guarded = act_return (None, guarded)"
| "guard_settings env operation deadline (setting # rest) guarded =
     act_then (require_active env operation) (\<lambda>active.
       case active of
         Err e \<Rightarrow> act_return (Some e, guarded)
       | Ok _ \<Rightarrow>
           act_bind (act_result (bare_command ''-gdb-set'' [setting, ''off''])) (\<lambda>c.
           act_then (execute_until env c deadline) (\<lambda>r.
             case r of
               Ok _ \<Rightarrow> guard_settings env operation deadline rest (guarded @ [setting])
             | Err e \<Rightarrow>
                 if setting = ''may-write-registers'' \<and> err_code e = GdbError
                 then guard_settings env operation deadline rest guarded
                 else act_return (Some e, guarded))))"

text \<open>The reads; the deadline they end with is the one the restoration uses.\<close>

fun run_reads ::
  "WorkerEnv \<Rightarrow> OperationId option \<Rightarrow> MiCommand list \<Rightarrow> nat \<Rightarrow> nat \<Rightarrow> CommandReply result list \<Rightarrow>
     Worker \<Rightarrow> (CommandReply result list result \<times> nat) \<times> Worker" where
  "run_reads env operation [] index deadline replies w = ((Ok replies, deadline), w)"
| "run_reads env operation (c # cs) index deadline replies w =
     (case act_bind (require_active env operation) (\<lambda>_. require_known_outcome env c) w of
        (Err e, w1) \<Rightarrow> ((Err e, deadline), w1)
      | (Ok _, w1) \<Rightarrow>
          let deadline' = (if index > 0 then command_deadline (wk_now w1) (wk_command_timeout w1) else deadline)
          in case execute_until env c deadline' w1 of (r, w2) \<Rightarrow>
               (case r of
                  Err e \<Rightarrow>
                    if \<not> is_independent_read_failure (err_code e) then ((Err e, deadline'), w2)
                    else run_reads env operation cs (index + 1) deadline' (replies @ [r]) w2
                | Ok _ \<Rightarrow> run_reads env operation cs (index + 1) deadline' (replies @ [r]) w2))"

fun setting_commands :: "(string \<times> string) list \<Rightarrow> MiCommand list result" where
  "setting_commands [] = Ok []"
| "setting_commands ((setting, v) # rest) =
     bind_res (bare_command ''-gdb-set'' [setting, v]) (\<lambda>c.
     bind_res (setting_commands rest) (\<lambda>cs. Ok (c # cs)))"

definition restore_settings ::
  "WorkerEnv \<Rightarrow> nat \<Rightarrow> MiCommand list \<Rightarrow> CommandReply result list result \<Rightarrow> CommandReply result list worker_act" where
  "restore_settings env deadline restoration r w =
     (if wk_timed_out_tokens w \<noteq> {}
      then act_bind (handle_event env (DomainEvent.ConsistencyDirty
             ''safe-evaluation settings await a known command outcome'')) (\<lambda>_. act_result r)
             (w\<lparr>wk_deferred_restoration := restoration\<rparr>)
      else act_then (run_restoration env deadline restoration) (\<lambda>restored.
             case restored of
               Ok _ \<Rightarrow> act_result r
             | Err e \<Rightarrow>
                 act_bind (handle_event env (DomainEvent.ConsistencyDirty
                   (''failed to restore safe-evaluation settings: '' @ error_string e))) (\<lambda>_.
                 act_fail (new_error ErrorCode.ConsistencyDirty
                   ''safe-evaluation settings could not be restored''))) w)"

definition guarded_reads ::
  "WorkerEnv \<Rightarrow> OperationId option \<Rightarrow> MiCommand list \<Rightarrow> nat \<Rightarrow> (string \<times> string) list \<Rightarrow>
     Error option \<times> string list \<Rightarrow> CommandReply result list worker_act" where
  "guarded_reads env operation cs deadline originals setup w =
     (case (case fst setup of
              Some e \<Rightarrow> ((Err e, deadline), w)
            | None \<Rightarrow> run_reads env operation cs 0 deadline [] w) of
        ((r, deadline'), w1) \<Rightarrow>
          act_bind (act_result (setting_commands (filter (\<lambda>(s, _). s \<in> set (snd setup)) originals)))
            (\<lambda>restoration. restore_settings env deadline' restoration r) w1)"

definition execute_safe ::
  "WorkerEnv \<Rightarrow> MiCommand list \<Rightarrow> OperationId option \<Rightarrow> nat \<Rightarrow> CommandReply result list worker_act" where
  "execute_safe env cs operation deadline w =
     (case safe_evaluation_settings (wk_profile w) of (settings, inspect) \<Rightarrow>
        act_bind (if inspect then read_originals env operation deadline settings
                  else act_return (map (\<lambda>s. (s, ''on'')) settings)) (\<lambda>originals.
        act_bind (guard_settings env operation deadline settings []) (\<lambda>setup.
          guarded_reads env operation cs deadline originals setup)) w)"

end
