(* ===== verification/Worker_Serve.thy ===== *)
theory Worker_Serve
  imports Worker_Requests
begin

text \<open>
  The requests of a session as the worker serves them: \<open>handle_request\<close>, \<open>handle_control\<close> and the
  iterations of \<open>run\<close>.  Each request carries the number of the channel it is answered on.
\<close>

section \<open>Requests\<close>

datatype OutputRing = Inferior | Target | Console | Log

datatype WorkerRequest =
    Command MiCommand "OperationId option" nat nat
  | Transaction "MiCommand list" MiCommand "MiCommand list" "OperationId option" nat nat
  | SafeEvaluate "MiCommand list" "OperationId option" nat nat
  | RecordEvent DomainEvent nat
  | RegisterPendingModuleBreakpoint PendingModuleBreakpoint nat
  | GetOperation string nat
  | FlushJournal nat
  | RefreshTargetCapabilities "OperationId option" nat nat
  | RegisterValue ValueBinding nat
  | GetValue string nat
  | RemoveValue string nat
  | AddTracking TrackingDefinition nat
  | RemoveTracking string nat
  | ListTracking nat
  | RecordTracking "(string, Json) btree" StopId nat "OperationId option" nat
  | CommitSnapshot Json StopId nat bool bool "OperationId option" nat
  | ReadOutput OutputRing nat nat nat
  | WriteInferior bytes bool nat nat
  | ResizeInferior nat nat nat

section \<open>Commands\<close>

definition prepare_command :: "WorkerEnv \<Rightarrow> MiCommand \<Rightarrow> nat \<Rightarrow> unit worker_act" where
  "prepare_command env c deadline =
     act_bind (require_known_outcome env c) (\<lambda>_.
     act_bind (restore_deferred_commands env deadline) (\<lambda>_.
       if command_starts_fresh_inferior c then park_module_breakpoints env deadline else act_return ()))"

fun run_setup :: "WorkerEnv \<Rightarrow> OperationId option \<Rightarrow> nat \<Rightarrow> MiCommand list \<Rightarrow> unit worker_act" where
  "run_setup env operation deadline [] = act_return ()"
| "run_setup env operation deadline (c # cs) =
     act_bind (require_active env operation) (\<lambda>_.
     act_bind (execute_until env c deadline) (\<lambda>_. run_setup env operation deadline cs))"

definition restored_error :: Error where
  "restored_error =
     new_error ErrorCode.ConsistencyDirty ''temporary GDB settings could not be restored''"

definition finish_transaction ::
  "WorkerEnv \<Rightarrow> nat \<Rightarrow> MiCommand list \<Rightarrow> CommandReply result \<Rightarrow> CommandReply worker_act" where
  "finish_transaction env deadline after r w =
     (if after \<noteq> [] \<and> wk_timed_out_tokens w \<noteq> {}
      then act_bind (handle_event env (DomainEvent.ConsistencyDirty
             ''temporary GDB settings await a known command outcome'')) (\<lambda>_. act_result r)
             (w\<lparr>wk_deferred_restoration := after\<rparr>)
      else act_then (run_restoration env deadline after) (\<lambda>restored.
             case restored of
               Ok _ \<Rightarrow> act_result r
             | Err e \<Rightarrow>
                 act_then (handle_event env (DomainEvent.ConsistencyDirty
                   (''failed to restore temporary GDB settings: '' @ error_string e)))
                   (\<lambda>_. act_fail restored_error)) w)"

definition transaction ::
  "WorkerEnv \<Rightarrow> MiCommand list \<Rightarrow> MiCommand \<Rightarrow> MiCommand list \<Rightarrow> OperationId option \<Rightarrow> nat \<Rightarrow> CommandReply worker_act"
  where
  "transaction env before c after operation deadline =
     act_then (act_bind (run_setup env operation deadline before) (\<lambda>_.
       execute_operation_until env c operation deadline)) (finish_transaction env deadline after)"

fun require_known_outcomes :: "WorkerEnv \<Rightarrow> MiCommand list \<Rightarrow> unit worker_act" where
  "require_known_outcomes env [] = act_return ()"
| "require_known_outcomes env (c # cs) =
     act_bind (require_known_outcome env c) (\<lambda>_. require_known_outcomes env cs)"

definition extract_string_list :: "MiRecord \<Rightarrow> string \<Rightarrow> string list" where
  "extract_string_list record name =
     (case find_result (record_results record) name of
        Some (ValueList vs) \<Rightarrow> bt_keys (fold (\<lambda>s. bt_insert s ()) (List.map_filter value_str vs) [])
      | _ \<Rightarrow> [])"

definition set_features :: "string list \<Rightarrow> Worker \<Rightarrow> Worker" where
  "set_features features w =
     (let w1 = w\<lparr>wk_target_features := features\<rparr>
      in w1\<lparr>wk_capabilities := set_capability_at (revision (worker_session w1)) ''reverse''
             (if ''reverse'' \<in> set features then Conditional else CapabilityStatus.Unsupported)
             (wk_capabilities w1)\<rparr>)"

definition refresh_target_capabilities ::
  "WorkerEnv \<Rightarrow> OperationId option \<Rightarrow> nat \<Rightarrow> ((string, Capability) btree \<times> string list) worker_act" where
  "refresh_target_capabilities env operation deadline =
     act_bind (act_result (command_new ''-list-target-features'')) (\<lambda>c.
     act_bind (execute_operation_until env c operation deadline) (\<lambda>rep.
     act_bind (act_update (set_features (extract_string_list (cr_record rep) ''features''))) (\<lambda>_.
       act_get (\<lambda>w. (wk_capabilities w, wk_target_features w)))))"

section \<open>Values\<close>

definition register_value :: "ValueBinding \<Rightarrow> unit worker_act" where
  "register_value b w =
     (if length (wk_values w) \<ge> 1024
      then (Err (new_error OutputLimit ''session value-object limit reached''), w)
      else if bt_get (wk_values w) (vb_value_id b) \<noteq> None
      then (Err (new_error AlreadyExists ''value object already exists''), w)
      else (Ok (), w\<lparr>wk_values := bt_insert (vb_value_id b) b (wk_values w)\<rparr>))"

definition stale_value :: "string \<Rightarrow> Worker \<Rightarrow> bool" where
  "stale_value value_id w \<longleftrightarrow>
     starts_with value_id ''v'' \<and>
     (case stop_id (worker_session w) of
        None \<Rightarrow> True | Some stop \<Rightarrow> find_substring stop value_id = None)"

definition get_value :: "string \<Rightarrow> ValueBinding worker_act" where
  "get_value value_id w =
     (case bt_get (wk_values w) value_id of
        Some b \<Rightarrow> Ok b
      | None \<Rightarrow>
          if stale_value value_id w
          then Err (new_error StaleContext ''value object belongs to an earlier stop'')
          else Err (new_error NotFound ''value object not found''), w)"

definition remove_value :: "string \<Rightarrow> ValueBinding worker_act" where
  "remove_value value_id w =
     (ok_or (new_error NotFound ''value object not found'') (bt_get (wk_values w) value_id),
      w\<lparr>wk_values := bt_remove value_id (wk_values w)\<rparr>)"

section \<open>Tracking\<close>

fun tracked_length :: "TrackingDefinition \<Rightarrow> nat" where
  "tracked_length (TrackMemory _ _ len _) = len"
| "tracked_length (TrackExpression _ _ _) = 0"

definition tracked_memory :: "Worker \<Rightarrow> nat" where
  "tracked_memory w = sum_list (map tracked_length (bt_values (wk_tracking w)))"

definition stored_change :: "WorkerEnv \<Rightarrow> StoreWrite \<Rightarrow> unit worker_act" where
  "stored_change env item w =
     (if wk_store_failed w then (Ok (), w)
      else (case store_call env item w of (r, w1) \<Rightarrow> store_result (handle_event env) r w1))"

definition add_tracking :: "WorkerEnv \<Rightarrow> TrackingDefinition \<Rightarrow> unit worker_act" where
  "add_tracking env d w =
     (if saturating_add (tracked_memory w) (tracked_length d) > wk_tracking_memory_limit w
      then (Err (new_error OutputLimit ''tracked memory exceeds the session memory budget''), w)
      else if length (wk_tracking w) \<ge> 128
      then (Err (new_error OutputLimit ''session tracking-definition limit reached''), w)
      else if bt_get (wk_tracking w) (tracking_definition_id d) \<noteq> None
      then (Err (new_error AlreadyExists ''tracking definition already exists''), w)
      else act_bind (stored_change env (StoreTracking (session_id (worker_session w)) d)) (\<lambda>_.
             act_update (\<lambda>w. w\<lparr>wk_tracking := bt_insert (tracking_definition_id d) d (wk_tracking w)\<rparr>)) w)"

definition remove_tracking :: "WorkerEnv \<Rightarrow> string \<Rightarrow> TrackingDefinition worker_act" where
  "remove_tracking env tracking_id w =
     (case bt_get (wk_tracking w) tracking_id of
        None \<Rightarrow> (Err (new_error NotFound ''tracking definition not found''), w)
      | Some d \<Rightarrow>
          act_bind (stored_change env (DropTracking (session_id (worker_session w)) tracking_id)) (\<lambda>_.
          act_bind (act_update (\<lambda>w. w\<lparr>wk_tracking := bt_remove tracking_id (wk_tracking w),
             wk_tracking_history := bt_remove tracking_id (wk_tracking_history w)\<rparr>)) (\<lambda>_.
            act_return d)) w)"

fun history_maximum :: "TrackingDefinition \<Rightarrow> nat" where
  "history_maximum (TrackExpression _ _ _) = 32"
| "history_maximum (TrackMemory _ _ _ max_history) = max 1 (min max_history 256)"

definition unbase64 :: "WorkerEnv \<Rightarrow> string \<Rightarrow> bytes option" where
  "unbase64 env s = (case cd_unbase64 (ev_codec env) s of Ok bs \<Rightarrow> Some bs | Err _ \<Rightarrow> None)"

text \<open>One observation: the change from the last one, and the history with it, bounded in number and in
  bytes.\<close>

definition observe ::
  "WorkerEnv \<Rightarrow> TrackingDefinition \<Rightarrow> Json \<Rightarrow> Json list \<Rightarrow> Json option \<times> Json list" where
  "observe env d current history =
     (let change = (if history \<noteq> [] \<and> last history \<noteq> current
            then Some (tracking_change (cd_base64 (ev_codec env)) (unbase64 env) (last history) current) else None);
          bounded = min (history_maximum d) (max (1048576 div max (ev_json_bytes env current) 1) 1);
          history' = history @ [current]
      in (change, drop (length history' - bounded) history'))"

fun record_observations ::
  "WorkerEnv \<Rightarrow> (string \<times> Json) list \<Rightarrow> (string, Json) btree \<Rightarrow> Worker \<Rightarrow> (string, Json) btree \<times> Worker" where
  "record_observations env [] changes w = (changes, w)"
| "record_observations env ((tracking_id, current) # rest) changes w =
     (case bt_get (wk_tracking w) tracking_id of
        None \<Rightarrow> record_observations env rest changes w
      | Some d \<Rightarrow>
          let history = (case bt_get (wk_tracking_history w) tracking_id of Some h \<Rightarrow> h | None \<Rightarrow> [])
          in case observe env d current history of (change, history') \<Rightarrow>
               record_observations env rest
                 (case change of Some v \<Rightarrow> bt_insert tracking_id v changes | None \<Rightarrow> changes)
                 (w\<lparr>wk_tracking_history := bt_insert tracking_id history' (wk_tracking_history w)\<rparr>))"

definition require_context :: "string \<Rightarrow> StopId \<Rightarrow> nat \<Rightarrow> unit worker_act" where
  "require_context message stop epoch w =
     (if stop_id (worker_session w) = Some stop \<and> execution_epoch (worker_session w) = epoch then Ok ()
      else Err (new_error StaleContext message), w)"

definition record_tracking ::
  "WorkerEnv \<Rightarrow> (string, Json) btree \<Rightarrow> StopId \<Rightarrow> nat \<Rightarrow> OperationId option \<Rightarrow> (string, Json) btree worker_act" where
  "record_tracking env observations stop epoch operation =
     act_bind (require_active env operation) (\<lambda>_.
     act_bind (require_context ''target stop changed before tracking commit'' stop epoch) (\<lambda>_ w.
       case record_observations env observations [] w of (changes, w1) \<Rightarrow> (Ok changes, w1)))"

section \<open>Snapshots and output\<close>

text \<open>\<open>snapshot[key] = value\<close>: null becomes an object.  The gateway passes objects; indexing any other
  value would panic, here it is left for \<open>store_snapshot_value\<close> to refuse.\<close>

definition json_set :: "string \<Rightarrow> Json \<Rightarrow> Json \<Rightarrow> Json" where
  "json_set k v j = (case j of JObject m \<Rightarrow> JObject (bt_insert k v m) | JNull \<Rightarrow> JObject [(k, v)] | _ \<Rightarrow> j)"

definition commit_snapshot ::
  "WorkerEnv \<Rightarrow> Json \<Rightarrow> StopId \<Rightarrow> nat \<Rightarrow> bool \<Rightarrow> bool \<Rightarrow> OperationId option \<Rightarrow> Json worker_act" where
  "commit_snapshot env snap stop epoch partial publish operation =
     act_bind (require_active env operation) (\<lambda>_.
     act_bind (require_context ''target stop changed before snapshot commit'' stop epoch) (\<lambda>_.
     act_bind (act_get (\<lambda>w. revision (worker_session w))) (\<lambda>captured.
     act_bind (store_snapshot_value env (handle_event env)
       (json_set ''partial'' (JBool partial) (json_set ''captured_revision'' (JNumber (int captured))
         (json_set ''execution_epoch'' (JNumber (int epoch)) (json_set ''stop_id'' (JString stop) snap))))) (\<lambda>stored.
     act_bind (act_result (observation_id stored)) (\<lambda>snapshot_id.
     act_bind (if publish then handle_event env (SnapshotReady stop (Some snapshot_id) partial)
               else act_return ()) (\<lambda>_. act_return stored))))))"

definition read_output :: "WorkerEnv \<Rightarrow> OutputRing \<Rightarrow> nat \<Rightarrow> nat \<Rightarrow> Worker \<Rightarrow> RingRead" where
  "read_output env ring after_offset max_bytes w =
     (let layout = ev_layout env (wk_calls w)
      in case ring of
           Inferior \<Rightarrow>
             let read = ring_read layout (wk_pty w) after_offset max_bytes
             in if read_gap read
                then (case ev_spool env (wk_calls w) of Some r \<Rightarrow> r | None \<Rightarrow> read) else read
         | Target \<Rightarrow> ring_read layout (wk_target_output w) after_offset max_bytes
         | Console \<Rightarrow> ring_read layout (wk_console_output w) after_offset max_bytes
         | Log \<Rightarrow> ring_read layout (wk_log_output w) after_offset max_bytes)"

definition write_backend :: "WorkerEnv \<Rightarrow> nat worker_act" where
  "write_backend env w = (ev_written env (wk_calls w), w\<lparr>wk_calls := wk_calls w + 1\<rparr>)"

definition write_inferior :: "WorkerEnv \<Rightarrow> bytes \<Rightarrow> nat worker_act" where
  "write_inferior env bs =
     act_bind (journaled env (\<lambda>io. append_inferior_input (ev_codec env) io bs)) (\<lambda>_. write_backend env)"

definition register_breakpoint :: "PendingModuleBreakpoint \<Rightarrow> Worker \<Rightarrow> Worker" where
  "register_breakpoint b w =
     w\<lparr>wk_pending_module_breakpoints := bt_insert (pm_backend_number b) b (wk_pending_module_breakpoints w),
       wk_module_rebind_needed := True\<rparr>"

definition flush_journal :: "WorkerEnv \<Rightarrow> unit worker_act" where
  "flush_journal env =
     act_then (act_bind (checkpoint env (handle_event env) False) (\<lambda>_. with_journal env journal_flush))
       (journal_result (handle_event env))"

section \<open>Serving a request\<close>

definition answer :: "nat \<Rightarrow> ('a result \<Rightarrow> WorkerReply) \<Rightarrow> 'a worker_act \<Rightarrow> Worker \<Rightarrow> Worker" where
  "answer channel wrap m w = (case m w of (r, w1) \<Rightarrow> reply channel (wrap r) w1)"

text \<open>A request that is refused before its command is sent returns at once; every other one passes the
  check of \<open>fatal\<close> at the end.  The first component tells that the request was refused.\<close>

definition refuse_or ::
  "nat \<Rightarrow> ('a result \<Rightarrow> WorkerReply) \<Rightarrow> unit worker_act \<Rightarrow> (Worker \<Rightarrow> Worker) \<Rightarrow> Worker \<Rightarrow> bool \<times> Worker" where
  "refuse_or channel wrap guard body w =
     (case guard w of
        (Err e, w1) \<Rightarrow> (True, reply channel (wrap (Err e)) w1)
      | (Ok _, w1) \<Rightarrow> (False, body w1))"

definition pending_unsupported :: "PendingModuleBreakpoint \<Rightarrow> Worker \<Rightarrow> bool" where
  "pending_unsupported b w \<longleftrightarrow>
     capability_status ''module_offset_rebinding'' w = Some CapabilityStatus.Unsupported \<and>
     (case registered_breakpoint w b of Some s \<Rightarrow> bp_pending s | None \<Rightarrow> False)"

definition capability_refused :: Error where
  "capability_refused =
     new_error CapabilityMissing ''GDB 9/10 require the module to be mapped at a stopped target''"

definition refresh_request :: "WorkerEnv \<Rightarrow> OperationId option \<Rightarrow> nat \<Rightarrow>
    ((string, Capability) btree \<times> string list) worker_act" where
  "refresh_request env operation deadline =
     act_bind (require_known_outcome_name env ''-list-target-features'') (\<lambda>_.
     act_bind (restore_deferred_commands env deadline) (\<lambda>_.
       refresh_target_capabilities env operation deadline))"

fun serve :: "WorkerEnv \<Rightarrow> WorkerRequest \<Rightarrow> Worker \<Rightarrow> bool \<times> Worker" where
  "serve env (Command c operation deadline channel) w =
     refuse_or channel CommandReplied (prepare_command env c deadline) (\<lambda>w.
       cleanup_one_stale_value env
         (answer channel CommandReplied (execute_operation_until env c operation deadline) w)) w"
| "serve env (Transaction before c after operation deadline channel) w =
     refuse_or channel CommandReplied (prepare_command env c deadline) (\<lambda>w.
       cleanup_one_stale_value env
         (answer channel CommandReplied (transaction env before c after operation deadline) w)) w"
| "serve env (SafeEvaluate cs operation deadline channel) w =
     refuse_or channel RepliesReplied
       (act_bind (require_known_outcomes env cs) (\<lambda>_. restore_deferred_commands env deadline)) (\<lambda>w.
       cleanup_one_stale_value env
         (answer channel RepliesReplied (execute_safe env cs operation deadline) w)) w"
| "serve env (GetOperation operation_id channel) w =
     (False, reply channel (OperationReplied (ok_or (new_error NotFound ''operation not found in this session'')
        (bt_get (wk_operations w) operation_id))) w)"
| "serve env (RecordEvent event channel) w = (False, answer channel UnitReply (handle_event env event) w)"
| "serve env (RegisterPendingModuleBreakpoint b channel) w =
     (if pending_unsupported b w then (True, reply channel (UnitReply (Err capability_refused)) w)
      else (False, reply channel (UnitReply (Ok ())) (register_breakpoint b w)))"
| "serve env (FlushJournal channel) w = (False, answer channel UnitReply (flush_journal env) w)"
| "serve env (RefreshTargetCapabilities operation deadline channel) w =
     (False, cleanup_one_stale_value env
        (answer channel CapabilitiesReplied (refresh_request env operation deadline) w))"
| "serve env (RegisterValue b channel) w = (False, answer channel UnitReply (register_value b) w)"
| "serve env (GetValue value_id channel) w = (False, answer channel ValueReplied (get_value value_id) w)"
| "serve env (RemoveValue value_id channel) w = (False, answer channel ValueReplied (remove_value value_id) w)"
| "serve env (AddTracking d channel) w = (False, answer channel UnitReply (add_tracking env d) w)"
| "serve env (RemoveTracking tracking_id channel) w =
     (False, answer channel TrackingReplied (remove_tracking env tracking_id) w)"
| "serve env (ListTracking channel) w = (False, reply channel (TrackingListed (bt_values (wk_tracking w))) w)"
| "serve env (RecordTracking observations stop epoch operation channel) w =
     (False, answer channel ChangesReplied (record_tracking env observations stop epoch operation) w)"
| "serve env (CommitSnapshot snap stop epoch partial publish operation channel) w =
     (False, answer channel SnapshotReplied
        (commit_snapshot env snap stop epoch partial publish operation) w)"
| "serve env (ReadOutput ring after_offset max_bytes channel) w =
     (False, reply channel (OutputReplied (read_output env ring after_offset max_bytes w))
        (w\<lparr>wk_calls := wk_calls w + 1\<rparr>))"
| "serve env (WriteInferior bs eof deadline channel) w =
     (False, answer channel WrittenReplied (write_inferior env bs) w)"
| "serve env (ResizeInferior rows columns channel) w = (False, answer channel UnitReply (backend_call env) w)"

definition handle_request :: "WorkerEnv \<Rightarrow> WorkerRequest \<Rightarrow> Worker \<Rightarrow> bool \<times> Worker" where
  "handle_request env request w =
     (case serve env request w of (refused, w1) \<Rightarrow>
        if refused then (False, w1)
        else if wk_fatal w1 then (True, snd (backend_call env w1)) else (False, w1))"

section \<open>Control requests of an idle worker\<close>

definition require_in_time :: "nat \<Rightarrow> unit worker_act" where
  "require_in_time deadline w =
     (if deadline > wk_now w then Ok ()
      else Err (retryable (new_error Timeout ''interrupt deadline expired while queued'')), w)"

definition interrupt_now :: "CommandReply worker_act \<Rightarrow> CommandReply worker_act" where
  "interrupt_now m w = (case m w of (r, w1) \<Rightarrow> (r, finish_interrupt r w1))"

definition idle_interrupt :: "WorkerEnv \<Rightarrow> MiCommand \<Rightarrow> nat \<Rightarrow> CommandReply worker_act" where
  "idle_interrupt env c deadline =
     interrupt_now (act_bind (require_known_outcome env c) (\<lambda>_.
       act_bind (require_in_time deadline) (\<lambda>_. execute_until env c deadline)))"

definition idle_cancel :: "WorkerEnv \<Rightarrow> OperationId \<Rightarrow> unit worker_act" where
  "idle_cancel env operation_id =
     act_bind (owned_interrupt_command operation_id) (\<lambda>c.
     act_bind (interrupt_now (\<lambda>w. execute env c (wk_command_timeout w) w)) (\<lambda>_. act_return ()))"

fun handle_control :: "WorkerEnv \<Rightarrow> ControlRequest \<Rightarrow> Worker \<Rightarrow> bool \<times> Worker" where
  "handle_control env (RecordApi request channel) w =
     (let w1 = answer channel UnitReply (record_api env request) w in (wk_fatal w1, w1))"
| "handle_control env (RecordOperation operation channel) w =
     (let w1 = answer channel UnitReply (record_operation env operation) w in (wk_fatal w1, w1))"
| "handle_control env (ControlRequest.Interrupt c deadline channel) w =
     (let w1 = answer channel CommandReplied (idle_interrupt env c deadline) w in (wk_fatal w1, w1))"
| "handle_control env (CancelOperation operation_id InterruptTarget channel) w =
     (False, answer channel UnitReply (idle_cancel env operation_id) w)"
| "handle_control env (CancelOperation operation_id CloseSession channel) w =
     (case cancel_close env operation_id w of (r, w1) \<Rightarrow> (is_ok r, reply channel (UnitReply r) w1))"
| "handle_control env (Close channel) w = (True, answer channel UnitReply (close env) w)"

section \<open>The main loop\<close>

datatype RunInput =
    FlushTick
  | RunControl "ControlRequest option"
  | RunRequest "WorkerRequest option"
  | RunBackend "BackendInput option"
  | FallbackDue

definition rebind_first :: "WorkerEnv \<Rightarrow> Worker \<Rightarrow> Worker" where
  "rebind_first env w =
     (if wk_module_rebind_needed w \<and> wk_timed_out_tokens w = {} \<and> \<not> reconciliation_required (worker_session w)
      then snd (rebind_pending_module_breakpoints env (w\<lparr>wk_module_rebind_needed := False\<rparr>)) else w)"

definition shut_down :: "WorkerEnv \<Rightarrow> Worker \<Rightarrow> Worker" where
  "shut_down env w = snd (backend_call env w)"

definition unmatched_input :: "WorkerEnv \<Rightarrow> MiRecord \<Rightarrow> Worker \<Rightarrow> Worker" where
  "unmatched_input env record w =
     (case take_delayed_token record w of
        (Some tok, w1) \<Rightarrow> snd (handle_event env (CommandOutcomeResolved tok) w1)
      | (None, w1) \<Rightarrow> snd (handle_unmatched_result env record w1))"

definition idle_input :: "WorkerEnv \<Rightarrow> BackendInput \<Rightarrow> Worker \<Rightarrow> Worker" where
  "idle_input env input w =
     (case process_input env input w of
        (Ok (Some (record, _)), w1) \<Rightarrow> unmatched_input env record w1
      | (_, w1) \<Rightarrow> w1)"

text \<open>One iteration; the first component tells that the loop ends.\<close>

fun run_step :: "WorkerEnv \<Rightarrow> RunInput \<Rightarrow> Worker \<Rightarrow> bool \<times> Worker" where
  "run_step env FlushTick w =
     (case flush_journal env w of
        (Ok _, w1) \<Rightarrow> (False, w1)
      | (Err _, w1) \<Rightarrow> (True, shut_down env (mark_failed w1)))"
| "run_step env (RunControl None) w = (False, w\<lparr>wk_controls_open := False\<rparr>)"
| "run_step env (RunControl (Some c)) w = (if wk_controls_open w then handle_control env c w else (False, w))"
| "run_step env (RunRequest None) w = (True, snd (close env w))"
| "run_step env (RunRequest (Some r)) w = handle_request env r w"
| "run_step env (RunBackend None) w =
     (True, shut_down env (mark_failed (snd (handle_event env (BackendExited None) w))))"
| "run_step env (RunBackend (Some input)) w =
     (let w1 = idle_input env input w in if wk_fatal w1 then (True, shut_down env w1) else (False, w1))"
| "run_step env FallbackDue w =
     (case escalate_acknowledged_interrupt env w of
        (Ok _, w1) \<Rightarrow> (False, w1)
      | (Err _, w1) \<Rightarrow> (False, mark_failed w1))"

definition run_iteration :: "WorkerEnv \<Rightarrow> nat \<Rightarrow> RunInput \<Rightarrow> Worker \<Rightarrow> bool \<times> Worker" where
  "run_iteration env t input w =
     run_step env input ((rebind_first env w)\<lparr>wk_now := max (wk_now (rebind_first env w)) t\<rparr>)"

text \<open>After the loop.\<close>

definition finalize_late :: "WorkerEnv \<Rightarrow> Worker \<Rightarrow> Worker" where
  "finalize_late env w =
     (if wk_output_finalized w then w
      else (case finalize_output_evidence env (shut_down env w) of
              (Ok _, w1) \<Rightarrow> w1 | (Err _, w1) \<Rightarrow> mark_failed w1))"

definition run_end :: "WorkerEnv \<Rightarrow> Worker \<Rightarrow> Worker" where
  "run_end env w =
     (let w1 = finalize_late env w;
          w2 = (if wk_fatal w1
                then snd (store_call env (StoreCheckpoint (Some (worker_session w1, wk_profile w1)) []) w1)
                else snd (checkpoint env (handle_event env) False w1))
      in snd (with_journal env journal_flush w2))"

end
