(* ===== verification/Worker_Serve_Inv.thy ===== *)
theory Worker_Serve_Inv
  imports Worker_Serve
begin

text \<open>
  The invariants of \<open>loop_invariant\<close> along the requests and the iterations of the main loop.
\<close>

context loop_invariant
begin

lemma keep_update: "(\<And>w. same_session w (f w)) \<Longrightarrow> keeps I (act_update f)"
  by (intro keeps_update) (auto intro: same)

lemma keep_restoration: "keeps I (run_restoration env deadline cs)"
  by (induction cs) (simp_all add: keeps_simple keeps_bind keep_execute_until)

lemma keep_deferred: "keeps I (restore_deferred_commands env deadline)"
proof (rule keeps_intro)
  fix w assume w: "I w"
  have "keeps I (act_then (run_restoration env deadline cs) (\<lambda>r. case r of
      Err e \<Rightarrow> act_fail (restoration_error e)
    | Ok _ \<Rightarrow> act_update (\<lambda>w. w\<lparr>wk_deferred_restoration := []\<rparr>)))" for cs
    by (intro keeps_then keep_restoration keeps_case_res keeps_simple keep_update) (simp add: same_session_def)
  from keeps_snd [OF this w] w show "I (snd (restore_deferred_commands env deadline w))"
    by (simp add: restore_deferred_commands_def)
qed

lemma keep_cleanup:
  assumes w: "I w"
  shows "I (cleanup_one_stale_value env w)"
proof -
  let ?w1 = "w\<lparr>wk_stale_backend_values := butlast (wk_stale_backend_values w)\<rparr>"
  have w1: "I ?w1" by (rule same [OF w]) (simp add: same_session_def)
  have "I (case execute_until env c deadline ?w1 of (r, w2) \<Rightarrow>
      if outcome_open r then w2\<lparr>wk_stale_backend_values := wk_stale_backend_values w2 @ [name]\<rparr> else w2)"
    for c deadline name
  proof -
    obtain r w2 where e: "execute_until env c deadline ?w1 = (r, w2)" by (cases "execute_until env c deadline ?w1")
    have w2: "I w2" by (rule keepsD [OF keep_execute_until w1 e])
    have "I (w2\<lparr>wk_stale_backend_values := x\<rparr>)" for x by (rule same [OF w2]) (simp add: same_session_def)
    with w2 e show ?thesis by simp
  qed
  with w w1 show ?thesis
    unfolding cleanup_one_stale_value_def Let_def
    by (cases "bare_command ''-var-delete'' [last (wk_stale_backend_values w)]") simp_all
qed

section \<open>Module breakpoints\<close>

lemma keep_delete_moved: "keeps I (delete_moved env deadline old_number new_number)"
  unfolding delete_moved_def
  by (intro keeps_bind keeps_then keeps_case_res keeps_simple keep_execute_until keep_event)

lemma keep_replace_body: "keeps I (replace_body env b enabled c address deadline)"
  unfolding replace_body_def
  by (intro keeps_bind keeps_if keeps_simple keep_execute_until keep_event keep_delete_moved keep_update)
    (simp add: move_breakpoint_def same_session_def)

lemma keep_publish_deferred: "keeps I (publish_deferred env replaced)"
proof (rule keeps_intro)
  fix w assume w: "I w"
  have w1: "I (w\<lparr>wk_deferred_snapshot_ready := None\<rparr>)" by (rule same [OF w]) (simp add: same_session_def)
  from keeps_snd [OF keep_event w1] w1 show "I (snd (publish_deferred env replaced w))"
    by (simp add: publish_deferred_def Let_def split: option.split)
qed

lemma keep_replace: "keeps I (replace_module_breakpoint env b enabled c address deadline)"
  unfolding replace_module_breakpoint_def
  by (intro keeps_bind keeps_then keeps_simple keep_replace_body keep_publish_deferred keep_update)
    (simp_all add: same_session_def)

lemma keep_rebind_one: "keeps I (rebind_one env b)"
proof -
  have "keeps I (module_offset env)" by (rule keep_same) (simp add: module_offset_def same_session_def)
  moreover have "keeps I (\<lambda>w. case address of
         None \<Rightarrow> (Ok (), w)
       | Some a \<Rightarrow>
           replace_module_breakpoint env b (pm_enabled b)
             (command_string (pm_command b) (as_bytes (CHR ''*'' # a))) (Some a)
             (command_deadline (wk_now w) (wk_command_timeout w)) w)" for address
    by (rule keeps_intro) (simp add: keeps_snd [OF keep_replace] split: option.split)
  ultimately show ?thesis unfolding rebind_one_def by (intro keeps_bind)
qed

lemma keep_rebind: "keeps I (rebind_pending_module_breakpoints env)"
proof (rule keeps_intro)
  fix w assume w: "I w"
  have "keeps I (rebind_each env bs)" for bs
    by (induction bs) (simp_all add: keeps_simple keeps_bind keep_rebind_one)
  from keeps_snd [OF this w] w show "I (snd (rebind_pending_module_breakpoints env w))"
    by (simp add: rebind_pending_module_breakpoints_def)
qed

lemma keep_park: "keeps I (park_module_breakpoints env deadline)"
proof (rule keeps_intro)
  fix w assume w: "I w"
  have "keeps I (park_each env deadline bs)" for bs
    by (induction bs) (auto simp: keeps_simple intro!: keeps_bind keep_replace)
  then have "keeps I (act_bind (park_each env deadline bs) (\<lambda>_.
       act_update (\<lambda>w. if wk_pending_module_breakpoints w \<noteq> []
                        then w\<lparr>wk_module_rebind_needed := True\<rparr> else w)))" for bs
    by (intro keeps_bind keep_update) (simp_all add: same_session_def)
  from keeps_snd [OF this w] show "I (snd (park_module_breakpoints env deadline w))"
    by (simp add: park_module_breakpoints_def)
qed

section \<open>Safe evaluation\<close>

lemma keep_outcome: "keeps I (require_known_outcome env c)"
  unfolding require_known_outcome_def by (rule keep_known)

lemma keep_originals: "keeps I (read_originals env operation deadline settings)"
  by (induction settings) (auto simp: keeps_simple intro!: keeps_bind keep_active keep_execute_until)

lemma keep_guards: "keeps I (guard_settings env operation deadline settings guarded)"
proof (induction settings arbitrary: guarded)
  case (Cons setting rest)
  then show ?case
    by (simp only: guard_settings.simps)
      (intro keeps_then keeps_case_res keeps_bind keeps_if keeps_simple keep_active keep_execute_until)
qed (simp add: keeps_simple)

lemma keep_reads: "I w \<Longrightarrow> I (snd (run_reads env operation cs index deadline replies w))"
proof (induction cs arbitrary: index deadline replies w)
  case (Cons c cs)
  let ?m = "act_bind (require_active env operation) (\<lambda>_. require_known_outcome env c)"
  have m: "keeps I ?m" by (intro keeps_bind keep_active keep_outcome)
  obtain r w1 where w1: "?m w = (r, w1)" by (cases "?m w")
  have i1: "I w1" by (rule keepsD [OF m Cons.prems w1])
  let ?d = "if index > 0 then command_deadline (wk_now w1) (wk_command_timeout w1) else deadline"
  obtain r2 w2 where w2: "execute_until env c ?d w1 = (r2, w2)" by (cases "execute_until env c ?d w1")
  have "I w2" by (rule keepsD [OF keep_execute_until i1 w2])
  with Cons.IH i1 w1 w2 show ?case
    by (cases r; cases r2) (simp_all add: Let_def split del: if_split split: if_split)
qed simp

lemma keep_safe: "keeps I (execute_safe env cs operation deadline)"
proof -
  have rs: "keeps I (restore_settings env d restoration r)" for d restoration r
  proof (rule keeps_intro)
    fix w assume w: "I w"
    have w1: "I (w\<lparr>wk_deferred_restoration := restoration\<rparr>)" by (rule same [OF w]) (simp add: same_session_def)
    have a: "keeps I (act_bind (handle_event env ev) (\<lambda>_. act_result r))" for ev
      by (intro keeps_bind keep_event keeps_simple)
    have "keeps I (act_then (run_restoration env d restoration) (\<lambda>restored. case restored of
        Ok _ \<Rightarrow> act_result r
      | Err e \<Rightarrow> act_bind (handle_event env (ev e)) (\<lambda>_. act_fail e')))" for ev e'
      by (intro keeps_then keep_restoration keeps_case_res keeps_bind keep_event keeps_simple)
    with keeps_snd [OF a w1] w show "I (snd (restore_settings env d restoration r w))"
      by (simp add: restore_settings_def keeps_snd)
  qed
  have gr: "keeps I (guarded_reads env operation cs deadline originals guards)" for originals guards
  proof (rule keeps_intro)
    fix w assume w: "I w"
    let ?q = "case fst guards of
              Some e \<Rightarrow> ((Err e, deadline), w)
            | None \<Rightarrow> run_reads env operation cs 0 deadline [] w"
    have "I (snd ?q)" using w keep_reads by (simp split: option.split)
    moreover have "keeps I (act_bind (act_result x) (\<lambda>restoration. restore_settings env d restoration r))" for x d r
      by (intro keeps_bind keeps_simple rs)
    ultimately show "I (snd (guarded_reads env operation cs deadline originals guards w))"
      unfolding guarded_reads_def by (cases ?q; cases "fst ?q") (simp add: keeps_snd)
  qed
  show ?thesis
  proof (rule keeps_intro)
    fix w assume w: "I w"
    have "keeps I (act_bind (if inspect then read_originals env operation deadline settings
                  else act_return (map (\<lambda>s. (s, ''on'')) settings)) (\<lambda>originals.
        act_bind (guard_settings env operation deadline settings []) (\<lambda>setup.
          guarded_reads env operation cs deadline originals setup)))" for inspect settings
      by (intro keeps_bind keeps_if keep_originals keeps_simple keep_guards gr)
    from keeps_snd [OF this w] show "I (snd (execute_safe env cs operation deadline w))"
      by (simp add: execute_safe_def case_prod_beta)
  qed
qed

section \<open>Requests\<close>

lemma keep_answer: "keeps I m \<Longrightarrow> I w \<Longrightarrow> I (answer channel wrap m w)"
  by (cases "m w") (auto simp: answer_def dest: keepsD intro: keep_reply)

lemma keep_refuse_or:
  assumes "keeps I guard" "\<And>w. I w \<Longrightarrow> I (body w)" "I w"
  shows "I (snd (refuse_or channel wrap guard body w))"
proof -
  obtain r t where t: "guard w = (r, t)" by (cases "guard w")
  have "I t" by (rule keepsD [OF assms(1,3) t])
  with assms(2) t show ?thesis by (cases r) (simp_all add: refuse_or_def keep_reply)
qed

lemma keep_prepare: "keeps I (prepare_command env c deadline)"
  unfolding prepare_command_def
  by (intro keeps_bind keep_outcome keep_deferred keeps_if keep_park keeps_simple)

lemma keep_transaction: "keeps I (transaction env before c after operation deadline)"
proof -
  have su: "keeps I (run_setup env operation deadline cs)" for cs
    by (induction cs) (auto simp: keeps_simple intro!: keeps_bind keep_active keep_execute_until)
  have "keeps I (finish_transaction env deadline after r)" for r
  proof (rule keeps_intro)
    fix w assume w: "I w"
    have w1: "I (w\<lparr>wk_deferred_restoration := after\<rparr>)" by (rule same [OF w]) (simp add: same_session_def)
    have a: "keeps I (act_bind (handle_event env ev) (\<lambda>_. act_result r))" for ev
      by (intro keeps_bind keep_event keeps_simple)
    have "keeps I (act_then (run_restoration env deadline after) (\<lambda>restored. case restored of
        Ok _ \<Rightarrow> act_result r
      | Err e \<Rightarrow> act_then (handle_event env (ev e)) (\<lambda>_. act_fail e')))" for ev e'
      by (intro keeps_then keep_restoration keeps_case_res keep_event keeps_simple)
    with keeps_snd [OF a w1] w show "I (snd (finish_transaction env deadline after r w))"
      by (simp add: finish_transaction_def keeps_snd)
  qed
  then show ?thesis
    unfolding transaction_def by (intro keeps_then keeps_bind su keep_operation_until)
qed

lemma keep_outcomes: "keeps I (require_known_outcomes env cs)"
  by (induction cs) (simp_all add: keeps_simple keeps_bind keep_outcome)

lemma keep_refresh: "keeps I (refresh_request env operation deadline)"
  unfolding refresh_request_def refresh_target_capabilities_def
  by (intro keeps_bind keep_known keep_deferred keeps_simple keep_operation_until keep_update)
    (simp add: set_features_def Let_def same_session_def)

lemma keep_values:
  "keeps I (register_value b)" "keeps I (get_value value_id)" "keeps I (remove_value value_id)"
  by (rule keep_same; simp add: register_value_def get_value_def remove_value_def same_session_def)+

lemma keep_stored_change: "keeps I (stored_change env item)"
  by (rule keeps_intro) (simp add: stored_change_def keep_stored [OF keep_event])

lemma keep_add_tracking: "keeps I (add_tracking env d)"
proof (rule keeps_intro)
  fix w assume w: "I w"
  have "keeps I (act_bind (stored_change env item) (\<lambda>_.
      act_update (\<lambda>w. w\<lparr>wk_tracking := bt_insert (tracking_definition_id d) d (wk_tracking w)\<rparr>)))" for item
    by (intro keeps_bind keep_stored_change keep_update) (simp add: same_session_def)
  from keeps_snd [OF this w] w show "I (snd (add_tracking env d w))" by (simp add: add_tracking_def)
qed

lemma keep_remove_tracking: "keeps I (remove_tracking env tracking_id)"
proof (rule keeps_intro)
  fix w assume w: "I w"
  have "keeps I (act_bind (stored_change env item) (\<lambda>_.
      act_bind (act_update (\<lambda>w. w\<lparr>wk_tracking := bt_remove tracking_id (wk_tracking w),
        wk_tracking_history := bt_remove tracking_id (wk_tracking_history w)\<rparr>)) (\<lambda>_. act_return d)))" for item d
    by (intro keeps_bind keep_stored_change keep_update keeps_simple) (simp add: same_session_def)
  from keeps_snd [OF this w] w show "I (snd (remove_tracking env tracking_id w))"
    by (cases "bt_get (wk_tracking w) tracking_id") (simp_all add: remove_tracking_def)
qed

lemma same_observations:
  "same_session w (snd (record_observations env observations changes w))"
proof (induction env observations changes w rule: record_observations.induct)
  case (2 e i current rest changes w)
  then show ?case
    by (auto simp: Let_def same_session_def split: option.split prod.split)
qed (simp add: same_session_def)

lemma keep_context: "keeps I (require_context message stop epoch)"
  by (rule keep_same) (simp add: require_context_def same_session_def)

lemma keep_record_tracking: "keeps I (record_tracking env observations stop epoch operation)"
proof -
  have "keeps I (\<lambda>w. case record_observations env observations [] w of (changes, w1) \<Rightarrow> (Ok changes, w1))"
    by (rule keep_same) (use same_observations in \<open>simp add: case_prod_beta\<close>)
  then show ?thesis unfolding record_tracking_def by (intro keeps_bind keep_active keep_context)
qed

lemma keep_commit_snapshot: "keeps I (commit_snapshot env snap stop epoch partial publish operation)"
  unfolding commit_snapshot_def
  by (intro keeps_bind keep_active keep_context keeps_simple keep_store_snapshot keep_event keeps_if)

lemma keep_flush: "keeps I (flush_journal env)"
  unfolding flush_journal_def
  by (intro keep_journaled keep_event fails_safe_bind safe_keeps keep_checkpoint flushing)

lemma keep_write: "keeps I (write_inferior env bs)"
proof -
  have "keeps I (journaled env (\<lambda>io. append_inferior_input (ev_codec env) io bs))"
    unfolding append_inferior_input_def append_base64_def by (rule keep_plain) (simp add: plain_kinds_def)
  moreover have "keeps I (write_backend env)" by (rule keep_same) (simp add: write_backend_def same_session_def)
  ultimately show ?thesis unfolding write_inferior_def by (intro keeps_bind)
qed

lemma keep_serve:
  assumes w: "I w"
  shows "I (snd (serve env request w))"
proof (cases request)
  case (Command c operation deadline channel)
  with w show ?thesis
    by (simp add: keep_refuse_or keep_prepare keep_cleanup keep_answer keep_operation_until)
next
  case (Transaction before c after operation deadline channel)
  with w show ?thesis
    by (simp add: keep_refuse_or keep_prepare keep_cleanup keep_answer keep_transaction)
next
  case (SafeEvaluate cs operation deadline channel)
  with w show ?thesis
    by (simp add: keep_refuse_or keeps_bind keep_outcomes keep_deferred keep_cleanup keep_answer keep_safe)
next
  case (RegisterPendingModuleBreakpoint b channel)
  have "I (register_breakpoint b w)" by (rule same [OF w]) (simp add: register_breakpoint_def same_session_def)
  with w RegisterPendingModuleBreakpoint show ?thesis by (simp add: keep_reply)
next
  case (ReadOutput ring after_offset max_bytes channel)
  have "I (w\<lparr>wk_calls := wk_calls w + 1\<rparr>)" by (rule same [OF w]) (simp add: same_session_def)
  with ReadOutput show ?thesis by (simp add: keep_reply)
qed (use w in \<open>simp_all add: keep_reply keep_answer keep_event keep_flush keep_cleanup keep_refresh keep_values
      keep_add_tracking keep_remove_tracking keep_record_tracking keep_commit_snapshot keep_write keep_backend_call\<close>)

lemma keep_request: "I w \<Longrightarrow> I (snd (handle_request env request w))"
proof -
  assume "I w"
  then have s: "I (snd (serve env request w))" by (rule keep_serve)
  obtain refused w1 where w1: "serve env request w = (refused, w1)" by (cases "serve env request w")
  with s have "I w1" by simp
  with w1 keeps_snd [OF keep_backend_call this] show "I (snd (handle_request env request w))"
    by (simp add: handle_request_def)
qed

section \<open>Control requests and the main loop\<close>

lemma keep_finish_interrupt: "I w \<Longrightarrow> I (finish_interrupt r w)"
  using waiting by (simp add: finish_interrupt_def)

lemma keep_interrupt_now: "keeps I m \<Longrightarrow> keeps I (interrupt_now m)"
  by (rule keeps_intro) (auto simp: interrupt_now_def case_prod_beta intro: keep_finish_interrupt dest: keeps_snd)

lemma keep_idle_interrupt: "keeps I (idle_interrupt env c deadline)"
proof -
  have "keeps I (require_in_time t)" for t
    by (rule keep_same) (simp add: require_in_time_def same_session_def)
  then show ?thesis
    unfolding idle_interrupt_def by (intro keep_interrupt_now keeps_bind keep_outcome keep_execute_until)
qed

lemma keep_idle_cancel: "keeps I (idle_cancel env operation_id)"
proof -
  have "keeps I (owned_interrupt_command operation_id)"
    unfolding owned_interrupt_command_def
    by (intro keeps_bind keeps_simple keep_same) (simp add: require_active_resume_def same_session_def)
  moreover have "keeps I (\<lambda>w. execute env c (wk_command_timeout w) w)" for c
    by (rule keeps_intro) (rule keeps_snd [OF keep_execute])
  ultimately show ?thesis
    unfolding idle_cancel_def by (intro keeps_bind keep_interrupt_now keeps_simple)
qed

lemma keep_control:
  assumes w: "I w" and run: "handle_control env c w = (False, w')"
  shows "I w'"
proof (cases c)
  case (CancelOperation operation_id mode channel)
  show ?thesis
  proof (cases mode)
    case InterruptTarget
    with CancelOperation w run show ?thesis by (auto intro!: keep_answer keep_idle_cancel)
  next
    case CloseSession
    obtain r t where t: "close env w = (r, t)" by (cases "close env w")
    have "cancel_close env operation_id w = (r, t) \<or> (\<exists>e. cancel_close env operation_id w = (Err e, w))"
      using t by (auto simp: cancel_close_def act_bind_def require_active_resume_def)
    with closing [OF w t] w run CancelOperation CloseSession show ?thesis by (auto simp: keep_reply)
  qed
qed (use w run in \<open>auto simp: Let_def intro!: keep_answer keep_record_api keep_record_operation keep_idle_interrupt\<close>)

lemma keep_unmatched_input: "I w \<Longrightarrow> I (unmatched_input env rd w)"
proof -
  assume w: "I w"
  obtain d w1 where d: "take_delayed_token rd w = (d, w1)" by (cases "take_delayed_token rd w")
  have "same_session w w1" using d
    by (auto simp: take_delayed_token_def same_session_def split: if_splits option.splits MiRecord.splits)
  then have "I w1" by (rule same [OF w])
  with d keeps_snd [OF keep_event this] keeps_snd [OF keep_unmatched this]
  show "I (unmatched_input env rd w)" by (simp add: unmatched_input_def split: option.split)
qed

lemma keep_idle_input:
  assumes w: "I w" and adm: "\<And>raw rd. input = Mi raw rd \<Longrightarrow> admissible raw rd"
  shows "I (idle_input env input w)"
proof -
  obtain r w1 where r: "process_input env input w = (r, w1)" by (cases "process_input env input w")
  have "keeps I (process_input env input)" by (intro keep_input adm)
  from keepsD [OF this w r] r show ?thesis
    by (auto simp: idle_input_def keep_unmatched_input split: sum.split option.split)
qed

text \<open>An iteration after which the loop goes on, unless it is one in which the delayed interrupt could
  not be delivered.\<close>

lemma keep_run_step:
  assumes w: "I w" and run: "run_step env input w = (False, w')"
    and adm: "\<And>raw rd. input = RunBackend (Some (Mi raw rd)) \<Longrightarrow> admissible raw rd"
    and due: "input = FallbackDue \<Longrightarrow> is_ok (fst (escalate_acknowledged_interrupt env w))"
  shows "I w'"
proof (cases input)
  case FlushTick
  obtain r t where t: "flush_journal env w = (r, t)" by (cases "flush_journal env w")
  have "I t" by (rule keepsD [OF keep_flush w t])
  with FlushTick run t show ?thesis by (cases r) auto
next
  case (RunControl c)
  have "I (w\<lparr>wk_controls_open := False\<rparr>)" by (rule same [OF w]) (simp add: same_session_def)
  with RunControl run w keep_control [OF w] show ?thesis by (cases c) (auto split: if_splits)
next
  case (RunRequest r)
  with run keep_request [OF w] show ?thesis by (cases r) (simp, metis run_step.simps(5) snd_conv)
next
  case (RunBackend i)
  with run obtain b where i: "i = Some b" by (cases i) auto
  from i RunBackend adm have "I (idle_input env b w)" by (intro keep_idle_input w) auto
  with i RunBackend run show ?thesis by (auto simp: Let_def split: if_splits)
next
  case FallbackDue
  obtain r t where t: "escalate_acknowledged_interrupt env w = (r, t)"
    by (cases "escalate_acknowledged_interrupt env w")
  have "I t" by (rule keepsD [OF keep_escalate w t])
  with FallbackDue run t due show ?thesis by (cases r) auto
qed

lemma keep_rebind_first: "I w \<Longrightarrow> I (rebind_first env w)"
proof -
  assume w: "I w"
  have "I (w\<lparr>wk_module_rebind_needed := False\<rparr>)" by (rule same [OF w]) (simp add: same_session_def)
  from keeps_snd [OF keep_rebind this] w show "I (rebind_first env w)" by (simp add: rebind_first_def)
qed

end

end
