(* ===== verification/Worker_Replay.thy ===== *)
theory Worker_Replay
  imports Worker_Serve_Inv Replay_Sound
begin

text \<open>
  The journal of a live session against its replay: as long as the worker has not failed, the records
  it has written are accepted by \<open>replay\<close>, and as long as the journal records at all, the state that
  replay rebuilds from them is the worker's own state.
\<close>

section \<open>What the serialisation promises\<close>

text \<open>The laws of \<open>serde_json\<close> and \<open>base64\<close> that the journal relies on: reading back a value that was
  written gives the value.\<close>

definition codec_laws :: "'v Codec \<Rightarrow> bool" where
  "codec_laws cd \<longleftrightarrow>
     (\<forall>ev. cd_from_event cd (cd_event cd ev) = Ok ev) \<and> (\<forall>s. cd_from_state cd (cd_state cd s) = Ok s) \<and>
     (\<forall>g. cd_from_gap cd (cd_gap cd g) = Ok g) \<and> (\<forall>kvs k. cd_get cd (cd_object cd kvs) k = map_of kvs k) \<and>
     (\<forall>s. cd_as_str cd (cd_string cd s) = Some s) \<and> (\<forall>n. cd_as_u64 cd (cd_number cd n) = Some n) \<and>
     (\<forall>bs. cd_unbase64 cd (cd_base64 cd bs) = Ok bs)"

lemma codec_lawsD:
  assumes "codec_laws cd"
  shows "cd_from_event cd (cd_event cd ev) = Ok ev" "cd_from_state cd (cd_state cd s) = Ok s"
    "cd_from_gap cd (cd_gap cd g) = Ok g" "cd_get cd (cd_object cd kvs) k = map_of kvs k"
    "cd_as_str cd (cd_string cd t) = Some t" "cd_as_u64 cd (cd_number cd n) = Some n"
    "cd_unbase64 cd (cd_base64 cd bs) = Ok bs"
  using assms by (simp_all add: codec_laws_def)

section \<open>The journal mirrors a state\<close>

text \<open>The accumulator of a replay that stands at a state, with the MI record \<open>p\<close> still waiting for its
  event and the next record numbered \<open>n\<close>.  Until the first normalised event (\<open>seen\<close>) the session is new,
  and replay tries the MI records themselves.\<close>

definition stands_at :: "bool \<Rightarrow> (nat \<times> DomainEvent) option \<Rightarrow> SessionState \<Rightarrow> SessionState \<Rightarrow> bool" where
  "stands_at seen p rs s \<longleftrightarrow>
     (if seen then rs = s else s = creating (session_id rs) \<and> (p = None \<longrightarrow> rs = s))"

definition tracks ::
  "bool \<Rightarrow> (nat \<times> DomainEvent) option \<Rightarrow> 'v ReplayAcc \<Rightarrow> SessionState \<Rightarrow> nat \<Rightarrow> bool" where
  "tracks seen p acc s n \<longleftrightarrow>
     stands_at seen p (ra_state acc) s \<and> ra_saw_normalized acc = seen \<and> ra_version acc = normalization_version \<and>
     ra_pending acc = p \<and> ra_unmatched acc = None \<and> \<not> ra_complete acc \<and> ra_gap acc = None \<and>
     Suc (ra_last_seq acc) = n"

definition mirrors ::
  "'v Codec \<Rightarrow> SessionId \<Rightarrow> bool \<Rightarrow> (nat \<times> DomainEvent) option \<Rightarrow> 'v Journal \<Rightarrow> SessionState \<Rightarrow> bool" where
  "mirrors cd sid seen p j s \<longleftrightarrow>
     journal_wf cd j \<and>
     (\<exists>acc. replay_entries cd (jr_written j) (replay_init sid) = Ok acc \<and>
        (jr_open j \<longrightarrow> tracks seen p acc s (jr_next_seq j)))"

text \<open>How replay reads one more record.\<close>

definition reads ::
  "'v Codec \<Rightarrow> bool \<Rightarrow> (nat \<times> DomainEvent) option \<Rightarrow> SessionState \<Rightarrow> 'v JournalEntry \<Rightarrow>
     bool \<Rightarrow> (nat \<times> DomainEvent) option \<Rightarrow> SessionState \<Rightarrow> bool" where
  "reads cd seen p s e seen' p' s' \<longleftrightarrow>
     (\<forall>acc. tracks seen p acc s (ent_seq e) \<longrightarrow>
        (\<exists>acc'. replay_kind cd e (counted e acc) = Ok acc' \<and> tracks seen' p' acc' s' (Suc (ent_seq e))))"

lemma tracks_entry:
  assumes "tracks seen p acc s (ent_seq e)"
  shows "replay_entry cd e acc = replay_kind cd e (counted e acc)"
  using assms by (simp add: tracks_def replay_entry_def require_next_sequence_def)

lemma mirrors_closed: "mirrors cd sid seen p j s \<Longrightarrow> \<not> jr_open j \<Longrightarrow> mirrors cd sid seen' p' j s'"
  by (auto simp: mirrors_def)

lemma append_replays:
  assumes wf: "journal_wf cd j" and laws: "codec_laws cd"
    and acc: "replay_entries cd (jr_written j) (replay_init sid) = Ok acc"
    and live: "jr_open j \<Longrightarrow> \<not> ra_complete acc \<and> ra_gap acc = None \<and> Suc (ra_last_seq acc) = jr_next_seq j"
    and step: "\<And>e. jr_open j \<Longrightarrow> e = \<lparr>ent_seq = jr_next_seq j, ent_kind = kind, ent_data = v\<rparr> \<Longrightarrow>
      \<exists>acc'. replay_kind cd e (counted e acc) = Ok acc' \<and> P acc'"
    and run: "append_entry cd io kind v j = (Ok seq, j')"
  shows "\<exists>acc'. replay_entries cd (jr_written j') (replay_init sid) = Ok acc' \<and> (jr_open j' \<longrightarrow> P acc')"
proof -
  let ?e = "\<lparr>ent_seq = jr_next_seq j, ent_kind = kind, ent_data = v\<rparr>"
  have snoc: "replay_entries cd (jr_written j @ [e]) (replay_init sid) = replay_kind cd e (counted e acc)"
    if "jr_open j" "ent_seq e = jr_next_seq j" for e
    using acc live that by (simp add: replay_entries_snoc replay_entry_def require_next_sequence_def)
  from run wf show ?thesis
  proof (cases rule: append_entry_cases)
    case closed
    then show ?thesis using acc by auto
  next
    case (accepted j2)
    have "jr_written j2 = jr_written j @ [?e]" using accepted(3) by (simp add: accept_record_def)
    then have "jr_written j' = jr_written j @ [?e]"
      using accepted(4) journal_flush_frame(2) by metis
    with step [OF accepted(2) refl] snoc [OF accepted(2), of ?e] show ?thesis by auto
  next
    case stopped
    have "replay_kind cd (gap_entry cd (jr_next_seq j)) (counted (gap_entry cd (jr_next_seq j)) acc) \<noteq> Err e" for e
      using codec_lawsD(3) [OF laws] by (auto simp: gap_entry_def replay_kind_def replay_gap_def Let_def)
    then obtain acc' where
      "replay_kind cd (gap_entry cd (jr_next_seq j)) (counted (gap_entry cd (jr_next_seq j)) acc) = Ok acc'"
      by (cases "replay_kind cd (gap_entry cd (jr_next_seq j)) (counted (gap_entry cd (jr_next_seq j)) acc)") auto
    then show ?thesis
      using stopped snoc [of "gap_entry cd (jr_next_seq j)"] acc by (auto simp: gap_entry_def)
  qed simp
qed

lemma append_mirrors:
  assumes m: "mirrors cd sid seen p j s" and laws: "codec_laws cd"
    and r: "reads cd seen p s \<lparr>ent_seq = jr_next_seq j, ent_kind = kind, ent_data = v\<rparr> seen' p' s'"
    and run: "append_entry cd io kind v j = (Ok seq, j')"
  shows "mirrors cd sid seen' p' j' s'" "seq = jr_next_seq j"
proof -
  from m obtain acc where wf: "journal_wf cd j"
      and acc: "replay_entries cd (jr_written j) (replay_init sid) = Ok acc"
      and t: "jr_open j \<longrightarrow> tracks seen p acc s (jr_next_seq j)"
    by (auto simp: mirrors_def)
  note w = append_entry_wf [OF run wf]
  show "seq = jr_next_seq j" using w by simp
  have "\<exists>acc'. replay_entries cd (jr_written j') (replay_init sid) = Ok acc' \<and>
      (jr_open j' \<longrightarrow> tracks seen' p' acc' s' (Suc (jr_next_seq j)))"
    by (rule append_replays [OF wf laws acc _ _ run]) (use t r in \<open>auto simp: tracks_def reads_def\<close>)
  with w show "mirrors cd sid seen' p' j' s'" by (simp add: mirrors_def)
qed

lemma flush_mirrors:
  assumes "mirrors cd sid seen p j s" "journal_flush io j = (Ok (), j')"
  shows "mirrors cd sid seen p j' s"
  using assms flush_wf [of cd j io "Ok ()" j'] journal_flush_frame [of io j "Ok ()" j']
  by (auto simp: mirrors_def)

lemma boundary_mirrors:
  assumes m: "mirrors cd sid seen p j s" and laws: "codec_laws cd"
    and r: "reads cd seen p s \<lparr>ent_seq = jr_next_seq j, ent_kind = kind, ent_data = v\<rparr> seen' p' s'"
    and run: "act_bind (append_entry cd io kind v) (flush_boundary io) j = (Ok seq, j')"
  shows "mirrors cd sid seen' p' j' s'"
proof -
  from run obtain n j1 where a: "append_entry cd io kind v j = (Ok n, j1)"
      and f: "flush_boundary io n j1 = (Ok seq, j')"
    by (auto simp: act_bind_Ok)
  have "mirrors cd sid seen' p' j1 s'" by (rule append_mirrors(1) [OF m laws r a])
  moreover have "j' = j1 \<or> journal_flush io j1 = (Ok (), j')"
    using f by (auto simp: flush_boundary_def act_bind_def act_return_def split: if_splits prod.splits sum.splits)
  ultimately show ?thesis using flush_mirrors by blast
qed

section \<open>The kinds of record the worker writes\<close>

lemma reads_plain:
  assumes "kind \<notin> {''session.created'', ''mi.output'', ''normalized.event'', ''state.revision'',
      ''snapshot.result'', ''journal.gap'', ''journal.closed''}"
  shows "reads cd seen p s \<lparr>ent_seq = n, ent_kind = kind, ent_data = v\<rparr> seen p s"
  using assms by (auto simp: reads_def replay_kind_def tracks_def)

lemma reads_snapshot: "reads cd seen p s \<lparr>ent_seq = n, ent_kind = ''snapshot.result'', ent_data = v\<rparr> seen p s"
  by (auto simp: reads_def replay_kind_def tracks_def)

lemma reads_state:
  assumes "codec_laws cd"
  shows "reads cd True p s \<lparr>ent_seq = n, ent_kind = ''state.revision'',
    ent_data = cd_object cd [(''revision'', cd_number cd (revision s)), (''state'', cd_state cd s)]\<rparr> True p s"
  using codec_lawsD [OF assms]
  by (auto simp: reads_def replay_kind_def replay_checkpoint_def ok_or_def tracks_def stands_at_def)

lemma reads_event:
  assumes laws: "codec_laws cd" and ev: "apply_event s n ev = Ok (s', c)"
    and p: "p = None \<or> (\<exists>m. p = Some (m, ev) \<and> n = Suc m)"
  shows "reads cd seen p s \<lparr>ent_seq = n, ent_kind = ''normalized.event'', ent_data = cd_event cd ev\<rparr> True None s'"
  using p ev codec_lawsD(1) [OF laws]
  by (auto simp: reads_def replay_kind_def replay_normalized_def match_pending_def tracks_def stands_at_def)

lemma stands_at_new: "stands_at False None rs s \<Longrightarrow> \<exists>x. rs = creating x \<and> s = creating x"
  unfolding stands_at_def by metis

lemma reads_mi:
  assumes laws: "codec_laws cd" and raw: "parse_record raw default_limits = Some (Ok rd)"
  shows "reads cd seen None s \<lparr>ent_seq = n, ent_kind = ''mi.output'',
      ent_data = cd_object cd [(''raw_base64'', cd_string cd (cd_base64 cd raw))]\<rparr>
    seen (map_option (Pair n) (normalize rd)) s"
proof -
  let ?e = "\<lparr>ent_seq = n, ent_kind = ''mi.output'',
    ent_data = cd_object cd [(''raw_base64'', cd_string cd (cd_base64 cd raw))]\<rparr>"
  have "replay_raw cd (ent_data ?e) = Ok rd"
    using codec_lawsD [OF laws] raw by (simp add: replay_raw_def ok_or_def)
  note raw = this
  show ?thesis
  proof (cases seen)
    case True
    with raw show ?thesis
      by (cases "normalize rd")
        (auto simp: reads_def replay_kind_def replay_mi_output_def tracks_def stands_at_def
          normalization_version_def Let_def)
  next
    case False
    have "\<exists>s' c. apply_event (creating x) (Suc m) ev = Ok (s', c) \<and> session_id s' = x" for x m ev
    proof -
      obtain s' c where "apply_event (creating x) (Suc m) ev = Ok (s', c)"
        unfolding apply_event_Ok by (simp add: creating_def prod_eq_iff del: reduce.simps)
      then show ?thesis using apply_event_session by fastforce
    qed
    note new = this
    show ?thesis
    proof (cases "normalize rd")
      case None
      with raw show ?thesis
        by (auto simp: reads_def replay_kind_def replay_mi_output_def tracks_def Let_def)
    next
      case (Some ev)
      show ?thesis
        unfolding reads_def
      proof (intro allI impI)
        fix acc :: "'a ReplayAcc"
        assume t: "tracks seen None acc s (ent_seq ?e)"
        then have "stands_at False None (ra_state acc) s" and n: "n = Suc (ra_last_seq acc)"
          using False by (simp_all add: tracks_def)
        then obtain x where st: "ra_state acc = creating x" "s = creating x" using stands_at_new by blast
        obtain s' c where "apply_event (creating x) n ev = Ok (s', c)" "session_id s' = x"
          using new unfolding n by blast
        moreover have "\<not> ra_saw_normalized acc" "ra_version acc = normalization_version" "ra_pending acc = None"
            "ra_unmatched acc = None" "\<not> ra_complete acc" "ra_gap acc = None" "Suc (ra_last_seq acc) = n"
          using t False by (simp_all add: tracks_def)
        ultimately show "\<exists>acc'. replay_kind cd ?e (counted ?e acc) = Ok acc' \<and>
            tracks seen (map_option (Pair n) (normalize rd)) acc' s (Suc (ent_seq ?e))"
          using st raw Some False
          by (simp add: replay_kind_def replay_mi_output_def tracks_def stands_at_def normalization_version_def Let_def)
      qed
    qed
  qed
qed

section \<open>The invariant of the worker\<close>

definition inbox_ok :: "Worker \<Rightarrow> bool" where
  "inbox_ok w \<longleftrightarrow>
     (\<forall>t raw rd. (t, BackendReady (Some (Mi raw rd))) \<in> set (wk_inbox w) \<longrightarrow>
        parse_record raw default_limits = Some (Ok rd))"

definition mirrored_at ::
  "WorkerEnv \<Rightarrow> SessionId \<Rightarrow> bool \<Rightarrow> (nat \<times> DomainEvent) option \<Rightarrow> Worker \<Rightarrow> bool" where
  "mirrored_at env sid seen p w \<longleftrightarrow>
     inbox_ok w \<and>
     (codec_laws (ev_codec env) \<and> \<not> wk_fatal w \<longrightarrow>
        mirrors (ev_codec env) sid seen p (wk_journal w) (worker_session w))"

abbreviation mirrored :: "WorkerEnv \<Rightarrow> SessionId \<Rightarrow> Worker \<Rightarrow> bool" where
  "mirrored env sid \<equiv> mirrored_at env sid True None"

lemma mirrored_same:
  assumes "mirrored_at env sid seen p w" "wk_journal w' = wk_journal w" "worker_session w' = worker_session w"
    "wk_inbox w' = wk_inbox w" "wk_fatal w \<Longrightarrow> wk_fatal w'"
  shows "mirrored_at env sid seen p w'"
  using assms by (auto simp: mirrored_at_def inbox_ok_def)

lemma mirrored_fatal: "mirrored_at env sid seen p w \<Longrightarrow> wk_inbox w' = wk_inbox w \<Longrightarrow> wk_fatal w' \<Longrightarrow> mirrored_at env sid seen' p' w'"
  by (simp add: mirrored_at_def inbox_ok_def)

lemma with_journal_frame:
  assumes "with_journal env m w = (r, w')"
  shows "wk_inbox w' = wk_inbox w" "wk_fatal w' = wk_fatal w" "wk_state w' = wk_state w"
    "m (ev_io env (wk_calls w)) (wk_journal w) = (r, wk_journal w')"
    "wk_journal_gap_reported w' = wk_journal_gap_reported w"
  using assms by (auto simp: with_journal_def split: prod.splits)

lemma mirrored_append:
  assumes m: "mirrored_at env sid seen p w" and run: "with_journal env m w = (r, w')"
    and step: "\<And>x j'. codec_laws (ev_codec env) \<Longrightarrow>
      mirrors (ev_codec env) sid seen p (wk_journal w) (worker_session w) \<Longrightarrow>
      m (ev_io env (wk_calls w)) (wk_journal w) = (Ok x, j') \<Longrightarrow>
      mirrors (ev_codec env) sid seen' p' j' (worker_session w)"
  shows "(is_ok r \<longrightarrow> mirrored_at env sid seen' p' w') \<and> mirrored_at env sid seen' p' (fail_worker w')"
proof
  note f = with_journal_frame [OF run]
  show "mirrored_at env sid seen' p' (fail_worker w')" by (rule mirrored_fatal [OF m]) (simp_all add: f(1))
  show "is_ok r \<longrightarrow> mirrored_at env sid seen' p' w'"
  proof
    assume "is_ok r"
    then obtain x where x: "r = Ok x" by (cases r) auto
    with f(4) step have "codec_laws (ev_codec env) \<Longrightarrow> mirrors (ev_codec env) sid seen p (wk_journal w) (worker_session w) \<Longrightarrow>
        mirrors (ev_codec env) sid seen' p' (wk_journal w') (worker_session w)" by simp
    with m f(1-3) show "mirrored_at env sid seen' p' w'" by (auto simp: mirrored_at_def inbox_ok_def)
  qed
qed

lemma reduce_event_frame:
  assumes "reduce_event b n ev w = (r, w')"
  shows "wk_journal w' = wk_journal w" "wk_inbox w' = wk_inbox w" "wk_fatal w' = wk_fatal w"
    "r = Ok c \<Longrightarrow> apply_event (worker_session w) n ev = Ok (worker_session w', c)"
  using assms
  by (auto simp: reduce_event_def live_apply_event_with_def live_borrow_def send_replace_def
      split: option.splits sum.splits prod.splits)

lemma publish_event_frame [simp]:
  "wk_journal (publish_event n ev w) = wk_journal w" "wk_inbox (publish_event n ev w) = wk_inbox w"
  "wk_fatal (publish_event n ev w) = wk_fatal w"
  "worker_session (publish_event n ev w) = worker_session w"
  by (simp_all add: publish_event_def Let_def live_publish_def live_borrow_def send_replace_def split: option.split)

text \<open>The record of an event together with its reduction, also when its MI record has just been
  written.\<close>

lemma event_written:
  assumes m: "mirrored_at env sid seen p w"
    and p: "jr_open (wk_journal w) \<Longrightarrow> p = None \<or> (\<exists>k. p = Some (k, ev) \<and> jr_next_seq (wk_journal w) = Suc k)"
    and run: "append_domain_ref (ev_codec env) io ev (wk_journal w) = (Ok n, wk_journal w')"
    and ev: "apply_event (worker_session w) n ev = Ok (worker_session w', c)"
    and fr: "wk_inbox w' = wk_inbox w" "wk_fatal w' = wk_fatal w"
  shows "mirrored env sid w'"
proof (cases "wk_fatal w \<or> \<not> codec_laws (ev_codec env)")
  case True
  with m fr show ?thesis by (auto simp: mirrored_at_def inbox_ok_def)
next
  case False
  let ?cd = "ev_codec env"
  have laws: "codec_laws ?cd" using False by simp
  have ap: "append_entry ?cd io ''normalized.event'' (cd_event ?cd ev) (wk_journal w) = (Ok n, wk_journal w')"
    using run by (simp add: append_domain_ref_def)
  from False m have mi: "mirrors ?cd sid seen p (wk_journal w) (worker_session w)" by (simp add: mirrored_at_def)
  then have n: "n = jr_next_seq (wk_journal w)"
    using append_entry_wf [OF ap] by (simp add: mirrors_def)
  have "mirrors ?cd sid True None (wk_journal w') (worker_session w')"
  proof (cases "jr_open (wk_journal w)")
    case True
    show ?thesis
      by (rule append_mirrors(1) [OF mi laws reads_event [OF laws] ap]) (use ev n p [OF True] in auto)
  next
    case False
    then have "append_entry ?cd io ''normalized.event'' (cd_event ?cd ev) (wk_journal w)
        = (Ok (jr_next_seq (wk_journal w)), (wk_journal w)\<lparr>jr_next_seq := jr_next_seq (wk_journal w) + 1\<rparr>)"
      by (simp add: append_entry_def Let_def)
    with ap have "wk_journal w' = (wk_journal w)\<lparr>jr_next_seq := jr_next_seq (wk_journal w) + 1\<rparr>" by auto
    with False mi append_entry_wf [OF ap] show ?thesis by (auto simp: mirrors_def)
  qed
  with m fr show ?thesis by (simp add: mirrored_at_def inbox_ok_def)
qed

text \<open>The event up to its publication.\<close>

lemma core_mirrored:
  assumes m: "mirrored_at env sid seen p w"
    and p: "jr_open (wk_journal w) \<Longrightarrow> p = None \<or> (\<exists>k. p = Some (k, ev) \<and> jr_next_seq (wk_journal w) = Suc k)"
    and chk: "\<And>closing. keeps (mirrored env sid) (checkpoint env handle closing)"
    and run: "apply_event_core env handle ev w = (r, w')"
  shows "(is_ok r \<longrightarrow> mirrored env sid w') \<and> mirrored env sid (fail_worker w')"
proof -
  let ?w0 = "before_event ev w"
  let ?cd = "ev_codec env"
  obtain r1 w1 where a: "with_journal env (\<lambda>io. append_domain_ref ?cd io ev) ?w0 = (r1, w1)"
    by (cases "with_journal env (\<lambda>io. append_domain_ref ?cd io ev) ?w0")
  note fa = with_journal_frame [OF a]
  show ?thesis
  proof (cases r1)
    case (Inl e)
    with run a have "r = Err e" "w' = w1" by (auto simp: apply_event_core_def Let_def act_bind_def)
    with fa(1) show ?thesis by (auto intro: mirrored_fatal [OF m])
  next
    case (Inr n)
    obtain r2 w2 where b: "reduce_event (invalidates_values (worker_session w) ev) n ev w1 = (r2, w2)"
      by (cases "reduce_event (invalidates_values (worker_session w) ev) n ev w1")
    note fb = reduce_event_frame [OF b]
    show ?thesis
    proof (cases r2)
      case (Inl e)
      with run a Inr b have "r = Err e" "w' = w2" by (auto simp: apply_event_core_def Let_def act_bind_def)
      with fa(1) fb(2) show ?thesis by (auto intro: mirrored_fatal [OF m])
    next
      case (Inr c)
      have "apply_event (worker_session w) n ev = Ok (worker_session w2, c)"
        using fb(4) [OF Inr] fa(3) by simp
      then have "mirrored env sid w2"
        using fa(4) \<open>r1 = Ok n\<close> fa(1,2) fb(1-3) by (intro event_written [OF m p]) simp_all
      moreover have chg: "keeps (mirrored env sid) (checkpoint_change env handle b)" for b
      proof (rule keeps_intro)
        fix v assume "mirrored env sid v"
        then have "mirrored env sid (v\<lparr>wk_state_dirty := d\<rparr>)" for d by (rule mirrored_same) simp_all
        with keeps_snd [OF chk] show "mirrored env sid (snd (checkpoint_change env handle b v))"
          by (simp add: checkpoint_change_def Let_def)
      qed
      have "keeps (mirrored env sid) (act_bind (checkpoint_change env handle c) (\<lambda>_.
          act_bind (act_update (publish_event n ev)) (\<lambda>_. act_return n)))"
        by (intro keeps_bind chg keeps_update keeps_simple) (erule mirrored_same; simp)
      moreover have "act_bind (checkpoint_change env handle c) (\<lambda>_.
          act_bind (act_update (publish_event n ev)) (\<lambda>_. act_return n)) w2 = (r, w')"
        using run a \<open>r1 = Ok n\<close> b Inr by (simp add: apply_event_core_def Let_def act_bind_def [of "with_journal _ _"]
            act_bind_def [of "reduce_event _ _ _"])
      ultimately have "mirrored env sid w'" by (metis keepsD)
      then show ?thesis by (auto intro: mirrored_fatal)
    qed
  qed
qed

lemma append_fails_safe:
  assumes "\<And>s n. codec_laws (ev_codec env) \<Longrightarrow>
    reads (ev_codec env) True None s \<lparr>ent_seq = n, ent_kind = kind, ent_data = v\<rparr> True None s"
  shows "fails_safe (mirrored env sid) (with_journal env (\<lambda>io. append_entry (ev_codec env) io kind v))"
    "fails_safe (mirrored env sid)
       (with_journal env (\<lambda>io. act_bind (append_entry (ev_codec env) io kind v) (flush_boundary io)))"
  unfolding fails_safe_def
  by (intro allI impI, erule mirrored_append, assumption, erule (1) append_mirrors(1) [OF _ _ assms] boundary_mirrors [OF _ _ assms],
      assumption+)+

lemma worker_mirrored: "worker_invariant env (mirrored env sid)"
proof
  fix w w' assume w: "mirrored env sid w"
  show "mirrored env sid w'" if "quiet_step w w'"
    using quiet_step_frame [OF that] by (intro mirrored_same [OF w]) simp_all
  show "mirrored env sid (fail_worker w)" by (rule mirrored_fatal [OF w]) simp_all
  show "(is_ok r \<longrightarrow> mirrored env sid w') \<and> mirrored env sid (fail_worker w')"
    if "with_journal env (\<lambda>io. append_state (ev_codec env) io (revision (worker_session w)) (worker_session w)) w = (r, w')"
    for r
    using that unfolding append_state_def
    by (rule mirrored_append [OF w]) (rule boundary_mirrors [OF _ _ reads_state])
next
  show "fails_safe (mirrored env sid) (with_journal env (\<lambda>io. append_snapshot (ev_codec env) io i v))" for i v
    unfolding append_snapshot_def by (rule append_fails_safe(2)) (rule reads_snapshot)
  show "fails_safe (mirrored env sid) (apply_event_core env handle ev)"
    if "\<And>closing. keeps (mirrored env sid) (checkpoint env handle closing)" for handle ev
    unfolding fails_safe_def using core_mirrored [OF _ _ that] by blast
qed

interpretation mirror: worker_invariant env "mirrored env sid" for env sid
  by (rule worker_mirrored)

section \<open>A record of GDB and its event\<close>

definition record_tail :: "WorkerEnv \<Rightarrow> MiRecord \<Rightarrow> nat \<Rightarrow> (MiRecord \<times> nat) option worker_act" where
  "record_tail env rd n = (case normalize rd of
       None \<Rightarrow> act_return (Some (rd, n))
     | Some event \<Rightarrow>
         act_bind (act_update (count_event event \<circ> route_output event)) (\<lambda>_.
         act_bind (handle_event env event) (\<lambda>_.
         act_bind (act_update settle_interrupt) (\<lambda>_. act_return (Some (rd, n))))))"

lemma mirrored_update:
  assumes "\<And>w. same_session w (f w)"
  shows "keeps (mirrored_at env sid seen p) (act_update f)"
proof (rule keeps_update)
  fix w assume w: "mirrored_at env sid seen p w"
  show "mirrored_at env sid seen p (f w)"
    by (rule mirrored_same [OF w]) (use assms [of w] in \<open>simp_all add: same_session_def\<close>)
qed

lemma route_same: "same_session w ((count_event ev \<circ> route_output ev) w)"
proof (cases ev)
  case (Output source bs)
  then show ?thesis by (cases source) (simp_all add: count_event_def Let_def same_session_def)
qed (simp_all add: count_event_def Let_def same_session_def)

lemma settle_same: "same_session w (settle_interrupt w)"
  by (simp add: settle_interrupt_def same_session_def)

lemma tail_keeps: "keeps (mirrored env sid) (record_tail env rd n)"
proof (cases "normalize rd")
  case (Some ev)
  have "keeps (mirrored env sid) (act_bind (act_update (count_event ev \<circ> route_output ev)) (\<lambda>_.
      act_bind (handle_event env ev) (\<lambda>_.
      act_bind (act_update settle_interrupt) (\<lambda>_. act_return (Some (rd, n))))))"
    by (intro keeps_bind mirrored_update route_same settle_same mirror.keep_event keeps_simple)
  with Some show ?thesis by (simp add: record_tail_def)
qed (simp add: record_tail_def keeps_simple)

lemma receive_record_tail:
  "receive_record env raw rd = act_bind (act_update (upd_metrics mi_record)) (\<lambda>_.
     act_bind (journaled env (\<lambda>io. append_mi_output (ev_codec env) io raw)) (record_tail env rd))"
  by (simp only: receive_record_def record_tail_def [abs_def])

text \<open>The event of a record that was just written.\<close>

lemma event_mirrored:
  assumes m: "mirrored_at env sid seen p w"
    and p: "jr_open (wk_journal w) \<Longrightarrow> p = None \<or> (\<exists>k. p = Some (k, ev) \<and> jr_next_seq (wk_journal w) = Suc k)"
  shows "mirrored env sid (snd (worker_apply_event env ev w))"
proof -
  have "mirrored env sid (snd (apply_event_step env (apply_event_nested env 3) ev w))"
    by (intro mirror.step_from mirror.keep_nested core_mirrored [OF m p])
      (auto intro: mirror.keep_checkpoint mirror.keep_nested)
  moreover have "worker_apply_event env ev w = apply_event_step env (apply_event_nested env 3) ev w"
    unfolding worker_apply_event_def by (subst apply_event_nested.simps(2) [symmetric]) simp
  ultimately show ?thesis by simp
qed

lemma tail_mirrored:
  assumes m: "mirrored_at env sid True (map_option (Pair k) (normalize rd)) w"
    and k: "jr_next_seq (wk_journal w) = Suc k"
  shows "mirrored env sid (snd (record_tail env rd n w))"
proof (cases "normalize rd")
  case None
  with m show ?thesis by (simp add: record_tail_def act_return_def)
next
  case (Some ev)
  let ?w = "(count_event ev \<circ> route_output ev) w"
  have s: "same_session w ?w" by (rule route_same)
  have "mirrored_at env sid True (Some (k, ev)) ?w"
    using m s Some by (intro mirrored_same [of env sid True _ w ?w]) (auto simp: same_session_def)
  moreover have "jr_next_seq (wk_journal ?w) = Suc k" using s k by (simp add: same_session_def)
  ultimately have e: "mirrored env sid (snd (worker_apply_event env ev ?w))" by (intro event_mirrored) auto
  have "keeps (mirrored env sid) (act_bind (act_update settle_interrupt) (\<lambda>_. act_return (Some (rd, n))))"
    by (intro keeps_bind mirrored_update settle_same keeps_simple)
  note fin = keeps_snd [OF this e]
  obtain r t where t: "worker_apply_event env ev ?w = (r, t)" by (cases "worker_apply_event env ev ?w")
  with e fin Some show ?thesis
    by (cases r) (simp_all add: record_tail_def act_bind_def [of "act_update (count_event ev \<circ> route_output ev)"]
        act_update_def [of "count_event ev \<circ> route_output ev"] act_bind_def [of "worker_apply_event env ev"])
qed

lemma receive_mirrored:
  assumes raw: "parse_record raw default_limits = Some (Ok rd)"
  shows "keeps (mirrored env sid) (receive_record env raw rd)"
proof (rule keeps_intro)
  fix w assume w: "mirrored env sid w"
  let ?cd = "ev_codec env"
  let ?w0 = "upd_metrics mi_record w"
  let ?p = "map_option (Pair (jr_next_seq (wk_journal w))) (normalize rd)"
  have w0: "mirrored env sid ?w0" by (rule mirrored_same [OF w]) simp_all
  obtain r w1 where a: "with_journal env (\<lambda>io. append_mi_output ?cd io raw) ?w0 = (r, w1)"
    by (cases "with_journal env (\<lambda>io. append_mi_output ?cd io raw) ?w0")
  have rec: "receive_record env raw rd w =
      act_bind (journal_result (handle_event env) r) (record_tail env rd) w1"
    unfolding receive_record_tail using a
    by (simp only: journaled_def act_bind_def act_then_def act_update_def prod.case sum.case)
  have safe: "(is_ok r \<longrightarrow> mirrored_at env sid True ?p w1) \<and> mirrored_at env sid True ?p (fail_worker w1)"
    using a unfolding append_mi_output_def append_base64_def
    by (rule mirrored_append [OF w0]) (rule append_mirrors(1) [OF _ _ reads_mi [OF _ raw]]; simp)
  show "mirrored env sid (snd (receive_record env raw rd w))"
  proof (cases r)
    case (Inl e)
    then show ?thesis
      using safe rec by (auto simp: journal_result_def act_bind_def intro: mirrored_fatal)
  next
    case (Inr n)
    with safe have w1: "mirrored_at env sid True ?p w1" by simp
    show ?thesis
    proof (cases "codec_laws ?cd \<and> \<not> wk_fatal w1 \<and> jr_open (wk_journal w1)")
      case True
      with w1 have "journal_wf ?cd (wk_journal w1)" by (simp add: mirrored_at_def mirrors_def)
      with True have "jr_gap (wk_journal w1) = None" by (simp add: journal_wf_def journal_inv_def)
      then have j: "journal_result (handle_event env) r w1 = (Ok n, w1)"
        using Inr by (simp add: journal_result_def report_journal_gap_def act_bind_def act_return_def)
      have "\<not> wk_fatal w" using with_journal_frame(2) [OF a] True by simp
      with True w have "journal_wf ?cd (wk_journal w)" by (simp add: mirrored_at_def mirrors_def)
      moreover have "append_mi_output ?cd (ev_io env (wk_calls w)) raw (wk_journal w) = (Ok n, wk_journal w1)"
        using with_journal_frame(4) [OF a] Inr by simp
      ultimately have "jr_next_seq (wk_journal w1) = Suc (jr_next_seq (wk_journal w))"
        unfolding append_mi_output_def append_base64_def by (metis append_entry_wf)
      from tail_mirrored [OF w1 this] rec j show ?thesis by (simp add: act_bind_def)
    next
      case False
      with w1 have "mirrored env sid w1" by (auto simp: mirrored_at_def intro: mirrors_closed)
      moreover have "keeps (mirrored env sid) (act_bind (journal_result (handle_event env) (Ok n)) (record_tail env rd))"
      proof -
        have "journal_result (handle_event env) (Ok n) =
            act_bind (report_journal_gap (handle_event env)) (\<lambda>_. act_return n)"
          by (simp add: journal_result_def fun_eq_iff)
        then show ?thesis by (simp add: keeps_bind keeps_simple mirror.keep_gap mirror.keep_event tail_keeps)
      qed
      ultimately show ?thesis using rec Inr by (simp add: keeps_snd)
    qed
  qed
qed

section \<open>Commands\<close>

abbreviation recorded :: "bytes \<Rightarrow> MiRecord \<Rightarrow> bool" where
  "recorded raw rd \<equiv> parse_record raw default_limits = Some (Ok rd)"

lemma session_mirrored: "session_invariant env (mirrored env sid) recorded"
proof (intro session_invariant.intro worker_mirrored session_invariant_axioms.intro)
  fix w w' assume w: "mirrored env sid w"
  show "mirrored env sid w'" if "same_session w w'"
    using that by (intro mirrored_same [OF w]) (simp_all add: same_session_def)
  show "mirrored env sid (mark_failed w)" if "wk_fatal w"
    by (rule mirrored_fatal [OF w]) (simp_all add: that)
next
  show "fails_safe (mirrored env sid) (with_journal env (\<lambda>io. append_entry (ev_codec env) io kind v))"
    if "kind \<in> plain_kinds" for kind v
    by (rule append_fails_safe(1), rule reads_plain) (use that in \<open>auto simp: plain_kinds_def\<close>)
  show "fails_safe (mirrored env sid) (with_journal env (\<lambda>io. append_api (ev_codec env) io v))" for v
    unfolding append_api_def by (rule append_fails_safe(2), rule reads_plain) simp
  show "fails_safe (mirrored env sid) (with_journal env journal_flush)"
    unfolding fails_safe_def
    by (intro allI impI, erule mirrored_append, assumption) (simp add: flush_mirrors)
  show "keeps (mirrored env sid) (receive_record env raw rd)" if "recorded raw rd" for raw rd
    by (rule receive_mirrored [OF that])
qed

interpretation mirror: session_invariant env "mirrored env sid" recorded for env sid
  by (rule session_mirrored)

text \<open>A failure behind the end of the journal is a failure of the worker.\<close>

definition fails_fatally :: "'a worker_act \<Rightarrow> bool" where
  "fails_fatally m \<longleftrightarrow> (\<forall>w e w'. m w = (Err e, w') \<longrightarrow> wk_fatal w')"

lemma fatal_event: "fails_fatally (worker_apply_event env ev)"
proof -
  have "worker_apply_event env ev w = apply_event_step env (apply_event_nested env 3) ev w" for w
    unfolding worker_apply_event_def by (subst apply_event_nested.simps(2) [symmetric]) simp
  then show ?thesis
    by (auto simp: fails_fatally_def apply_event_step_def split: prod.splits sum.splits)
qed

lemma fatal_bind:
  assumes "fails_fatally m" "\<And>x. fails_fatally (f x)"
  shows "fails_fatally (act_bind m f)"
  unfolding fails_fatally_def
proof (intro allI impI)
  fix w e w' assume run: "act_bind m f w = (Err e, w')"
  obtain r t where t: "m w = (r, t)" by (cases "m w")
  with run assms show "wk_fatal w'"
    by (cases r) (auto simp: act_bind_def fails_fatally_def)
qed

lemma fatal_simple: "fails_fatally (act_return x)" "fails_fatally (act_update f)"
  by (simp_all add: fails_fatally_def act_return_def act_update_def)

lemma fatal_gap: "fails_fatally (report_journal_gap (handle_event env))"
  using fatal_event [of env] by (auto simp: fails_fatally_def report_journal_gap_def split: option.splits if_splits)

lemma fatal_journal_result: "fails_fatally (journal_result (handle_event env) r)"
proof (cases r)
  case (Inr x)
  then have "journal_result (handle_event env) r = act_bind (report_journal_gap (handle_event env)) (\<lambda>_. act_return x)"
    by (simp add: journal_result_def fun_eq_iff)
  then show ?thesis by (simp add: fatal_bind fatal_gap fatal_simple)
qed (auto simp: fails_fatally_def journal_result_def)

lemma fatal_store: "fails_fatally (store_result (handle_event env) r)"
  using fatal_event [of env] by (auto simp: fails_fatally_def store_result_def split: sum.splits if_splits)

lemma fatal_checkpoint: "fails_fatally (checkpoint env (handle_event env) closing)"
proof -
  have rec: "fails_fatally (checkpoint_record env (handle_event env))"
    using fatal_journal_result [of env]
    by (auto simp: fails_fatally_def checkpoint_record_def Let_def act_then_def split: prod.splits)
  have "fails_fatally (checkpoint_history env (handle_event env) closing b ds)" for b ds
    using fatal_store [of env]
    by (auto simp: fails_fatally_def checkpoint_history_def checkpoint_store_def split: prod.splits if_splits)
  then have "fails_fatally (checkpoint_body env (handle_event env) closing b ds)" for b ds
    unfolding checkpoint_body_def using rec by (intro fatal_bind) (simp_all add: fatal_simple)
  then show ?thesis
    by (auto simp: fails_fatally_def checkpoint_def Let_def split: if_splits)
qed

lemma fatal_finish: "fails_fatally (finish_journal env)"
  using fatal_journal_result [of env]
  by (auto simp: fails_fatally_def finish_journal_def journaled_def act_then_def split: prod.splits)

text \<open>What is kept when an action fails.\<close>

definition keeps_failing :: "(Worker \<Rightarrow> bool) \<Rightarrow> 'a worker_act \<Rightarrow> bool" where
  "keeps_failing P m \<longleftrightarrow> (\<forall>w e w'. P w \<longrightarrow> m w = (Err e, w') \<longrightarrow> P w')"

lemma keeps_failing_bind:
  assumes "keeps P m" "\<And>x. keeps_failing P (f x)"
  shows "keeps_failing P (act_bind m f)"
  unfolding keeps_failing_def
proof (intro allI impI)
  fix w e w' assume w: "P w" "act_bind m f w = (Err e, w')"
  obtain r t where t: "m w = (r, t)" by (cases "m w")
  have "P t" by (rule keepsD [OF assms(1) w(1) t])
  with w(2) t assms(2) show "P w'" by (cases r) (auto simp: act_bind_def keeps_failing_def)
qed

lemma keeps_failing_then:
  assumes "keeps P m" "\<And>r. keeps_failing P (f r)"
  shows "keeps_failing P (act_then m f)"
  unfolding keeps_failing_def
proof (intro allI impI)
  fix w e w' assume w: "P w" "act_then m f w = (Err e, w')"
  obtain r t where t: "m w = (r, t)" by (cases "m w")
  have "P t" by (rule keepsD [OF assms(1) w(1) t])
  with w(2) t assms(2) show "P w'" by (auto simp: act_then_def keeps_failing_def)
qed

lemma fatal_mirrored:
  assumes "fails_fatally m" "\<And>ib. keeps (\<lambda>w. wk_inbox w = ib) m"
  shows "keeps_failing (mirrored env sid) m"
  unfolding keeps_failing_def
proof (intro allI impI)
  fix w e w' assume w: "mirrored env sid w" and run: "m w = (Err e, w')"
  have "wk_inbox w' = wk_inbox w" by (rule keepsD [OF assms(2) refl run])
  moreover have "wk_fatal w'" using assms(1) run by (auto simp: fails_fatally_def)
  ultimately show "mirrored env sid w'" by (rule mirrored_fatal [OF w])
qed

lemma close_mirrored:
  assumes w: "mirrored env sid w" and run: "close env w = (r, w')"
  shows "is_ok r \<or> mirrored env sid w'" "mirrored env sid (w'\<lparr>wk_fatal := True\<rparr>)"
proof -
  have inb: "keeps (\<lambda>w. wk_inbox w = ib) (finish_journal env)" for ib
    by (simp add: finish_journal_def frame_journaled inbox_frame)
  have "wk_inbox w' = wk_inbox w" by (rule keepsD [OF inbox.keep_close [OF inb] refl run])
  then show "mirrored env sid (w'\<lparr>wk_fatal := True\<rparr>)" by (intro mirrored_fatal [OF w]) simp_all
  have last_part: "keeps_failing (mirrored env sid) (act_bind (finish_journal env) (\<lambda>_.
      act_bind (checkpoint env (handle_event env) False) (\<lambda>_. act_update close_metric)))"
  proof (intro fatal_mirrored fatal_bind fatal_finish fatal_checkpoint fatal_simple keeps_bind inb
      inbox.keep_checkpoint inbox.keep_event keeps_update)
    show "wk_inbox (close_metric s) = ib" if "wk_inbox s = ib" for s ib using that by (simp add: close_metric_def)
  qed
  have "keeps_failing (mirrored env sid) (close env)"
    unfolding close_def close_tail_def
    by (rule last_part | rule keeps_failing_then keeps_failing_bind mirror.keep_event mirror.keep_backend_call
        keeps_simple mirror.keep_finalize mirror.keep_checkpoint)+
  then show "is_ok r \<or> mirrored env sid w'"
    using w run by (cases r) (auto simp: keeps_failing_def)
qed

interpretation mirror: exec_invariant env "mirrored env sid" recorded for env sid
proof
  show "(is_ok r \<or> mirrored env sid w') \<and> mirrored env sid (w'\<lparr>wk_fatal := True\<rparr>)"
    if "mirrored env sid w" "close env w = (r, w')" for w r w'
    using close_mirrored [OF that] by simp
  show "mirrored env sid (w\<lparr>wk_interrupt_fallback_at := Some t\<rparr>)" if "mirrored env sid w" for w t
    by (rule mirrored_same [OF that]) simp_all
qed

interpretation mirror: loop_invariant env "mirrored env sid" recorded for env sid
proof
  fix w assume w: "mirrored env sid w"
  show "mirrored env sid (w\<lparr>wk_now := t\<rparr>)" for t by (rule mirrored_same [OF w]) simp_all
  show "mirrored env sid (w\<lparr>wk_inbox := rest\<rparr>)" if "wk_inbox w = entry # rest" for entry rest
    using w that by (auto simp: mirrored_at_def inbox_ok_def)
  show "recorded raw rd" if "(t, BackendReady (Some (Mi raw rd))) \<in> set (wk_inbox w)" for t raw rd
    using w that by (auto simp: mirrored_at_def inbox_ok_def)
qed

end
