(* ===== verification/Worker_Start.thy ===== *)
theory Worker_Start
  imports Worker_Replay
begin

text \<open>
  The start of a session: \<open>SessionHandle::start\<close> of \<open>crates/gdb-ai-core/src/session.rs\<close> and
  \<open>bootstrap\<close>, \<open>handshake\<close>, \<open>load_extension\<close> and \<open>wait_for_prompt\<close> of \<open>session/actor.rs\<close>.  The worker
  exists from the first journal record on in the model: the journal, the state and the output rings that
  \<open>wait_for_prompt\<close> borrows are the ones the worker is built from.  What spawning GDB gives (its output,
  the descriptor, the path of the pseudo-terminal) is the parameter \<open>Spawned\<close>; the extension file is
  described by what reading it gives.
\<close>

section \<open>Settings\<close>

record PythonExtension =
  px_absolute :: bool
  px_canonical :: "string result"
  px_digest :: "string result"
  px_expected :: "string option"

record Spawned =
  sp_inbox :: "(nat \<times> ExecutionInput) list"
  sp_filesystem_hardened :: bool
  sp_network_isolated :: bool
  sp_pty_path :: bytes

record StartConfig =
  st_preferred_mi :: string
  st_fallback_mi :: string
  st_command_timeout :: nat
  st_inferior_ring :: nat
  st_console_ring :: nat
  st_memory_read_bytes :: nat
  st_max_snapshots :: nat
  st_total_artifact_bytes :: nat
  st_max_operations :: nat
  st_journal_bytes :: nat
  st_durability :: JournalDurability
  st_extension :: "PythonExtension option"

section \<open>The worker before GDB runs\<close>

definition initial_worker :: "StartConfig \<Rightarrow> Profile \<Rightarrow> Metrics \<Rightarrow> ByteRing \<Rightarrow> nat \<Rightarrow> SessionId \<Rightarrow> Worker" where
  "initial_worker cfg profile metrics pty now session =
     (let j = create_with_durability (st_journal_bytes cfg) (st_durability cfg)
      in \<lparr>wk_calls = 0, wk_now = now, wk_inbox = [], wk_replies = [], wk_lines = [], wk_controls_open = True,
          wk_command_timeout = st_command_timeout cfg, wk_deferred_restoration = [],
          wk_output_finalized = False, wk_total_artifact_limit = st_total_artifact_bytes cfg,
          wk_journal = j, wk_state = live_new (creating session) (is_durable j), wk_stored = [],
          wk_metrics = metrics, wk_profile = profile, wk_capabilities = [], wk_features = [],
          wk_target_features = [], wk_commands = [], wk_limitations = [], wk_sent = [], wk_pty = pty,
          wk_pty_generation = 0, wk_output_offset = 0, wk_output_dropped = 0,
          wk_target_output = ring_new (st_inferior_ring cfg), wk_console_output = ring_new (st_console_ring cfg),
          wk_log_output = ring_new (st_console_ring cfg), wk_next_token = 1, wk_timed_out_tokens = {},
          wk_interrupt_fallback_at = None, wk_stream_limit = st_console_ring cfg, wk_values = [],
          wk_tracking = [], wk_tracking_history = [], wk_snapshots = [], wk_stale_backend_values = [],
          wk_pending_module_breakpoints = [], wk_active_resume_operation = None,
          wk_module_rebind_needed = False, wk_replacing_module_breakpoint = False,
          wk_deferred_snapshot_ready = None, wk_tracking_memory_limit = st_memory_read_bytes cfg,
          wk_snapshot_limit = st_max_snapshots cfg, wk_state_dirty = False, wk_operations = [],
          wk_dirty_operations = [], wk_operation_limit = st_max_operations cfg,
          wk_journal_gap_reported = False, wk_store_failed = False, wk_fatal = False,
          wk_metric_active = False\<rparr>)"

section \<open>Waiting for the first prompt\<close>

text \<open>The next message of the backend; the control lane is not read during the start.\<close>

fun next_input :: "(nat \<times> ExecutionInput) list \<Rightarrow>
    ((nat \<times> BackendInput option) \<times> (nat \<times> ExecutionInput) list) option" where
  "next_input [] = None"
| "next_input ((t, BackendReady b) # rest) = Some ((t, b), rest)"
| "next_input (e # rest) = map_option (\<lambda>(x, r). (x, e # r)) (next_input rest)"

lemma next_input_length: "next_input inbox = Some (x, rest) \<Longrightarrow> length rest < length inbox"
  by (induction inbox arbitrary: x rest rule: next_input.induct) fastforce+

definition startup_event :: "WorkerEnv \<Rightarrow> DomainEvent \<Rightarrow> unit worker_act" where
  "startup_event env event =
     act_bind (act_update (route_output event)) (\<lambda>_.
     act_bind (with_journal env (\<lambda>io. append_domain_ref (ev_codec env) io event)) (\<lambda>event_seq w.
       case live_apply_event event_seq event (wk_state w) of
         (r, ls) \<Rightarrow> (map_sum id (\<lambda>_. ()) r, w\<lparr>wk_state := ls\<rparr>)))"

definition startup_record :: "WorkerEnv \<Rightarrow> bytes \<Rightarrow> MiRecord \<Rightarrow> bool worker_act" where
  "startup_record env raw rd =
     act_bind (with_journal env (\<lambda>io. append_mi_output (ev_codec env) io raw)) (\<lambda>_.
     act_bind (case normalize rd of None \<Rightarrow> act_return () | Some event \<Rightarrow> startup_event env event) (\<lambda>_.
       act_return (rd = Prompt)))"

text \<open>One message; the result tells whether the prompt was seen.\<close>

fun startup_input :: "WorkerEnv \<Rightarrow> BackendInput \<Rightarrow> bool worker_act" where
  "startup_input env (Mi raw rd) = startup_record env raw rd"
| "startup_input env (GdbStderr bs) =
     act_bind (with_journal env (\<lambda>io. append_gdb_stderr (ev_codec env) io bs)) (\<lambda>_.
     act_bind (act_update (\<lambda>w. w\<lparr>wk_log_output := ring_add bs (wk_log_output w)\<rparr>)) (\<lambda>_. act_return False))"
| "startup_input env (ProtocolError e) = act_fail e"
| "startup_input env GdbEof = act_fail (new_error GdbExited ''GDB exited'')"
| "startup_input env InferiorPty = act_return False"

lemma startup_input_inbox [simp]: "wk_inbox (snd (startup_input env input w)) = wk_inbox w"
proof -
  have "keeps (\<lambda>v. wk_inbox v = wk_inbox w) (startup_input env input)"
  proof -
    have j: "keeps (\<lambda>v. wk_inbox v = ib) (with_journal env m)" for m :: "JournalIo \<Rightarrow> (Json Journal, Error, 'a) act" and ib
      by (rule keeps_intro) (simp add: with_journal_def case_prod_beta)
    have e: "keeps (\<lambda>v. wk_inbox v = ib) (startup_event env ev)" for ev ib
    proof -
      have "wk_inbox (route_output ev v) = wk_inbox v" for v
        by (cases "(ev, v)" rule: route_output.cases) (simp_all split: OutputSource.split)
      then show ?thesis
        unfolding startup_event_def
        by (intro keeps_bind keeps_update j) (simp_all add: keeps_def case_prod_beta)
    qed
    show ?thesis
      by (cases input)
        (auto simp: startup_record_def keeps_simple split: option.split intro!: keeps_bind keeps_update j e)
  qed
  from keeps_snd [OF this] show ?thesis by simp
qed

lemma startup_input_rest:
  "(r, w1) = startup_input env input (w\<lparr>wk_inbox := rest, wk_now := t\<rparr>) \<Longrightarrow> wk_inbox w1 = rest"
  using startup_input_inbox [of env input "w\<lparr>wk_inbox := rest, wk_now := t\<rparr>"]
  by (cases "startup_input env input (w\<lparr>wk_inbox := rest, wk_now := t\<rparr>)") simp

function wait_for_prompt :: "WorkerEnv \<Rightarrow> nat \<Rightarrow> unit worker_act" where
  "wait_for_prompt env deadline w =
     (case next_input (wk_inbox w) of
        Some ((t, b), rest) \<Rightarrow>
          if t > max (wk_now w) deadline
          then (Err (new_error GdbUnresponsive ''GDB startup timed out''), w\<lparr>wk_now := max (wk_now w) deadline\<rparr>)
          else (case b of
              None \<Rightarrow> (Err (new_error GdbExited ''GDB startup channel closed''),
                       w\<lparr>wk_inbox := rest, wk_now := max (wk_now w) t\<rparr>)
            | Some input \<Rightarrow>
                (case startup_input env input (w\<lparr>wk_inbox := rest, wk_now := max (wk_now w) t\<rparr>) of
                   (Err e, w1) \<Rightarrow> (Err e, w1)
                 | (Ok prompt, w1) \<Rightarrow> if prompt then (Ok (), w1) else wait_for_prompt env deadline w1))
      | None \<Rightarrow> (Err (new_error GdbUnresponsive ''GDB startup timed out''), w\<lparr>wk_now := max (wk_now w) deadline\<rparr>))"
  by pat_completeness auto
termination
  by (relation "measure (\<lambda>(env, deadline, w). length (wk_inbox w))")
    (auto dest!: next_input_length startup_input_rest)

declare wait_for_prompt.simps [simp del]

section \<open>Capabilities before the handshake\<close>

definition capability :: "CapabilityStatus \<Rightarrow> string \<Rightarrow> string list \<Rightarrow> string \<Rightarrow> nat \<Rightarrow> Capability" where
  "capability status scope constraints source r =
     \<lparr>cap_status = status, cap_scope = scope, cap_constraints = constraints, cap_source = source,
      cap_last_checked_revision = r\<rparr>"

definition may_mutate :: "Profile \<Rightarrow> bool" where
  "may_mutate profile \<longleftrightarrow> profile \<in> {LabMutation, RawAdmin}"

definition status_if :: "bool \<Rightarrow> CapabilityStatus \<Rightarrow> CapabilityStatus" where
  "status_if b status = (if b then status else CapabilityStatus.Unsupported)"

definition initial_capabilities :: "Profile \<Rightarrow> Spawned \<Rightarrow> (string, Capability) btree" where
  "initial_capabilities profile sp = fold (\<lambda>(k, c). bt_insert k c)
     [(''async_execution'', capability CapabilityStatus.Unknown ''backend'' [] ''handshake'' 0),
      (''non_stop'', capability CapabilityStatus.Unsupported ''session'' [''version 1 is all-stop''] ''configuration'' 0),
      (''inferior_tty'', capability Supported ''session'' [] ''pty'' 0),
      (''memory_read'', capability CapabilityStatus.Unknown ''current_target''
         [''target must be stopped; volatile ranges may have target-defined effects''] ''probe'' 0),
      (''memory_write'', capability CapabilityStatus.Unknown ''current_target''
         [''requires lab_mutation policy and stopped target''] ''probe'' 0),
      (''watchpoints'', capability CapabilityStatus.Unknown ''current_target''
         [''hardware resources are target-dependent''] ''probe'' 0),
      (''module_offset_rebinding'', capability CapabilityStatus.Unknown ''backend''
         [''GDB 9/10 require a stopped target with the module mapped; automatic rebinding requires GDB 11 or newer'']
         ''gdb-version'' 0),
      (''reverse'', capability CapabilityStatus.Unknown ''current_target''
         [''target must advertise reverse execution''] ''target-features'' 0),
      (''execution'', capability (status_if (may_execute profile) Conditional) ''current_target''
         [''requires a live target''] ''policy'' 0),
      (''target_mutation'', capability (status_if (may_mutate profile) Conditional) ''current_target''
         [''requires lab_mutation or raw_admin''] ''policy'' 0),
      (''custom_extension'', capability CapabilityStatus.Unsupported ''backend''
         [''optional trusted extension is not configured''] ''configuration'' 0),
      (''thread_scoped_commands'', capability Supported ''backend'' [] ''mi'' 0),
      (''hardening.filesystem'', capability (status_if (sp_filesystem_hardened sp) Supported) ''session''
         [''does not provide PID, user, cgroup, or seccomp isolation''] ''bubblewrap'' 0),
      (''hardening.network_namespace'', capability (status_if (sp_network_isolated sp) Supported) ''session'' []
         ''bubblewrap'' 0),
      (''sandbox.seccomp'', capability CapabilityStatus.Unsupported ''deployment''
         [''no portable GDB seccomp profile is enabled''] ''runtime'' 0)] []"

definition initial_limitations :: "string list" where
  "initial_limitations =
     [''untrusted targets require an external container or VM supervisor for PID, user, cgroup, and seccomp isolation'']"

section \<open>Handshake\<close>

definition mi_command_exists :: "MiRecord \<Rightarrow> bool" where
  "mi_command_exists record \<longleftrightarrow>
     Option.bind (Option.bind (find_result (record_results record) ''command'') value_results)
       (\<lambda>rs. find_str rs ''exists'') = Some ''true''"

fun before_dot :: "string \<Rightarrow> string" where
  "before_dot [] = []"
| "before_dot (c # cs) = (if c = CHR ''.'' then [] else c # before_dot cs)"

definition module_rebinding_status :: "string \<Rightarrow> CapabilityStatus" where
  "module_rebinding_status output =
     (case Option.bind (find (\<lambda>l. starts_with l ''GNU gdb '') (str_lines output)) (\<lambda>l.
             case split_whitespace l of [] \<Rightarrow> None | ws \<Rightarrow> from_str_radix 32 10 (before_dot (last ws))) of
        Some n \<Rightarrow> if n \<le> 10 then CapabilityStatus.Unsupported else Conditional
      | None \<Rightarrow> CapabilityStatus.Unknown)"

definition command_status :: "string list \<Rightarrow> string \<Rightarrow> CapabilityStatus" where
  "command_status commands c = (if c \<in> set commands then Conditional else CapabilityStatus.Unsupported)"

definition set_capability :: "string \<Rightarrow> CapabilityStatus \<Rightarrow> Worker \<Rightarrow> Worker" where
  "set_capability name status w =
     w\<lparr>wk_capabilities := set_capability_at (revision (worker_session w)) name status (wk_capabilities w)\<rparr>"

text \<open>\<open>self.execute(command, self.command_timeout)\<close> for a command that is built on the way.\<close>

definition run_command :: "WorkerEnv \<Rightarrow> MiCommand result \<Rightarrow> CommandReply worker_act" where
  "run_command env command =
     act_bind (act_result command) (\<lambda>c w. execute env c (wk_command_timeout w) w)"

fun run_all :: "WorkerEnv \<Rightarrow> MiCommand result list \<Rightarrow> unit worker_act" where
  "run_all env [] = act_return ()"
| "run_all env (c # cs) = act_bind (run_command env c) (\<lambda>_. run_all env cs)"

definition add_command :: "string \<Rightarrow> Worker \<Rightarrow> Worker" where
  "add_command name w = w\<lparr>wk_commands := bt_keys (bt_insert name () (map (\<lambda>k. (k, ())) (wk_commands w)))\<rparr>"

definition probe_command :: "string \<Rightarrow> MiCommand result" where
  "probe_command name =
     bind_res (command_new ''-info-gdb-mi-command'') (\<lambda>c. Ok (command_string c (as_bytes name)))"

definition fix_script_output :: "WorkerEnv \<Rightarrow> string \<Rightarrow> unit worker_act" where
  "fix_script_output env version =
     (if version \<noteq> ''mi3'' then act_return ()
      else act_bind (run_command env (probe_command ''-fix-breakpoint-script-output'')) (\<lambda>reply.
             if mi_command_exists (cr_record reply)
             then act_bind (run_command env (command_new ''-fix-breakpoint-script-output'')) (\<lambda>_.
                    act_update (add_command ''-fix-breakpoint-script-output''))
             else act_return ()))"

definition setting_on :: "bool \<Rightarrow> string" where
  "setting_on b = (if b then ''on'' else ''off'')"

definition handshake_settings :: "Profile \<Rightarrow> MiCommand result list" where
  "handshake_settings profile =
     map (bare_command ''-gdb-set'')
       ([[''mi-async'', ''on''], [''non-stop'', ''off''], [''pagination'', ''off''], [''confirm'', ''off''],
         [''style'', ''enabled'', ''off''], [''print'', ''elements'', ''200''], [''may-call-functions'', ''off'']] @
        map (\<lambda>setting. [setting, setting_on (may_execute profile)])
          [''may-write-memory'', ''may-write-registers'', ''may-insert-breakpoints'', ''may-interrupt''])"

definition learn_features :: "MiRecord \<Rightarrow> Worker \<Rightarrow> Worker" where
  "learn_features record =
     set_capability ''thread_scoped_commands'' Supported \<circ> set_capability ''async_execution'' Supported \<circ>
     (\<lambda>w. w\<lparr>wk_features := extract_string_list record ''features''\<rparr>)"

definition console_text :: "WorkerEnv \<Rightarrow> CommandReply \<Rightarrow> string" where
  "console_text env answered =
     (case Option.bind (Option.bind (bt_get
             (command_output (cd_base64 (ev_codec env)) (cr_stream_records answered) (cr_stream_truncated answered))
             ''console'') (\<lambda>console. json_get console ''text'')) json_as_str of
        Some content \<Rightarrow> content | None \<Rightarrow> [])"

fun probe_commands :: "WorkerEnv \<Rightarrow> string list \<Rightarrow> unit worker_act" where
  "probe_commands env [] = act_return ()"
| "probe_commands env (name # names) =
     act_bind (run_command env (probe_command name)) (\<lambda>reply.
     act_bind (act_update (if mi_command_exists (cr_record reply) then add_command name else id)) (\<lambda>_.
       probe_commands env names))"

definition learn_commands :: "Worker \<Rightarrow> Worker" where
  "learn_commands w =
     (let commands = wk_commands w
      in set_capability ''watchpoints'' (command_status commands ''-break-watch'')
        (set_capability ''memory_write''
          (status_if (may_mutate (wk_profile w)) (command_status commands ''-data-write-memory-bytes''))
        (set_capability ''memory_read'' (command_status commands ''-data-read-memory-bytes'') w)))"

definition handshake :: "WorkerEnv \<Rightarrow> string \<Rightarrow> bytes \<Rightarrow> unit worker_act" where
  "handshake env version pty_path =
     act_bind (fix_script_output env version) (\<lambda>_.
     act_bind (\<lambda>w. run_all env (handshake_settings (wk_profile w)) w) (\<lambda>_.
     act_bind (run_command env (command_new ''-list-features'')) (\<lambda>features.
     act_bind (act_update (learn_features (cr_record features))) (\<lambda>_.
     act_bind (run_command env (command_new ''-gdb-version'')) (\<lambda>reply.
     act_bind (act_update (set_capability ''module_offset_rebinding''
       (module_rebinding_status (console_text env reply)))) (\<lambda>_.
     act_bind (probe_commands env [''-data-read-memory-bytes'', ''-data-write-memory-bytes'', ''-data-disassemble'',
       ''-break-watch'', ''-thread-info'']) (\<lambda>_.
     act_bind (act_update learn_commands) (\<lambda>_.
     act_bind (run_command env (bind_res (command_new ''-inferior-tty-set'') (\<lambda>c. Ok (command_string c pty_path)))) (\<lambda>_.
       act_return ())))))))))"

section \<open>The trusted extension\<close>

definition add_limitation :: "string \<Rightarrow> Worker \<Rightarrow> Worker" where
  "add_limitation s w = w\<lparr>wk_limitations := wk_limitations w @ [s]\<rparr>"

definition extension_path :: "PythonExtension \<Rightarrow> string result" where
  "extension_path px =
     (if \<not> px_absolute px then Err (new_error InvalidArgument ''gdb.python_extension must be an absolute path'')
      else bind_res (px_canonical px) (\<lambda>path.
           bind_res (px_digest px) (\<lambda>actual.
             case px_expected px of
               None \<Rightarrow> Err (new_error PolicyDenied ''configured Python extension requires python_extension_sha256'')
             | Some expected \<Rightarrow>
                 if map ascii_lower actual \<noteq> map ascii_lower expected
                 then Err (new_error PolicyDenied ''configured Python extension hash does not match'')
                 else Ok path)))"

definition probe_extension :: "WorkerEnv \<Rightarrow> unit worker_act" where
  "probe_extension env =
     act_then (run_command env (command_new ''-gdb-ai-capabilities'')) (\<lambda>r. act_update (case r of
         Ok answered \<Rightarrow>
           if find_str (record_results (cr_record answered)) ''protocol'' = Some ''1''
           then set_capability ''custom_extension'' Supported
           else add_limitation ''trusted Python extension protocol mismatch''
       | Err e \<Rightarrow> add_limitation (''trusted Python extension probe failed: '' @ error_string e)))"

definition load_extension :: "WorkerEnv \<Rightarrow> PythonExtension option \<Rightarrow> unit worker_act" where
  "load_extension env extension = (case extension of
       None \<Rightarrow> act_return ()
     | Some px \<Rightarrow>
         act_bind (act_result (extension_path px)) (\<lambda>path.
         act_then (run_command env (bind_res (bare_command ''-interpreter-exec'' [''console'']) (\<lambda>c.
             Ok (command_string c (as_bytes (''source '' @ path)))))) (\<lambda>loaded.
           case loaded of
             Err e \<Rightarrow> act_update (add_limitation (''trusted Python extension failed to load: '' @ error_string e))
           | Ok _ \<Rightarrow> probe_extension env)))"

section \<open>Start\<close>

definition spawn :: "WorkerEnv \<Rightarrow> Spawned \<Rightarrow> unit worker_act" where
  "spawn env sp =
     act_bind (backend_call env) (\<lambda>_. act_update (\<lambda>w. w\<lparr>wk_inbox := sp_inbox sp\<rparr>))"

text \<open>The versions of MI in turn; the result is the version whose GDB showed a prompt.\<close>

fun first_prompt :: "WorkerEnv \<Rightarrow> (string \<Rightarrow> Spawned) \<Rightarrow> Error option \<Rightarrow> string list \<Rightarrow> string worker_act" where
  "first_prompt env spawned last_error [] =
     act_fail (case last_error of Some e \<Rightarrow> e | None \<Rightarrow> new_error GdbExited ''GDB startup failed'')"
| "first_prompt env spawned last_error (v # vs) =
     act_bind (spawn env (spawned v)) (\<lambda>_.
     act_then (\<lambda>w. wait_for_prompt env (wk_now w + wk_command_timeout w) w) (\<lambda>r. case r of
         Ok _ \<Rightarrow> act_return v
       | Err e \<Rightarrow> act_bind (act_update (upd_metrics gdb_start_failed)) (\<lambda>_.
                  act_then (backend_call env) (\<lambda>_. first_prompt env spawned (Some e) vs))))"

definition mi_versions :: "StartConfig \<Rightarrow> string list" where
  "mi_versions cfg =
     st_preferred_mi cfg # (if st_fallback_mi cfg \<noteq> st_preferred_mi cfg then [st_fallback_mi cfg] else [])"

definition describe :: "Spawned \<Rightarrow> Worker \<Rightarrow> Worker" where
  "describe sp w =
     w\<lparr>wk_capabilities := initial_capabilities (wk_profile w) sp, wk_limitations := initial_limitations\<rparr>"

text \<open>Calls of the operating system whose only effect here is their failure.\<close>

fun outside_calls :: "WorkerEnv \<Rightarrow> nat \<Rightarrow> unit worker_act" where
  "outside_calls env 0 = act_return ()"
| "outside_calls env (Suc n) = act_bind (backend_call env) (\<lambda>_. outside_calls env n)"

definition bootstrap :: "WorkerEnv \<Rightarrow> (string \<Rightarrow> Spawned) \<Rightarrow> StartConfig \<Rightarrow> unit worker_act" where
  "bootstrap env spawned cfg =
     act_bind (outside_calls env 1) (\<lambda>_.
     act_bind (first_prompt env spawned None (mi_versions cfg)) (\<lambda>version.
     act_bind (act_update (describe (spawned version))) (\<lambda>_.
     act_bind (handle_event env BackendStarted) (\<lambda>_.
     act_bind (handshake env version (sp_pty_path (spawned version))) (\<lambda>_.
     act_bind (load_extension env (st_extension cfg)) (\<lambda>_.
       checkpoint env (handle_event env) True))))))"

definition session_start :: "WorkerEnv \<Rightarrow> (string \<Rightarrow> Spawned) \<Rightarrow> StartConfig \<Rightarrow> SessionId \<Rightarrow> unit worker_act" where
  "session_start env spawned cfg session =
     act_bind (outside_calls env 4) (\<lambda>_.
     act_bind (with_journal env (\<lambda>io. append_session_created (ev_codec env) io session)) (\<lambda>_.
     act_bind (bootstrap env spawned cfg) (\<lambda>_.
       act_update (\<lambda>w. (upd_metrics session_started w)\<lparr>wk_metric_active := True\<rparr>))))"

section \<open>The start writes a journal that mirrors the state\<close>

lemma created_mirrors:
  assumes laws: "codec_laws cd" and ident: "parse_id ''sess'' session = Ok session" and limit: "limit < u64_max"
    and run: "append_session_created cd io session (create_with_durability limit durability) = (Ok n, j)"
  shows "mirrors cd sid False None j (creating session)"
proof -
  let ?j = "create_with_durability limit durability :: 'a Journal"
  have wf: "journal_wf cd ?j" by (rule create_wf [OF limit])
  have ap: "append_entry cd io ''session.created'' (cd_object cd [(''session_id'', cd_string cd session),
      (''normalization_version'', cd_number cd normalization_version)]) ?j = (Ok n, j)"
    using run by (simp add: append_session_created_def)
  note w = append_entry_wf [OF ap wf]
  have "\<exists>acc'. replay_entries cd (jr_written j) (replay_init sid) = Ok acc' \<and>
      (jr_open j \<longrightarrow> tracks False None acc' (creating session) (Suc (jr_next_seq ?j)))"
    by (rule append_replays [OF wf laws _ _ _ ap, where acc = "replay_init sid"])
      (use codec_lawsD [OF laws] ident in \<open>simp_all add: create_with_durability_def replay_init_def replay_kind_def
        replay_created_def ok_or_def tracks_def stands_at_def\<close>)
  with w show ?thesis by (simp add: mirrors_def)
qed

lemma live_apply_event_borrow:
  assumes "live_apply_event n ev ls = (Ok c, ls')"
  shows "apply_event (live_borrow ls) n ev = Ok (live_borrow ls', c)"
  using assms
  by (auto simp: live_apply_event_def live_apply_event_with_def live_borrow_def send_replace_def
      split: option.splits sum.splits prod.splits)

lemma route_output_frame [simp]:
  "wk_journal (route_output ev w) = wk_journal w" "wk_inbox (route_output ev w) = wk_inbox w"
  "wk_fatal (route_output ev w) = wk_fatal w" "wk_state (route_output ev w) = wk_state w"
  "wk_calls (route_output ev w) = wk_calls w"
  by (cases "(ev, w)" rule: route_output.cases; simp split: OutputSource.split)+

text \<open>Until the worker is ready, a failure ends the start, so only the successful outcomes matter.\<close>

definition starting :: "WorkerEnv \<Rightarrow> SessionId \<Rightarrow> Worker \<Rightarrow> bool" where
  "starting env sid w \<longleftrightarrow> \<not> wk_fatal w \<and> (\<exists>seen. mirrored_at env sid seen None w)"

lemma startup_event_mirrored:
  assumes m: "mirrored_at env sid seen p w"
    and p: "jr_open (wk_journal w) \<Longrightarrow> p = None \<or> (\<exists>k. p = Some (k, ev) \<and> jr_next_seq (wk_journal w) = Suc k)"
    and run: "startup_event env ev w = (Ok (), w')"
  shows "mirrored env sid w'" "wk_fatal w' = wk_fatal w"
proof -
  from run obtain n w1 where a: "with_journal env (\<lambda>io. append_domain_ref (ev_codec env) io ev) (route_output ev w) = (Ok n, w1)"
      and b: "(case live_apply_event n ev (wk_state w1) of (r, ls) \<Rightarrow> (map_sum id (\<lambda>_. ()) r, w1\<lparr>wk_state := ls\<rparr>)) = (Ok (), w')"
    unfolding startup_event_def by (auto simp: act_bind_Ok act_update_def)
  note f = with_journal_frame [OF a]
  obtain r ls where l: "live_apply_event n ev (wk_state w1) = (r, ls)" by (cases "live_apply_event n ev (wk_state w1)")
  with b obtain c where c: "r = Ok c" and w': "w' = w1\<lparr>wk_state := ls\<rparr>" by (cases r) auto
  show "mirrored env sid w'"
  proof (rule event_written [OF m p])
    show "append_domain_ref (ev_codec env) (ev_io env (wk_calls w)) ev (wk_journal w) = (Ok n, wk_journal w')"
      using f(4) w' by simp
    show "apply_event (worker_session w) n ev = Ok (worker_session w', c)"
      using live_apply_event_borrow [of n ev "wk_state w1" c ls] l c w' f(3) by simp
  qed (use f w' in simp_all)
  show "wk_fatal w' = wk_fatal w" using f(2) w' by simp
qed

lemma startup_record_mirrored:
  assumes laws: "codec_laws (ev_codec env)" and st: "starting env sid w" and raw: "recorded raw rd"
    and run: "startup_record env raw rd w = (Ok prompt, w')"
  shows "starting env sid w'"
proof -
  let ?cd = "ev_codec env"
  let ?p = "map_option (Pair (jr_next_seq (wk_journal w))) (normalize rd)"
  from st obtain seen where m: "mirrored_at env sid seen None w" and nf: "\<not> wk_fatal w" by (auto simp: starting_def)
  from run obtain n w1 where a: "with_journal env (\<lambda>io. append_mi_output ?cd io raw) w = (Ok n, w1)"
      and b: "(case normalize rd of None \<Rightarrow> act_return () | Some ev \<Rightarrow> startup_event env ev) w1 = (Ok (), w')"
    unfolding startup_record_def by (auto simp: act_bind_Ok act_return_def)
  note f = with_journal_frame [OF a]
  have w1: "mirrored_at env sid seen ?p w1"
  proof -
    have "(is_ok (Ok n :: nat result) \<longrightarrow> mirrored_at env sid seen ?p w1) \<and> mirrored_at env sid seen ?p (fail_worker w1)"
      using a unfolding append_mi_output_def append_base64_def
      by (rule mirrored_append [OF m]) (rule append_mirrors(1) [OF _ _ reads_mi [OF _ raw]]; simp)
    then show ?thesis by simp
  qed
  have "jr_next_seq (wk_journal w1) = Suc (jr_next_seq (wk_journal w))"
    using append_entry_wf [of ?cd _ _ _ "wk_journal w" n "wk_journal w1"] f(4) m nf laws
    by (auto simp: append_mi_output_def append_base64_def mirrored_at_def mirrors_def)
  then have "?p = None \<or> (\<exists>k. ?p = Some (k, ev) \<and> jr_next_seq (wk_journal w1) = Suc k)"
    if "normalize rd = Some ev" for ev using that by simp
  with b w1 f(2) nf startup_event_mirrored [OF w1] show ?thesis
    by (cases "normalize rd") (auto simp: act_return_def starting_def)
qed

lemma next_input_set:
  "next_input inbox = Some ((t, b), rest) \<Longrightarrow> (t, BackendReady b) \<in> set inbox \<and> set rest \<subseteq> set inbox"
  by (induction inbox arbitrary: rest rule: next_input.induct) fastforce+

lemma starting_same:
  assumes "starting env sid w" "wk_journal w' = wk_journal w" "worker_session w' = worker_session w"
    "set (wk_inbox w') \<subseteq> set (wk_inbox w)" "wk_fatal w' = wk_fatal w"
  shows "starting env sid w'"
  using assms by (fastforce simp: starting_def mirrored_at_def inbox_ok_def)

lemma startup_input_mirrored:
  assumes laws: "codec_laws (ev_codec env)" and st: "starting env sid w"
    and raw: "\<And>raw rd. input = Mi raw rd \<Longrightarrow> recorded raw rd"
    and run: "startup_input env input w = (Ok prompt, w')"
  shows "starting env sid w'"
proof (cases input)
  case (Mi raw rd)
  with run raw show ?thesis by (auto intro: startup_record_mirrored [OF laws st])
next
  case (GdbStderr bs)
  with run obtain n w1 where a: "with_journal env (\<lambda>io. append_gdb_stderr (ev_codec env) io bs) w = (Ok n, w1)"
      and w': "w' = w1\<lparr>wk_log_output := ring_add bs (wk_log_output w1)\<rparr>"
    by (auto simp: act_bind_Ok act_update_def act_return_def)
  from st obtain seen where m: "mirrored_at env sid seen None w" by (auto simp: starting_def)
  have "(is_ok (Ok n :: nat result) \<longrightarrow> mirrored_at env sid seen None w1) \<and> mirrored_at env sid seen None (fail_worker w1)"
    using a unfolding append_gdb_stderr_def append_base64_def
    by (rule mirrored_append [OF m]) (rule append_mirrors(1) [OF _ _ reads_plain]; simp)
  with with_journal_frame(2) [OF a] st have "starting env sid w1" by (auto simp: starting_def)
  then show ?thesis by (rule starting_same) (simp_all add: w')
qed (use run st in \<open>auto simp: act_fail_def act_return_def\<close>)

lemma wait_for_prompt_mirrored:
  "codec_laws (ev_codec env) \<Longrightarrow> starting env sid w \<Longrightarrow> wait_for_prompt env deadline w = (Ok (), w') \<Longrightarrow>
     starting env sid w'"
proof (induction env deadline w rule: wait_for_prompt.induct)
  case (1 env deadline w)
  from "1.prems"(3) obtain t input rest where n: "next_input (wk_inbox w) = Some ((t, Some input), rest)"
      and late: "\<not> t > max (wk_now w) deadline"
    by (subst (asm) wait_for_prompt.simps) (auto split: option.splits if_splits)
  let ?w = "w\<lparr>wk_inbox := rest, wk_now := max (wk_now w) t\<rparr>"
  obtain r w1 where i: "startup_input env input ?w = (r, w1)" by (cases "startup_input env input ?w")
  with "1.prems"(3) n late obtain prompt where r: "r = Ok prompt"
      and c: "(if prompt then (Ok (), w1) else wait_for_prompt env deadline w1) = (Ok (), w')"
    by (subst (asm) wait_for_prompt.simps) (auto split: sum.splits)
  have st: "starting env sid ?w"
    using next_input_set [OF n] by (intro starting_same [OF "1.prems"(2)]) auto
  have raw: "recorded raw rd" if "input = Mi raw rd" for raw rd
    using "1.prems"(2) next_input_set [OF n] that by (auto simp: starting_def mirrored_at_def inbox_ok_def)
  have w1: "starting env sid w1"
    using i r by (intro startup_input_mirrored [OF "1.prems"(1) st raw]) simp_all
  show ?case
  proof (cases prompt)
    case True
    with c w1 show ?thesis by simp
  next
    case False
    with c have "wait_for_prompt env deadline w1 = (Ok (), w')" by simp
    from "1.IH" [OF n refl refl late refl i [symmetric] r False "1.prems"(1) w1 this] show ?thesis .
  qed
qed

context loop_invariant
begin

lemma keep_run_command: "keeps I (run_command env command)"
proof -
  have "keeps I (\<lambda>w. execute env c (wk_command_timeout w) w)" for c
    by (rule keeps_intro) (rule keeps_snd [OF keep_execute])
  then show ?thesis unfolding run_command_def by (intro keeps_bind keeps_simple)
qed

lemma keep_run_all: "keeps I (run_all env cs)"
  by (induction cs) (auto simp: keeps_simple intro!: keeps_bind keep_run_command)

lemma keep_probes: "keeps I (probe_commands env names)"
proof (induction names)
  case (Cons name names)
  have "keeps I (act_update (if b then add_command name else id))" for b
    by (rule keep_update) (simp add: add_command_def same_session_def)
  with Cons show ?case by (auto intro!: keeps_bind keep_run_command)
qed (simp add: keeps_simple)

lemma same_set_capability: "same_session w (set_capability name status w)"
  by (simp add: set_capability_def same_session_def)

lemma keep_handshake: "keeps I (handshake env version pty_path)"
proof -
  have script: "keeps I (fix_script_output env version)"
  proof -
    have "keeps I (act_update (add_command name))" for name
      by (rule keep_update) (simp add: add_command_def same_session_def)
    then show ?thesis unfolding fix_script_output_def by (intro keeps_if keeps_bind keeps_simple keep_run_command)
  qed
  have all: "keeps I (\<lambda>w. run_all env (handshake_settings (wk_profile w)) w)"
    by (rule keeps_intro) (rule keeps_snd [OF keep_run_all])
  have feat: "keeps I (act_update (learn_features rd))" for rd
    by (rule keep_update) (simp add: learn_features_def set_capability_def same_session_def)
  have ver: "keeps I (act_update (set_capability name status))" for name status
    by (rule keep_update) (rule same_set_capability)
  have cmds: "keeps I (act_update learn_commands)"
    by (rule keep_update) (simp add: learn_commands_def Let_def set_capability_def same_session_def)
  show ?thesis
    unfolding handshake_def
    by (intro keeps_bind script all keep_run_command feat ver keep_probes cmds keeps_simple)
qed

lemma keep_load_extension: "keeps I (load_extension env extension)"
proof -
  have lim: "keeps I (act_update (add_limitation s))" for s
    by (rule keep_update) (simp add: add_limitation_def same_session_def)
  have "keeps I (probe_extension env)"
    unfolding probe_extension_def
    by (intro keeps_then keep_run_command keep_update)
      (auto simp: set_capability_def add_limitation_def same_session_def split: sum.split)
  with lim show ?thesis
    unfolding load_extension_def
    by (auto split: option.split intro!: keeps_bind keeps_then keeps_simple keep_run_command keeps_case_res)
qed

end

lemma outside_calls_same:
  assumes "outside_calls env n w = (r, w')"
  shows "wk_journal w' = wk_journal w" "wk_state w' = wk_state w" "wk_inbox w' = wk_inbox w" "wk_fatal w' = wk_fatal w"
  using assms
  by (induction n arbitrary: w) (auto simp: act_bind_def backend_call_def act_return_def split: sum.splits)

definition records_read :: "(nat \<times> ExecutionInput) list \<Rightarrow> bool" where
  "records_read inbox \<longleftrightarrow> (\<forall>t raw rd. (t, BackendReady (Some (Mi raw rd))) \<in> set inbox \<longrightarrow> recorded raw rd)"

lemma first_prompt_mirrored:
  assumes laws: "codec_laws (ev_codec env)" and st: "starting env sid w"
    and inbox: "records_read (sp_inbox (spawned v))"
    and run: "first_prompt env spawned e [v] w = (Ok u, w')"
  shows "starting env sid w' \<and> u = v"
proof -
  from run obtain w1 where sp: "spawn env (spawned v) w = (Ok (), w1)"
      and wt: "wait_for_prompt env (wk_now w1 + wk_command_timeout w1) w1 = (Ok (), w') \<and> u = v"
    by (auto simp: act_bind_Ok act_then_def act_return_def act_fail_def act_bind_def act_update_def backend_call_def
        split: prod.splits sum.splits)
  have w1: "w1 = w\<lparr>wk_calls := wk_calls w + 1, wk_inbox := sp_inbox (spawned v)\<rparr>"
    using sp by (auto simp: spawn_def act_bind_Ok backend_call_def act_update_def)
  have "starting env sid w1"
    using st inbox by (auto simp: w1 starting_def mirrored_at_def inbox_ok_def records_read_def)
  with wt wait_for_prompt_mirrored [OF laws] show ?thesis by blast
qed

lemma bootstrap_mirrored:
  assumes laws: "codec_laws (ev_codec env)" and st: "starting env sid w"
    and one: "st_fallback_mi cfg = st_preferred_mi cfg"
    and inbox: "records_read (sp_inbox (spawned (st_preferred_mi cfg)))"
    and run: "bootstrap env spawned cfg w = (Ok (), w')"
  shows "mirrored env sid w'"
proof -
  let ?v = "st_preferred_mi cfg"
  from run one obtain w1 w2 u where a: "outside_calls env 1 w = (Ok (), w1)"
      and b: "first_prompt env spawned None [?v] w1 = (Ok u, w2)"
      and c: "act_bind (handle_event env BackendStarted) (\<lambda>_.
          act_bind (handshake env u (sp_pty_path (spawned u))) (\<lambda>_.
          act_bind (load_extension env (st_extension cfg)) (\<lambda>_.
            checkpoint env (handle_event env) True))) (describe (spawned u) w2) = (Ok (), w')"
    unfolding bootstrap_def mi_versions_def by (auto simp: act_bind_Ok act_update_def simp del: first_prompt.simps outside_calls.simps)
  have "starting env sid w1" by (rule starting_same [OF st]) (simp_all add: outside_calls_same [OF a])
  then have "starting env sid w2" using first_prompt_mirrored [OF laws _ inbox b] by blast
  then obtain seen where m: "mirrored_at env sid seen None (describe (spawned u) w2)"
    by (auto simp: starting_def describe_def mirrored_at_def inbox_ok_def)
  obtain r w3 where e: "handle_event env BackendStarted (describe (spawned u) w2) = (r, w3)"
    by (cases "handle_event env BackendStarted (describe (spawned u) w2)")
  have w3: "mirrored env sid w3" using event_mirrored [OF m, of BackendStarted] e by simp
  have "keeps (mirrored env sid) (act_bind (handshake env u (sp_pty_path (spawned u))) (\<lambda>_.
      act_bind (load_extension env (st_extension cfg)) (\<lambda>_. checkpoint env (handle_event env) True)))"
    by (intro keeps_bind mirror.keep_handshake mirror.keep_load_extension mirror.keep_checkpoint mirror.keep_event)
  from keeps_snd [OF this w3] c e show ?thesis by (cases r) (auto simp: act_bind_def)
qed

lemma start_mirrored:
  assumes laws: "codec_laws (ev_codec env)" and ident: "parse_id ''sess'' session = Ok session"
    and limit: "st_journal_bytes cfg < u64_max" and one: "st_fallback_mi cfg = st_preferred_mi cfg"
    and inbox: "records_read (sp_inbox (spawned (st_preferred_mi cfg)))"
    and run: "session_start env spawned cfg session (initial_worker cfg profile metrics pty now session) = (Ok (), w)"
  shows "mirrored env sid w"
proof -
  let ?w = "initial_worker cfg profile metrics pty now session"
  from run obtain w1 w2 w3 n where a: "outside_calls env 4 ?w = (Ok (), w1)"
      and b: "with_journal env (\<lambda>io. append_session_created (ev_codec env) io session) w1 = (Ok n, w2)"
      and c: "bootstrap env spawned cfg w2 = (Ok (), w3)"
      and w: "w = (upd_metrics session_started w3)\<lparr>wk_metric_active := True\<rparr>"
    unfolding session_start_def by (auto simp: act_bind_Ok act_update_def)
  note fa = outside_calls_same [OF a] and fb = with_journal_frame [OF b]
  have "mirrors (ev_codec env) sid False None (wk_journal w2) (creating session)"
    using fb(4) fa(1) by (intro created_mirrors [OF laws ident limit]) (simp add: initial_worker_def Let_def)
  moreover have "worker_session w2 = creating session" "wk_inbox w2 = []" "\<not> wk_fatal w2"
    using fa fb by (simp_all add: initial_worker_def Let_def live_new_def live_borrow_def)
  ultimately have "starting env sid w2" by (auto simp: starting_def mirrored_at_def inbox_ok_def)
  from bootstrap_mirrored [OF laws this one inbox c] w show ?thesis
    by (auto intro: mirrored_same)
qed

end
