(* ===== verification/Worker_Live.thy ===== *)
theory Worker_Live
  imports Worker_Replay
begin

text \<open>
  A command does not wait for ever: it has returned by its deadline, with the result GDB sent for it,
  with the timeout that fences its token, or with a failure of the session.
\<close>

section \<open>What a command leaves alone while it waits\<close>

definition unarmed :: "nat \<Rightarrow> (nat \<times> ExecutionInput) list \<Rightarrow> Worker \<Rightarrow> bool" where
  "unarmed n ib w \<longleftrightarrow> wk_now w = n \<and> wk_inbox w = ib \<and> wk_interrupt_fallback_at w = None"

lemma unarmed_frame: "event_frame (unarmed n ib)"
  by (simp add: event_frame_def exec_part_def unarmed_def)

interpretation patient: session_invariant env "unarmed n ib" "\<lambda>_ _. True" for env n ib
  by (intro frame_session unarmed_frame) (auto simp: same_session_def unarmed_def)

text \<open>The failures that end a session.\<close>

lemma fatal_journaled: "fails_fatally (journaled env m)"
  using fatal_journal_result [of env]
  by (auto simp: fails_fatally_def journaled_def act_then_def split: prod.splits)

lemma fatal_unmatched: "fails_fatally (handle_unmatched_result env rd)"
  by (cases rd) (simp_all add: handle_unmatched_result_def fatal_event fatal_simple)

lemma fatal_resolve: "fails_fatally (resolve_delayed env rd)"
proof -
  have "fails_fatally (act_bind (handle_event env ev) (\<lambda>_. act_return x))" for ev and x :: "nat option"
    by (intro fatal_bind fatal_event fatal_simple)
  then show ?thesis
    by (auto simp: fails_fatally_def resolve_delayed_def split: prod.splits option.splits)
qed

lemma fatal_outcome: "fails_fatally (outcome_unknown env tok)"
  unfolding outcome_unknown_def by (intro fatal_bind fatal_event fatal_simple)

lemma fatal_input:
  assumes "input \<noteq> GdbEof"
  shows "fails_fatally (process_input env input)"
proof (cases input)
  case (Mi raw rd)
  have "fails_fatally (case normalize rd of None \<Rightarrow> act_return (Some (rd, n)) | Some event \<Rightarrow>
      act_bind (act_update (count_event event \<circ> route_output event)) (\<lambda>_.
      act_bind (handle_event env event) (\<lambda>_.
      act_bind (act_update settle_interrupt) (\<lambda>_. act_return (Some (rd, n))))))" for n
    by (cases "normalize rd") (simp_all add: fatal_bind fatal_event fatal_simple)
  then have "fails_fatally (receive_record env raw rd)"
    unfolding receive_record_def by (intro fatal_bind fatal_journaled fatal_simple)
  with Mi show ?thesis by (simp add: fails_fatally_def)
next
  case (ProtocolError e)
  have k: "keeps wk_fatal (act_then (handle_event env ev) (\<lambda>lost.
      act_then (handle_event env ev') (\<lambda>exited.
      act_bind (act_update mark_failed) (\<lambda>_.
      act_bind (act_result lost) (\<lambda>_.
      act_bind (act_result exited) (\<lambda>_. act_fail e :: (MiRecord \<times> nat) option worker_act))))))" for ev ev'
    by (intro keeps_then keeps_bind keeps_update keeps_simple sticky.keep_event) simp_all
  have "fails_fatally (lose_protocol env e :: (MiRecord \<times> nat) option worker_act)"
    unfolding fails_fatally_def lose_protocol_def by (auto simp: act_bind_def [of "act_update _"] act_update_def dest: keepsD [OF k, rotated])
  with ProtocolError show ?thesis by (simp add: fails_fatally_def)
next
  case (GdbStderr bs)
  have "fails_fatally (act_bind (receive_stderr env bs) (\<lambda>_. act_return None))"
    unfolding receive_stderr_def by (intro fatal_bind fatal_journaled fatal_simple)
  with GdbStderr show ?thesis by (simp add: fails_fatally_def)
next
  case InferiorPty
  have "fails_fatally (receive_pty env)"
  proof -
    have "fails_fatally (act_bind (journaled env (\<lambda>io. append_inferior_output (ev_codec env) io a b d)) (\<lambda>_.
        act_bind (act_update f) (\<lambda>_. handle_event env ev)))" for a b d f ev
      by (intro fatal_bind fatal_journaled fatal_simple fatal_event)
    then show ?thesis by (auto simp: fails_fatally_def receive_pty_def Let_def split: if_splits)
  qed
  then have "fails_fatally (act_bind (receive_pty env) (\<lambda>_. act_return None))"
    by (intro fatal_bind fatal_simple)
  with InferiorPty show ?thesis by (simp add: fails_fatally_def)
qed (use assms in simp)

section \<open>One iteration of the wait\<close>

definition from_backend :: "nat \<times> ExecutionInput \<Rightarrow> bool" where
  "from_backend e = (case snd e of BackendReady _ \<Rightarrow> True | _ \<Rightarrow> False)"

definition waits :: "nat \<Rightarrow> ExecState \<Rightarrow> Worker \<Rightarrow> bool" where
  "waits deadline x w \<longleftrightarrow>
     es_pending x = None \<and> es_normal x = None \<and> wk_interrupt_fallback_at w = None \<and> wk_now w \<le> deadline \<and>
     list_all from_backend (wk_inbox w)"

definition answers :: "nat \<Rightarrow> nat \<times> ExecutionInput \<Rightarrow> bool" where
  "answers tok e =
     (case snd e of BackendReady (Some (Mi raw rd)) \<Rightarrow> result_token rd = Some tok | _ \<Rightarrow> False)"

definition ends_input :: "nat \<times> ExecutionInput \<Rightarrow> bool" where
  "ends_input e \<longleftrightarrow> snd e \<in> {BackendReady None, BackendReady (Some GdbEof)}"

text \<open>How a command has come to its result, with the input it has used.\<close>

definition answered :: "WorkerEnv \<Rightarrow> nat \<Rightarrow> nat \<Rightarrow> (nat \<times> ExecutionInput) list \<Rightarrow> CommandReply result \<Rightarrow> bool" where
  "answered env tok deadline used r \<longleftrightarrow>
     (\<exists>pre t raw rd n streams truncated.
        used = pre @ [(t, BackendReady (Some (Mi raw rd)))] \<and> t \<le> deadline \<and> result_token rd = Some tok \<and>
        r = command_reply env tok rd n streams truncated)"

definition fenced :: "nat \<Rightarrow> nat \<Rightarrow> (nat \<times> ExecutionInput) list \<Rightarrow> CommandReply result \<Rightarrow> Worker \<Rightarrow> bool" where
  "fenced tok deadline used r w \<longleftrightarrow>
     r = Err (command_timeout tok) \<and> wk_now w = deadline \<and> tok \<in> wk_timed_out_tokens w \<and>
     list_all (\<lambda>e. \<not> answers tok e) used"

definition broken :: "(nat \<times> ExecutionInput) list \<Rightarrow> CommandReply result \<Rightarrow> Worker \<Rightarrow> bool" where
  "broken used r w \<longleftrightarrow> (\<exists>e. r = Err e) \<and> (wk_fatal w \<or> (\<exists>pre e. used = pre @ [e] \<and> ends_input e))"

lemma expire_waits:
  assumes w: "waits deadline x w" and now: "wk_now w = deadline"
    and step: "exec_deadline env tok deadline x w = (fl, w')"
  shows "wk_now w' = deadline \<and> wk_inbox w' = wk_inbox w \<and>
    (case fl of
       Return r \<Rightarrow> (\<exists>e. r = Err e) \<and> wk_fatal w'
     | Again x' \<Rightarrow> es_pending x' = None \<and> es_normal x' = Some (Err (command_timeout tok)) \<and> tok \<in> wk_timed_out_tokens w')"
proof -
  from w have x: "es_pending x = None" "es_normal x = None" "wk_interrupt_fallback_at w = None" by (simp_all add: waits_def)
  have d: "exec_deadline env tok deadline x w = or_return (outcome_unknown env tok) (\<lambda>_ w1.
      (Again (x\<lparr>es_normal := Some (Err (command_timeout tok))\<rparr>), w1)) w"
    using x now by (simp add: exec_deadline_def or_return_def escalate_acknowledged_interrupt_def and_then_def
        escalate_pending_def expire_pending_def expire_command_def)
  obtain r t where t: "outcome_unknown env tok w = (r, t)" by (cases "outcome_unknown env tok w")
  have "wk_now t = deadline" using timers_outcome [of env tok w] t now by (simp add: timers_def)
  moreover have "wk_inbox t = wk_inbox w"
    using keepsD [OF inbox.keep_outcome_unknown [of "wk_inbox w" env tok] refl t] by simp
  moreover have "tok \<in> wk_timed_out_tokens t"
  proof -
    let ?w = "w\<lparr>wk_timed_out_tokens := insert tok (wk_timed_out_tokens w)\<rparr>"
    obtain r1 w1 where e: "handle_event env (CommandOutcomeUnknown tok) ?w = (r1, w1)"
      by (cases "handle_event env (CommandOutcomeUnknown tok) ?w")
    have "wk_timed_out_tokens w1 = insert tok (wk_timed_out_tokens w)"
      using exec_part_event [of env "CommandOutcomeUnknown tok" ?w] e by (simp add: exec_part_def)
    with t e show ?thesis
      by (cases r1) (auto simp: outcome_unknown_def act_bind_def act_update_def elapsed_command_def)
  qed
  moreover have "wk_fatal t" if "r = Err e" for e
    using fatal_outcome [of env tok] t that by (auto simp: fails_fatally_def)
  ultimately show ?thesis using d t step x by (cases r) (auto simp: or_return_def)
qed

lemma input_record:
  assumes "process_input env input w = (Ok out, w1)"
  shows "(\<exists>raw rd n. input = Mi raw rd \<and> out = Some (rd, n)) \<or> (out = None \<and> (\<forall>raw rd. input \<noteq> Mi raw rd))"
proof (cases input)
  case (Mi raw rd)
  with assms show ?thesis
    by (auto simp: receive_record_def act_bind_Ok act_return_def split: option.splits)
next
  case (ProtocolError e)
  obtain r1 v1 where "handle_event env (DomainEvent.ConsistencyLost (error_string e))
      (upd_metrics (consistency_lost \<circ> mi_parse_error) (w\<lparr>wk_fatal := True\<rparr>)) = (r1, v1)" by fastforce
  moreover obtain r2 v2 where "handle_event env (BackendExited None) v1 = (r2, v2)" by fastforce
  ultimately show ?thesis
    using assms ProtocolError
    by (cases r1; cases r2) (simp_all add: lose_protocol_def act_bind_def act_then_def act_update_def act_fail_def act_result_def)
next
  case GdbEof
  then show ?thesis
    using assms
    by (auto simp: receive_eof_def act_bind_Ok act_then_def act_fail_def split: prod.splits)
qed (use assms in \<open>auto simp: act_bind_Ok act_return_def\<close>)

lemma backend_waits:
  assumes w: "waits deadline x w" and step: "exec_backend env tok b x w = (fl, w')"
  shows "unarmed (wk_now w) (wk_inbox w) w' \<and>
    (case fl of
       Return r \<Rightarrow> (\<exists>e. r = Err e) \<and> (wk_fatal w' \<or> b \<in> {None, Some GdbEof})
     | Again x' \<Rightarrow>
         (waits deadline x' w' \<and> \<not> answers tok (t, BackendReady b)) \<or>
         (es_pending x' = None \<and> (\<exists>raw rd n streams truncated. b = Some (Mi raw rd) \<and>
            result_token rd = Some tok \<and> es_normal x' = Some (command_reply env tok rd n streams truncated))))"
proof (cases b)
  case None
  with w step show ?thesis by (auto simp: waits_def unarmed_def)
next
  case (Some input)
  let ?u = "unarmed (wk_now w) (wk_inbox w)"
  have u: "?u w" using w by (simp add: waits_def unarmed_def)
  have again: "waits deadline y v" if "?u v" "es_pending y = None" "es_normal y = None" for y v
    using w that by (simp add: waits_def unarmed_def)
  from w have x: "es_pending x = None" "es_normal x = None" by (simp_all add: waits_def)
  obtain r w1 where i: "process_input env input w = (r, w1)" by (cases "process_input env input w")
  have u1: "?u w1" by (rule keepsD [OF patient.keep_input u i]) simp
  show ?thesis
  proof (cases r)
    case (Inl e)
    have "wk_fatal w1 \<or> input = GdbEof" using fatal_input [of input env] i Inl by (auto simp: fails_fatally_def)
    with Inl i step Some u1 show ?thesis by (auto simp: or_return_def)
  next
    case (Inr out)
    from input_record [OF i [unfolded Inr]] consider raw rd n where "input = Mi raw rd" "out = Some (rd, n)"
      | "out = None" "\<forall>raw rd. input \<noteq> Mi raw rd" by blast
    then show ?thesis
    proof cases
      case 2
      with Inr i step Some have "fl = Again x" "w' = w1" by (simp_all add: or_return_def)
      moreover have "\<not> answers tok (t, BackendReady b)"
        using 2 Some by (cases input) (simp_all add: answers_def)
      ultimately show ?thesis using again [OF u1 x] u1 by simp
    next
      case 1
      with Inr i step Some have st: "exec_record env tok rd n x w1 = (fl, w')" by (simp add: or_return_def)
      obtain d w2 where d: "resolve_delayed env rd w1 = (d, w2)" by (cases "resolve_delayed env rd w1")
      have u2: "?u w2" by (rule keepsD [OF patient.keep_resolve u1 d])
      have pm: "pending_matches x rd = None" using x by (simp add: pending_matches_def)
      show ?thesis
      proof (cases d)
        case (Inl e)
        with fatal_resolve [of env rd] d have "wk_fatal w2" by (auto simp: fails_fatally_def)
        with Inl d st u2 show ?thesis by (auto simp: exec_record_def or_return_def)
      next
        case (Inr delayed)
        show ?thesis
        proof (cases "result_token rd = Some tok")
          case True
          with Inr d st pm have "fl = Again (x\<lparr>es_normal := Some (command_reply env tok rd n (es_streams x) (es_truncated x)),
               es_streams := []\<rparr>)" "w' = elapsed_command env False w2"
            by (simp_all add: exec_record_def or_return_def answer_command_def)
          moreover have "?u (elapsed_command env False w2)" using u2 by (simp add: unarmed_def elapsed_command_def)
          ultimately show ?thesis using True 1(1) Some x by auto
        next
          case False
          let ?m = "if delayed = None then handle_unmatched_result env rd else act_return ()"
          obtain q w3 where q: "?m w2 = (q, w3)" by (cases "?m w2")
          have "keeps ?u ?m" by (simp add: patient.keep_unmatched keeps_simple)
          from keepsD [OF this u2 q] have u3: "?u w3" .
          have st3: "or_return ?m (\<lambda>_ w1. (Again (collect_stream rd (wk_stream_limit w1) x), w1)) w2 = (fl, w')"
            using st Inr d pm False by (simp add: exec_record_def or_return_def [of "resolve_delayed _ _"] other_record_def)
          have na: "\<not> answers tok (t, BackendReady b)" using False 1(1) Some by (simp add: answers_def)
          show ?thesis
          proof (cases q)
            case (Inl e)
            have "fails_fatally ?m" by (simp add: fatal_unmatched fatal_simple)
            with q Inl have "wk_fatal w3" by (auto simp: fails_fatally_def)
            with Inl q st3 u3 show ?thesis by (auto simp: or_return_def)
          next
            case (Inr y)
            with q st3 have fl: "fl = Again (collect_stream rd (wk_stream_limit w3) x)" "w' = w3"
              by (auto simp: or_return_def)
            have "es_pending (collect_stream rd lim x) = None" "es_normal (collect_stream rd lim x) = None" for lim
              using x by (simp_all add: collect_stream_def)
            with again [OF u3] fl u3 na show ?thesis by simp
          qed
        qed
      qed
    qed
  qed
qed

section \<open>The whole wait\<close>

definition settles :: "WorkerEnv \<Rightarrow> nat \<Rightarrow> nat \<Rightarrow> (nat \<times> ExecutionInput) list \<Rightarrow> CommandReply result \<Rightarrow> Worker \<Rightarrow> bool" where
  "settles env tok deadline used r w \<longleftrightarrow>
     answered env tok deadline used r \<or> fenced tok deadline used r w \<or> broken used r w"

lemma select_waits:
  assumes w: "waits deadline x w"
  obtains (expired) "select_input (exec_wake deadline x w) w = (Deadline, w\<lparr>wk_now := deadline\<rparr>)"
  | (input) t b rest where "wk_inbox w = (t, BackendReady b) # rest" "t \<le> deadline"
      "select_input (exec_wake deadline x w) w = (BackendReady b, w\<lparr>wk_inbox := rest, wk_now := max (wk_now w) t\<rparr>)"
proof -
  have wake: "exec_wake deadline x w = deadline" "max (wk_now w) deadline = deadline"
    using w by (simp_all add: waits_def exec_wake_def)
  show ?thesis
  proof (cases "wk_inbox w")
    case Nil
    then show ?thesis by (intro expired) (simp add: select_input_def wake Let_def)
  next
    case (Cons e rest)
    with w obtain t b where e: "e = (t, BackendReady b)"
      by (cases e) (auto simp: waits_def from_backend_def split: ExecutionInput.splits)
    show ?thesis
    proof (cases "t \<le> deadline")
      case True
      with Cons e show ?thesis by (intro input) (auto simp: select_input_def wake Let_def)
    next
      case False
      with Cons e show ?thesis by (intro expired) (simp add: select_input_def wake Let_def)
    qed
  qed
qed

lemma returned:
  "es_pending x = None \<Longrightarrow> es_normal x = Some r \<Longrightarrow> exec_loop env tok deadline x w = (r, w)"
  by (subst exec_loop.simps) (simp add: returns_now_def)

lemma exec_loop_settles:
  "waits deadline x w \<Longrightarrow> exec_loop env tok deadline x w = (r, w') \<Longrightarrow>
     \<exists>used. wk_inbox w = used @ wk_inbox w' \<and> wk_now w' \<le> deadline \<and> settles env tok deadline used r w'"
proof (induction env tok deadline x w rule: exec_loop.induct)
  case (1 env tok deadline x w)
  note w = "1.prems"(1)
  have nr: "\<not> returns_now x" using w by (simp add: waits_def returns_now_def)
  obtain fl w1 where st: "exec_step env tok deadline x w = (fl, w1)" by (cases "exec_step env tok deadline x w")
  have run: "(case fl of Again x' \<Rightarrow> exec_loop env tok deadline x' w1 | Return r \<Rightarrow> (r, w1)) = (r, w')"
    using "1.prems"(2) nr st by (subst (asm) exec_loop.simps) simp
  from w show ?case
  proof (cases rule: select_waits)
    case expired
    let ?w = "w\<lparr>wk_now := deadline\<rparr>"
    have d: "exec_deadline env tok deadline x ?w = (fl, w1)"
      using st expired by (simp add: exec_step_def exec_input_def)
    have "waits deadline x ?w" using w by (simp add: waits_def)
    note e = expire_waits [OF this _ d]
    show ?thesis
    proof (cases fl)
      case (Return q)
      with e run show ?thesis by (intro exI [of _ "[]"]) (auto simp: settles_def broken_def)
    next
      case (Again x')
      with e have x': "es_pending x' = None" "es_normal x' = Some (Err (command_timeout tok))" by simp_all
      from run Again returned [OF x'] have "r = Err (command_timeout tok)" "w' = w1" by auto
      with e Again show ?thesis by (intro exI [of _ "[]"]) (auto simp: settles_def fenced_def)
    qed
  next
    case (input t b rest)
    let ?w = "w\<lparr>wk_inbox := rest, wk_now := max (wk_now w) t\<rparr>"
    have b: "exec_backend env tok b x ?w = (fl, w1)"
      using st input by (simp add: exec_step_def exec_input_def)
    have ww: "waits deadline x ?w" using w input by (simp add: waits_def)
    note s = backend_waits [OF ww b, of t]
    then have u: "wk_now w1 \<le> deadline" "wk_inbox w1 = rest" using ww by (simp_all add: unarmed_def waits_def)
    show ?thesis
    proof (cases fl)
      case (Return q)
      with s run have "(\<exists>e. r = Err e) \<and> (wk_fatal w' \<or> b \<in> {None, Some GdbEof})" "w' = w1" by auto
      then have "broken [(t, BackendReady b)] r w'" by (auto simp: broken_def ends_input_def)
      with u input \<open>w' = w1\<close> show ?thesis by (intro exI [of _ "[(t, BackendReady b)]"]) (simp add: settles_def)
    next
      case (Again x')
      with s consider (on) "waits deadline x' w1" "\<not> answers tok (t, BackendReady b)"
        | (ans) raw rd n streams truncated where "es_pending x' = None" "b = Some (Mi raw rd)" "result_token rd = Some tok"
            "es_normal x' = Some (command_reply env tok rd n streams truncated)" by auto
      then show ?thesis
      proof cases
        case ans
        from run Again returned [OF ans(1,4)] have "r = command_reply env tok rd n streams truncated" "w' = w1" by auto
        then have "answered env tok deadline [(t, BackendReady b)] r"
          using ans input(2) unfolding answered_def by (intro exI [of _ "[]"]) auto
        with u input \<open>w' = w1\<close> show ?thesis by (intro exI [of _ "[(t, BackendReady b)]"]) (simp add: settles_def)
      next
        case on
        from "1.IH" [OF nr st [symmetric] Again on(1)] run Again obtain used where
          used: "wk_inbox w1 = used @ wk_inbox w'" "wk_now w' \<le> deadline" "settles env tok deadline used r w'" by auto
        have "settles env tok deadline ((t, BackendReady b) # used) r w'"
        proof -
          have snoc: "e # pre @ [z] = (e # pre) @ [z]" for e z :: "nat \<times> ExecutionInput" and pre by simp
          show ?thesis
            using used(3) on(2) unfolding settles_def answered_def fenced_def broken_def
            by (elim disjE exE conjE; simp; (blast | metis snoc))
        qed
        with used u input show ?thesis by (intro exI [of _ "(t, BackendReady b) # used"]) simp
      qed
    qed
  qed
qed

end
