(* ===== verification/Worker_Sample.thy ===== *)
theory Worker_Sample
  imports Worker_Start Worker_Live "HOL-Library.Countable"
begin

text \<open>
  A concrete surrounding for the worker: a serialisation that reads back what it wrote, an operating
  system that does not fail, and a GDB that shows its prompt and answers every command.  In it a session
  starts, so the laws the development assumes of the outside can hold together.
\<close>

section \<open>Events and states can be written\<close>

instance word :: (len) countable
  by (rule countable_classI [of unat]) (simp add: word_unat_eq_iff)

instance FrameSummary_ext :: (countable) countable
  by (rule countable_classI [of "\<lambda>r. to_nat (frame_level r, frame_address r, frame_function r, frame_module r, frame_source r,
    frame_line r, FrameSummary.more r)"]) simp

instance StopReason :: countable by countable_datatype

instance BreakpointLocationState_ext :: (countable) countable
  by (rule countable_classI [of "\<lambda>r. to_nat (loc_id r, loc_backend_number r, loc_address r, loc_function r,
    BreakpointLocationState.more r)"]) simp

instance SignalPolicyState_ext :: (countable) countable
  by (rule countable_classI [of "\<lambda>r. to_nat (sig_stop r, sig_print r, sig_pass r, SignalPolicyState.more r)"]) simp

instance TargetOrigin :: countable by countable_datatype

instance OutputSource :: countable by countable_datatype

instance DomainEvent :: countable by countable_datatype

instance SessionLifecycle :: countable by countable_datatype

instance BackendHealth :: countable by countable_datatype

instance Consistency :: countable by countable_datatype

instance InferiorStatus :: countable by countable_datatype

instance SnapshotStatus :: countable by countable_datatype

instance ThreadState_ext :: (countable) countable
  by (rule countable_classI [of "\<lambda>r. to_nat (thr_id r, thr_backend_id r, thr_running r, thr_frame r, ThreadState.more r)"]) simp

instance InferiorState_ext :: (countable) countable
  by (rule countable_classI [of "\<lambda>r. to_nat (inf_id r, inf_backend_id r, inf_pid r, inf_generation r, inf_status r, inf_exit_code r,
    inf_threads r, InferiorState.more r)"]) simp

instance SnapshotRef_ext :: (countable) countable
  by (rule countable_classI [of "\<lambda>r. to_nat (snap_snapshot_id r, snap_stop_id r, snap_status r, snap_partial r, SnapshotRef.more r)"]) simp

instance BreakpointState_ext :: (countable) countable
  by (rule countable_classI [of "\<lambda>r. to_nat (bp_id r, bp_backend_number r, bp_enabled r, bp_pending r, bp_locations r,
    BreakpointState.more r)"]) simp

instance ModuleState_ext :: (countable) countable
  by (rule countable_classI [of "\<lambda>r. to_nat (mod_id r, mod_target_name r, mod_host_name r, mod_symbols_loaded r, ModuleState.more r)"]) simp

instance SessionState_ext :: (countable) countable
  by (rule countable_classI [of "\<lambda>r. to_nat (session_id r, lifecycle r, backend r, consistency r, reconciliation_required r, event_seq
    r, revision r, execution_epoch r, outcome_unknown_tokens r, stop_id r, stop_reason r,
    stop_reason_detail r, stopped_inferior_id r, stopped_thread_id r, target_origin r,
    inferiors r, breakpoints r, modules r, signal_policies r, snapshot r, limitations r,
    SessionState.more r)"]) simp

section \<open>The surrounding\<close>

fun object_field :: "Json \<Rightarrow> string \<Rightarrow> Json option" where
  "object_field (JObject kvs) k = map_of kvs k"
| "object_field _ k = None"

fun number_of :: "Json \<Rightarrow> nat option" where
  "number_of (JNumber i) = Some (nat i)"
| "number_of _ = None"

fun text_of :: "Json \<Rightarrow> string option" where
  "text_of (JString s) = Some s"
| "text_of _ = None"

definition coded :: "'a :: countable \<Rightarrow> Json" where
  "coded x = JNumber (int (to_nat x))"

definition decoded :: "Json \<Rightarrow> (string, 'a :: countable) res" where
  "decoded v = (case number_of v of Some n \<Rightarrow> Ok (from_nat n) | None \<Rightarrow> Err ''invalid value'')"

definition sample_codec :: "Json Codec" where
  "sample_codec =
     \<lparr>cd_object = JObject, cd_string = JString, cd_number = (\<lambda>n. JNumber (int n)), cd_event = coded,
      cd_state = coded, cd_gap = (\<lambda>g. coded (gap_from_seq g, gap_reason g)), cd_line = (\<lambda>_. []),
      cd_base64 = string_of_bytes, cd_get = object_field, cd_as_str = text_of, cd_as_u64 = number_of,
      cd_from_event = decoded, cd_from_state = decoded,
      cd_from_gap = (\<lambda>v. case decoded v of Ok (n, s) \<Rightarrow> Ok \<lparr>gap_from_seq = n, gap_reason = s\<rparr> | Err e \<Rightarrow> Err e),
      cd_parse = (\<lambda>_. Err ''unused''), cd_unbase64 = (\<lambda>s. Ok (as_bytes s))\<rparr>"

lemma decoded_coded [simp]: "decoded (coded x) = Ok x"
  by (simp add: decoded_def coded_def)

lemma sample_laws: "codec_laws sample_codec"
  by (simp add: codec_laws_def sample_codec_def)

definition sample_io :: JournalIo where
  "sample_io = \<lparr>io_write = None, io_flush = None, io_sync = None, io_marker = None\<rparr>"

definition sample_env :: WorkerEnv where
  "sample_env =
     \<lparr>ev_codec = sample_codec, ev_io = (\<lambda>_. sample_io), ev_store = (\<lambda>_. Ok ()), ev_ulid = (\<lambda>_. ''0''),
      ev_micros = (\<lambda>_. 0), ev_backend = (\<lambda>_. Ok ()), ev_exit_status = (\<lambda>_. Ok None),
      ev_evidence = (\<lambda>_. Err (new_error Internal ''unused'')), ev_module_offset = (\<lambda>_. Ok None),
      ev_cancelled = (\<lambda>_ _. False), ev_record_json = (\<lambda>_. JNull), ev_json_bytes = (\<lambda>_. 1),
      ev_tokens_text = (\<lambda>_. []), ev_layout = (\<lambda>_. 0), ev_spool = (\<lambda>_. None), ev_written = (\<lambda>_. Ok 0)\<rparr>"

lemma sample_env_simps [simp]:
  "ev_codec sample_env = sample_codec" "ev_io sample_env n = sample_io" "ev_backend sample_env n = Ok ()"
  "ev_store sample_env n = Ok ()"
  by (simp_all add: sample_env_def)

section \<open>A journal with room\<close>

definition room :: "nat \<Rightarrow> Json Journal \<Rightarrow> bool" where
  "room k j \<longleftrightarrow> jr_open j \<and> jr_gap j = None \<and> jr_durability j = Performance \<and>
     jr_bytes_written j + k + 256 \<le> jr_max_bytes j \<and> jr_max_bytes j < u64_max"

lemma append_room:
  assumes "room (Suc k) j"
  shows "\<exists>j'. append_entry sample_codec sample_io kind v j = (Ok (jr_next_seq j), j') \<and> room k j' \<and>
    jr_next_seq j' = Suc (jr_next_seq j)"
proof -
  let ?j1 = "j\<lparr>jr_next_seq := jr_next_seq j + 1\<rparr>"
  let ?e = "\<lparr>ent_seq = jr_next_seq j, ent_kind = kind, ent_data = v\<rparr>"
  let ?j2 = "accept_record sample_codec ?e ?j1"
  have lb: "line_bytes sample_codec e = 1" for e by (simp add: line_bytes_def sample_codec_def)
  have fits: "\<not> saturating_add (jr_bytes_written j) 1 > jr_max_bytes j - 256" "\<not> is_durable j" "jr_open j"
    using assms by (auto simp: room_def saturating_add_def is_durable_def)
  have a: "append_entry sample_codec sample_io kind v j =
      (if jr_unflushed ?j2 \<ge> 64 then act_bind (journal_flush sample_io) (\<lambda>_. act_return (jr_next_seq j)) ?j2
       else (Ok (jr_next_seq j), ?j2))"
    using fits by (simp add: append_entry_def Let_def lb sample_io_def is_durable_def)
  have r2: "room k ?j2" "jr_next_seq ?j2 = Suc (jr_next_seq j)"
    using assms by (auto simp: room_def accept_record_def lb)
  have "\<exists>j'. journal_flush sample_io ?j2 = (Ok (), j') \<and> room k j' \<and> jr_next_seq j' = Suc (jr_next_seq j)"
    using r2 by (auto simp: journal_flush_def sample_io_def room_def is_durable_def)
  then show ?thesis using a r2 by (auto simp: act_bind_def act_return_def)
qed

section \<open>A GDB that answers\<close>

definition done_record :: "nat \<Rightarrow> MiRecord" where
  "done_record tok = Result (Some tok) ''done'' []"

definition done_entry :: "nat \<Rightarrow> nat \<times> ExecutionInput" where
  "done_entry tok = (0, BackendReady (Some (Mi (render_headed 0x5E (Some tok) ''done'' []) (done_record tok))))"

lemma show_nat_short: "length (show_nat n) \<le> Suc n"
  by (induction n rule: show_nat.induct) (subst show_nat.simps, auto)

lemma done_recorded:
  assumes "tok < 1000"
  shows "recorded (render_headed 0x5E (Some tok) ''done'' []) (done_record tok)"
proof -
  have "headed_wf default_limits (Some tok) ''done'' []"
    using assms by (simp add: headed_wf_def identifier_string_def identifier_byte_def is_ascii_alphanumeric_def
        is_ascii_digit_def byte_of_char_def default_limits_def)
  moreover have "length (render_headed 0x5E (Some tok) ''done'' []) \<le> max_record_bytes default_limits"
    using show_nat_short [of tok] assms by (simp add: render_headed_def default_limits_def)
  ultimately show ?thesis
    unfolding done_record_def by (rule parse_record_headed) (simp_all add: record_prefixes)
qed

definition succeeds :: "(Worker \<Rightarrow> bool) \<Rightarrow> 'a worker_act \<Rightarrow> (Worker \<Rightarrow> bool) \<Rightarrow> bool" where
  "succeeds P m Q \<longleftrightarrow> (\<forall>w. P w \<longrightarrow> (\<exists>x w'. m w = (Ok x, w') \<and> Q w'))"

lemma succeeds_bind: "succeeds P m Q \<Longrightarrow> (\<And>x. succeeds Q (f x) R) \<Longrightarrow> succeeds P (act_bind m f) R"
  unfolding succeeds_def act_bind_def by fastforce

lemma succeeds_update: "(\<And>w. P w \<Longrightarrow> Q (f w)) \<Longrightarrow> succeeds P (act_update f) Q"
  by (simp add: succeeds_def act_update_def)

lemma succeeds_return: "succeeds P (act_return x) P"
  by (simp add: succeeds_def act_return_def)

text \<open>The answers to the next \<open>n\<close> commands lie ready, and the journal has room for them and \<open>k\<close> more records.\<close>

definition serving :: "nat \<Rightarrow> nat \<Rightarrow> Worker \<Rightarrow> bool" where
  "serving k n w \<longleftrightarrow> room (2 * n + k) (wk_journal w) \<and> \<not> wk_fatal w \<and> wk_timed_out_tokens w = {} \<and>
     wk_interrupt_fallback_at w = None \<and>
     wk_inbox w = map done_entry [wk_next_token w ..< wk_next_token w + n] \<and> wk_next_token w + n < u64_max"

lemma journaled_room:
  assumes "room (Suc k) (wk_journal w)"
  shows "\<exists>n j'. journaled sample_env (\<lambda>io. append_entry sample_codec io kind v) w =
      (Ok n, w\<lparr>wk_journal := j', wk_calls := wk_calls w + 1\<rparr>) \<and> room k j'"
proof -
  from append_room [OF assms] obtain j' where
    j': "append_entry sample_codec sample_io kind v (wk_journal w) = (Ok (jr_next_seq (wk_journal w)), j')" "room k j'" by blast
  moreover have "jr_gap j' = None" using j'(2) by (simp add: room_def)
  ultimately show ?thesis
    by (auto simp: journaled_def act_then_def with_journal_def journal_result_def report_journal_gap_def
        act_bind_def act_return_def)
qed

lemma begin_serving:
  assumes "serving k (Suc n) w"
  shows "\<exists>w1. begin_command sample_env c w = (Ok (wk_next_token w), w1) \<and> wk_now w1 = wk_now w \<and>
    room (Suc (2 * n + k)) (wk_journal w1) \<and> \<not> wk_fatal w1 \<and> wk_timed_out_tokens w1 = {} \<and>
    wk_interrupt_fallback_at w1 = None \<and> wk_next_token w1 = Suc (wk_next_token w) \<and> wk_inbox w1 = wk_inbox w"
proof -
  let ?w = "w\<lparr>wk_next_token := wk_next_token w + 1\<rparr>"
  have "room (Suc (Suc (2 * n + k))) (wk_journal ?w)" using assms by (simp add: serving_def)
  from journaled_room [OF this, of "''mi.input''"] obtain m j' where
    "journaled sample_env (\<lambda>io. append_mi_input sample_codec io (wk_next_token w) (encoded c (wk_next_token w))) ?w =
      (Ok m, ?w\<lparr>wk_journal := j', wk_calls := wk_calls ?w + 1\<rparr>)" "room (Suc (2 * n + k)) j'"
    unfolding append_mi_input_def by blast
  with assms show ?thesis
    by (simp add: begin_command_def require_known_outcome_def require_known_outcome_name_def act_bind_def
        take_token_def send_line_def backend_call_def act_update_def act_return_def serving_def)
qed

lemma answered_loop:
  assumes inbox: "wk_inbox w = done_entry tok # rest" and open_outcomes: "wk_timed_out_tokens w = {}"
    and r: "room (Suc k) (wk_journal w)"
  shows "\<exists>q w'. exec_loop sample_env tok deadline exec_init w = (Ok q, w') \<and> room k (wk_journal w') \<and>
    wk_inbox w' = rest \<and> wk_fatal w' = wk_fatal w \<and> wk_timed_out_tokens w' = {} \<and>
    wk_interrupt_fallback_at w' = wk_interrupt_fallback_at w \<and> wk_next_token w' = wk_next_token w"
proof -
  let ?rd = "done_record tok"
  let ?raw = "render_headed 0x5E (Some tok) ''done'' []"
  let ?w1 = "w\<lparr>wk_inbox := rest\<rparr>"
  let ?w2 = "upd_metrics mi_record ?w1"
  have "room (Suc k) (wk_journal ?w2)" using r by simp
  from journaled_room [OF this, of "''mi.output''"] obtain m j' where
    j: "journaled sample_env (\<lambda>io. append_mi_output sample_codec io ?raw) ?w2 =
      (Ok m, ?w2\<lparr>wk_journal := j', wk_calls := wk_calls ?w2 + 1\<rparr>)" "room k j'"
    unfolding append_mi_output_def append_base64_def by blast
  let ?w3 = "?w2\<lparr>wk_journal := j', wk_calls := wk_calls ?w2 + 1\<rparr>"
  have rec: "receive_record sample_env ?raw ?rd ?w1 = (Ok (Some (?rd, m)), ?w3)"
    using j by (simp add: receive_record_def act_bind_def act_update_def done_record_def act_return_def)
  have sel: "select_input (exec_wake deadline exec_init w) w = (BackendReady (Some (Mi ?raw ?rd)), ?w1)"
    using inbox by (simp add: select_input_def done_entry_def Let_def)
  have delayed: "resolve_delayed sample_env ?rd ?w3 = (Ok None, ?w3)"
    using open_outcomes by (simp add: resolve_delayed_def take_delayed_token_def done_record_def result_token_def)
  have tk: "result_token ?rd = Some tok" by (simp add: done_record_def result_token_def)
  let ?r = "command_reply sample_env tok ?rd m [] False"
  let ?x = "exec_init\<lparr>es_normal := Some ?r, es_streams := []\<rparr>"
  have pm: "pending_matches exec_init ?rd = None" by (simp add: pending_matches_def exec_init_def)
  have "exec_record sample_env tok ?rd m exec_init ?w3 = (Again ?x, elapsed_command sample_env False ?w3)"
    unfolding exec_record_def or_return_def delayed prod.case sum.case pm option.case
    by (simp add: tk answer_command_def) (simp add: exec_init_def)
  then have step: "exec_step sample_env tok deadline exec_init w = (Again ?x, elapsed_command sample_env False ?w3)"
    unfolding exec_step_def sel by (simp add: exec_input_def or_return_def rec)
  have "exec_loop sample_env tok deadline exec_init w = (?r, elapsed_command sample_env False ?w3)"
  proof (subst exec_loop.simps)
    have "\<not> returns_now exec_init" by (simp add: returns_now_def exec_init_def)
    moreover have "exec_loop sample_env tok deadline ?x v = (?r, v)" for v
      by (rule returned) (simp_all add: exec_init_def)
    ultimately show "(if returns_now exec_init then (the (es_normal exec_init), w)
        else case exec_step sample_env tok deadline exec_init w of
          (Again x', w') \<Rightarrow> exec_loop sample_env tok deadline x' w' | (Return r, w') \<Rightarrow> (r, w')) =
        (?r, elapsed_command sample_env False ?w3)" by (simp add: step)
  qed
  moreover have "\<exists>q. ?r = Ok q" by (simp add: command_reply_def done_record_def)
  ultimately show ?thesis using j(2) open_outcomes by (auto simp: elapsed_command_def)
qed

lemma answered_serving:
  assumes s: "serving k (Suc n) w" and now: "wk_now w < deadline"
  shows "\<exists>r w'. execute_until_inner sample_env c deadline w = (Ok r, w') \<and> serving k n w'"
proof -
  let ?tok = "wk_next_token w"
  from begin_serving [OF s] obtain w1 where w1: "begin_command sample_env c w = (Ok ?tok, w1)"
    "wk_now w1 = wk_now w" "room (Suc (2 * n + k)) (wk_journal w1)" "\<not> wk_fatal w1" "wk_timed_out_tokens w1 = {}"
    "wk_interrupt_fallback_at w1 = None" "wk_next_token w1 = Suc ?tok" "wk_inbox w1 = wk_inbox w" by blast
  have inbox: "wk_inbox w1 = done_entry ?tok # map done_entry [Suc ?tok ..< Suc ?tok + n]"
    using s w1(8) by (simp add: serving_def upt_conv_Cons del: upt_Suc)
  from answered_loop [OF inbox w1(5,3), of deadline] obtain q w' where
    l: "exec_loop sample_env ?tok deadline exec_init w1 = (Ok q, w')" "room (2 * n + k) (wk_journal w')"
      "wk_inbox w' = map done_entry [Suc ?tok ..< Suc ?tok + n]" "wk_fatal w' = wk_fatal w1" "wk_timed_out_tokens w' = {}"
      "wk_interrupt_fallback_at w' = wk_interrupt_fallback_at w1" "wk_next_token w' = wk_next_token w1" by blast
  have "serving k n w'" using l w1 s by (simp add: serving_def del: upt_Suc)
  moreover have "execute_until_inner sample_env c deadline w = (Ok q, w')"
    using w1(1) l(1) now by (simp add: execute_until_inner_def act_bind_def)
  ultimately show ?thesis by blast
qed

lemma run_serving:
  assumes "is_ok command"
  shows "succeeds (serving k (Suc n)) (run_command sample_env command) (serving k n)"
  unfolding succeeds_def
proof (intro allI impI)
  fix w assume s: "serving k (Suc n) w"
  from assms obtain c where c: "command = Ok c" by (cases command) auto
  let ?d = "command_deadline (wk_now w) (wk_command_timeout w)"
  have "wk_now w < ?d" by (simp add: command_deadline_def)
  from answered_serving [OF s this] obtain r w' where
    "execute_until_inner sample_env c ?d w = (Ok r, w')" "serving k n w'" by blast
  then show "\<exists>x w'. run_command sample_env command w = (Ok x, w') \<and> serving k n w'"
    using c by (simp add: run_command_def act_bind_def act_result_def execute_def execute_until_def
        leftover_breakpoint_def)
qed

section \<open>The handshake\<close>

lemma run_all_serving: "list_all is_ok cs \<Longrightarrow> succeeds (serving k (length cs + n)) (run_all sample_env cs) (serving k n)"
  by (induction cs) (auto intro!: succeeds_bind succeeds_return run_serving)

lemma serving_update:
  assumes "\<And>w. wk_journal (f w) = wk_journal w \<and> wk_fatal (f w) = wk_fatal w \<and> wk_inbox (f w) = wk_inbox w \<and>
    wk_timed_out_tokens (f w) = wk_timed_out_tokens w \<and> wk_next_token (f w) = wk_next_token w \<and>
    wk_interrupt_fallback_at (f w) = wk_interrupt_fallback_at w"
  shows "succeeds (serving k n) (act_update f) (serving k n)"
  using assms by (intro succeeds_update) (simp add: serving_def)

lemma probe_ok: "is_ok (probe_command name)"
  by (simp add: probe_command_def command_new_def is_ascii_alphanumeric_def is_ascii_digit_def byte_of_char_def)

lemma probes_serving: "succeeds (serving k (length names + n)) (probe_commands sample_env names) (serving k n)"
proof (induction names)
  case (Cons name names)
  have "succeeds (serving k m) (act_update (if b then add_command name else id)) (serving k m)" for b m
    by (rule serving_update) (simp add: add_command_def)
  with Cons run_serving [OF probe_ok, of k "length names + n" name] show ?case
    by (auto intro!: succeeds_bind)
qed (simp add: succeeds_return)

lemma settings_ok: "list_all is_ok (handshake_settings profile)"
  by (simp add: handshake_settings_def bare_command_def command_new_def command_bare_def setting_on_def
      is_ascii_alphanumeric_def is_ascii_digit_def is_ascii_whitespace_def byte_of_char_def)

lemma handshake_serving:
  assumes "version \<noteq> ''mi3''"
  shows "succeeds (serving k 19) (handshake sample_env version pty_path) (serving k 0)"
proof -
  have script: "succeeds (serving k 19) (fix_script_output sample_env version) (serving k 19)"
    using assms by (simp add: fix_script_output_def succeeds_return)
  have all: "succeeds (serving k 19) (\<lambda>w. run_all sample_env (handshake_settings (wk_profile w)) w) (serving k 8)"
  proof -
    have "length (handshake_settings profile) + 8 = 19" for profile by (simp add: handshake_settings_def)
    then have "succeeds (serving k 19) (run_all sample_env (handshake_settings profile)) (serving k 8)" for profile
      using run_all_serving [OF settings_ok, of k profile 8] by simp
    then show ?thesis by (simp add: succeeds_def)
  qed
  have upd: "succeeds (serving k n) (act_update (learn_features rd)) (serving k n)"
      "succeeds (serving k n) (act_update (set_capability name status)) (serving k n)"
      "succeeds (serving k n) (act_update learn_commands) (serving k n)" for n rd name status
    by (rule serving_update; simp add: learn_features_def set_capability_def learn_commands_def Let_def)+
  have ok: "is_ok (command_new ''-list-features'')" "is_ok (command_new ''-gdb-version'')"
      "is_ok (bind_res (command_new ''-inferior-tty-set'') (\<lambda>c. Ok (command_string c pty_path)))"
    by (simp_all add: command_new_def is_ascii_alphanumeric_def is_ascii_digit_def byte_of_char_def)
  have one: "succeeds (serving k 8) (run_command sample_env (command_new ''-list-features'')) (serving k 7)"
      "succeeds (serving k 7) (run_command sample_env (command_new ''-gdb-version'')) (serving k 6)"
      "succeeds (serving k 1) (run_command sample_env (bind_res (command_new ''-inferior-tty-set'')
         (\<lambda>c. Ok (command_string c pty_path)))) (serving k 0)"
    using run_serving [OF ok(1), of k 7] run_serving [OF ok(2), of k 6] run_serving [OF ok(3), of k 0]
    by (simp_all add: eval_nat_numeral)
  have probes: "succeeds (serving k 6) (probe_commands sample_env [''-data-read-memory-bytes'', ''-data-write-memory-bytes'',
      ''-data-disassemble'', ''-break-watch'', ''-thread-info'']) (serving k 1)"
    using probes_serving [of k "[''-data-read-memory-bytes'', ''-data-write-memory-bytes'',
      ''-data-disassemble'', ''-break-watch'', ''-thread-info'']" 1] by (simp add: eval_nat_numeral)
  show ?thesis
    unfolding handshake_def
    by (rule succeeds_bind script all one upd probes succeeds_return)+
qed

section \<open>The start\<close>

lemma with_room:
  assumes "room (Suc k) (wk_journal w)"
  shows "\<exists>j'. with_journal sample_env (\<lambda>io. append_entry sample_codec io kind v) w =
      (Ok (jr_next_seq (wk_journal w)), w\<lparr>wk_journal := j', wk_calls := wk_calls w + 1\<rparr>) \<and> room k j' \<and>
      jr_next_seq j' = Suc (jr_next_seq (wk_journal w))"
  using append_room [OF assms, of kind v] by (auto simp: with_journal_def)

lemma event_serving:
  assumes s: "serving (Suc k) n w" and fresh: "event_seq (worker_session w) < jr_next_seq (wk_journal w)"
    and ev: "\<not> is_stop_event ev"
  shows "\<exists>w'. worker_apply_event sample_env ev w = (Ok (), w') \<and> serving k n w'"
proof -
  let ?w0 = "before_event ev w"
  let ?h = "apply_event_nested sample_env 3"
  have p0: "exec_part ?w0 = exec_part w" by simp
  have "room (Suc (2 * n + k)) (wk_journal ?w0)" using s by (simp add: serving_def)
  from with_room [OF this, of "''normalized.event''" "coded ev"] obtain j' where
    a: "with_journal sample_env (\<lambda>io. append_domain_ref sample_codec io ev) ?w0 =
      (Ok (jr_next_seq (wk_journal w)), ?w0\<lparr>wk_journal := j', wk_calls := wk_calls ?w0 + 1\<rparr>)" "room (2 * n + k) j'"
    by (auto simp: append_domain_ref_def sample_codec_def)
  let ?w1 = "?w0\<lparr>wk_journal := j', wk_calls := wk_calls ?w0 + 1\<rparr>"
  let ?b = "invalidates_values (worker_session w) ev"
  obtain r w2 where b: "reduce_event ?b (jr_next_seq (wk_journal w)) ev ?w1 = (r, w2)"
    by (cases "reduce_event ?b (jr_next_seq (wk_journal w)) ev ?w1")
  have "\<exists>x. apply_event (worker_session w) (jr_next_seq (wk_journal w)) ev = Ok x"
    using fresh by (simp add: apply_event_def)
  then obtain c where r: "r = Ok c"
    using b by (auto simp: reduce_event_def live_apply_event_with_def live_borrow_def split: option.splits prod.splits sum.splits)
  note f = reduce_event_frame [OF b]
  have p2: "exec_part w2 = exec_part w"
  proof -
    have "keeps (\<lambda>v. exec_part v = exec_part w) (reduce_event ?b m ev)" for m
      by (rule keeps_intro) (auto simp: reduce_event_def live_apply_event_with_def split: option.split sum.split prod.split)
    from keepsD [OF this _ b] p0 show ?thesis by simp
  qed
  let ?w3 = "publish_event (jr_next_seq (wk_journal w)) ev (w2\<lparr>wk_state_dirty := (wk_state_dirty w2 \<or> c)\<rparr>)"
  have "\<not> is_durable (wk_journal w2)" "jr_gap (wk_journal w2) = None"
    using f(1) a(2) by (simp_all add: room_def is_durable_def)
  then have "apply_event_step sample_env ?h ev w = (Ok (), ?w3)"
    using a(1) b r ev by (simp add: apply_event_step_def apply_event_inner_def apply_event_core_def Let_def act_bind_def
        checkpoint_change_def act_update_def act_return_def report_journal_gap_def)
  moreover have "worker_apply_event sample_env ev w = apply_event_step sample_env ?h ev w"
    unfolding worker_apply_event_def by (subst apply_event_nested.simps(2) [symmetric]) simp
  moreover have "serving k n ?w3"
  proof -
    have "exec_part ?w3 = exec_part w" using p2 by (simp add: publish_event_def Let_def exec_part_def)
    then show ?thesis using s f(1,3) a(2) by (simp add: serving_def exec_part_def)
  qed
  ultimately show ?thesis by simp
qed

lemma checkpoint_serving:
  assumes s: "serving (Suc k) n w"
  shows "\<exists>w'. checkpoint sample_env handle closing w = (Ok (), w') \<and> serving k n w'"
proof -
  have weak: "serving k n v" if "serving (Suc k) n v" for v using that by (auto simp: serving_def room_def)
  have hist: "\<exists>w'. checkpoint_history sample_env handle closing b ds v = (Ok (), w') \<and> serving k n w'"
    if "serving k n v" for b ds v
    using that by (auto simp: checkpoint_history_def checkpoint_store_def store_call_def Let_def store_result_def serving_def)
  have rec: "\<exists>x w'. checkpoint_record sample_env handle v = (Ok x, w') \<and> serving k n w'" if v: "serving (Suc k) n v" for v
  proof -
    let ?v = "v\<lparr>wk_state_dirty := False\<rparr>"
    have r: "room (Suc (2 * n + k)) (wk_journal ?v)" using v by (simp add: serving_def)
    let ?data = "cd_object sample_codec [(''revision'', cd_number sample_codec (revision (worker_session ?v))),
        (''state'', cd_state sample_codec (worker_session ?v))]"
    obtain j' where j': "append_entry sample_codec sample_io ''state.revision'' ?data (wk_journal ?v) =
        (Ok (jr_next_seq (wk_journal ?v)), j')" "room (2 * n + k) j'"
      using append_room [OF r, of "''state.revision''" ?data] by blast
    have "\<not> is_durable j'" using j'(2) by (simp add: room_def is_durable_def)
    with j'(1) have "append_state sample_codec sample_io (revision (worker_session ?v))
        (worker_session ?v) (wk_journal ?v) = (Ok (jr_next_seq (wk_journal ?v)), j')"
      by (simp add: append_state_def act_bind_def flush_boundary_def)
    moreover have "jr_gap j' = None" using j'(2) by (simp add: room_def)
    moreover note j'(2)
    ultimately show ?thesis using v
      by (simp add: checkpoint_record_def Let_def act_then_def with_journal_def journal_result_def act_bind_def
          report_journal_gap_def act_return_def serving_def)
  qed
  let ?v = "w\<lparr>wk_dirty_operations := []\<rparr>"
  have v: "serving (Suc k) n ?v" using s by (simp add: serving_def)
  have "\<exists>w'. checkpoint_body sample_env handle closing b ds ?v = (Ok (), w') \<and> serving k n w'" for b ds
  proof (cases b)
    case True
    from rec [OF v] obtain x w1 where "checkpoint_record sample_env handle ?v = (Ok x, w1)" "serving k n w1" by blast
    with hist True show ?thesis by (simp add: checkpoint_body_def act_bind_def)
  next
    case False
    with hist [OF weak [OF v]] show ?thesis by (simp add: checkpoint_body_def act_bind_def act_return_def)
  qed
  with weak [OF v] show ?thesis by (simp add: checkpoint_def Let_def)
qed

definition sample_config :: StartConfig where
  "sample_config =
     \<lparr>st_preferred_mi = ''mi2'', st_fallback_mi = ''mi2'', st_command_timeout = 1000, st_inferior_ring = 1000,
      st_console_ring = 1000, st_memory_read_bytes = 1000, st_max_snapshots = 8, st_total_artifact_bytes = 1000,
      st_max_operations = 8, st_journal_bytes = 10000, st_durability = Performance, st_extension = None\<rparr>"

definition prompt_entry :: "nat \<times> ExecutionInput" where
  "prompt_entry = (0, BackendReady (Some (Mi (as_bytes ''(gdb)'') Prompt)))"

definition sample_spawned :: "string \<Rightarrow> Spawned" where
  "sample_spawned version =
     \<lparr>sp_inbox = prompt_entry # map done_entry [1 ..< 20], sp_filesystem_hardened = False,
      sp_network_isolated = False, sp_pty_path = as_bytes ''/dev/pts/1''\<rparr>"

definition sample_initial :: Worker where
  "sample_initial = initial_worker sample_config DebugControl metrics_default (ring_new 1000) 0 ''sess_w''"

lemma sample_records_read: "records_read (sp_inbox (sample_spawned version))"
proof -
  have "recorded (as_bytes ''(gdb)'') Prompt"
    by (simp add: parse_record_def trim_ascii_def is_ascii_whitespace_def byte_of_char_def default_limits_def)
  then show ?thesis
    using done_recorded by (auto simp: records_read_def sample_spawned_def prompt_entry_def done_entry_def)
qed

lemma prompt_serving:
  assumes inbox: "wk_inbox w = prompt_entry # rest" and r: "room (Suc k) (wk_journal w)"
  shows "\<exists>j'. wait_for_prompt sample_env deadline w =
      (Ok (), w\<lparr>wk_inbox := rest, wk_journal := j', wk_calls := wk_calls w + 1\<rparr>) \<and> room k j' \<and>
      jr_next_seq (wk_journal w) \<le> jr_next_seq j'"
proof -
  let ?w = "w\<lparr>wk_inbox := rest\<rparr>"
  have "room (Suc k) (wk_journal ?w)" using r by simp
  from with_room [OF this] obtain j' where
    "with_journal sample_env (\<lambda>io. append_mi_output sample_codec io (as_bytes ''(gdb)'')) ?w =
      (Ok (jr_next_seq (wk_journal ?w)), ?w\<lparr>wk_journal := j', wk_calls := wk_calls ?w + 1\<rparr>)" "room k j'"
      "jr_next_seq j' = Suc (jr_next_seq (wk_journal ?w))"
    unfolding append_mi_output_def append_base64_def by blast
  then show ?thesis
    using inbox by (subst wait_for_prompt.simps, intro exI [of _ j'])
      (simp add: prompt_entry_def startup_record_def act_bind_def act_return_def)
qed

lemma sample_bootstrap:
  assumes "room 50 (wk_journal w)" "\<not> wk_fatal w" "wk_timed_out_tokens w = {}" "wk_interrupt_fallback_at w = None"
    "wk_next_token w = 1" "event_seq (worker_session w) < jr_next_seq (wk_journal w)"
  shows "\<exists>w'. bootstrap sample_env sample_spawned sample_config w = (Ok (), w') \<and> serving 0 0 w'"
proof -
  let ?w1 = "w\<lparr>wk_calls := wk_calls w + 2, wk_inbox := sp_inbox (sample_spawned ''mi2'')\<rparr>"
  have "wk_inbox ?w1 = prompt_entry # map done_entry [1 ..< 20]" "room (Suc 49) (wk_journal ?w1)"
    using assms(1) by (simp_all add: sample_spawned_def)
  from prompt_serving [OF this, of "wk_now ?w1 + wk_command_timeout ?w1"] obtain j' where
    p: "wait_for_prompt sample_env (wk_now ?w1 + wk_command_timeout ?w1) ?w1 =
      (Ok (), ?w1\<lparr>wk_inbox := map done_entry [1 ..< 20], wk_journal := j', wk_calls := wk_calls ?w1 + 1\<rparr>)"
      "room 49 j'" "jr_next_seq (wk_journal w) \<le> jr_next_seq j'" by auto
  let ?w2 = "?w1\<lparr>wk_inbox := map done_entry [1 ..< 20], wk_journal := j', wk_calls := wk_calls ?w1 + 1\<rparr>"
  let ?w3 = "describe (sample_spawned ''mi2'') ?w2"
  have pre: "act_bind (outside_calls sample_env 1) (\<lambda>_. first_prompt sample_env sample_spawned None (mi_versions sample_config)) w
      = (Ok ''mi2'', ?w2)"
    using p(1) by (simp add: act_bind_def act_then_def act_return_def backend_call_def spawn_def act_update_def
        mi_versions_def sample_config_def del: upt_Suc)
  have "serving 2 19 ?w3"
  proof -
    have "room (2 * 19 + 2) j'" using p(2) by (auto simp: room_def)
    then show ?thesis using assms by (simp add: serving_def describe_def u64_max_def del: upt_Suc)
  qed
  moreover have "event_seq (worker_session ?w3) < jr_next_seq (wk_journal ?w3)" using assms(6) p(3) by (simp add: describe_def)
  ultimately obtain w4 where w4: "handle_event sample_env BackendStarted ?w3 = (Ok (), w4)" "serving 1 19 w4"
    using event_serving [of 1 19 ?w3 BackendStarted] by (auto simp: numeral_2_eq_2)
  from handshake_serving [of "''mi2''" 1 "sp_pty_path (sample_spawned ''mi2'')"] w4(2) obtain x w5 where
    w5: "handshake sample_env ''mi2'' (sp_pty_path (sample_spawned ''mi2'')) w4 = (Ok x, w5)" "serving 1 0 w5"
    by (auto simp: succeeds_def)
  from checkpoint_serving [of 0 0 w5 "handle_event sample_env" True] w5(2) obtain w6 where
    w6: "checkpoint sample_env (handle_event sample_env) True w5 = (Ok (), w6)" "serving 0 0 w6" by auto
  from pre obtain w0 where "outside_calls sample_env 1 w = (Ok (), w0)"
      "first_prompt sample_env sample_spawned None (mi_versions sample_config) w0 = (Ok ''mi2'', ?w2)"
    by (auto simp: act_bind_Ok simp del: upt_Suc first_prompt.simps outside_calls.simps)
  moreover have "load_extension sample_env (st_extension sample_config) w5 = (Ok (), w5)"
    by (simp add: load_extension_def sample_config_def act_return_def)
  ultimately have "bootstrap sample_env sample_spawned sample_config w = (Ok (), w6)"
    using w4(1) w5(1) w6(1)
    by (simp only: bootstrap_def act_bind_def act_update_def prod.case sum.case)
  with w6(2) show ?thesis by blast
qed

lemma sample_started:
  "\<exists>w. session_start sample_env sample_spawned sample_config ''sess_w'' sample_initial = (Ok (), w) \<and> serving 0 0 w"
proof -
  let ?w1 = "sample_initial\<lparr>wk_calls := 4\<rparr>"
  have o: "outside_calls sample_env 4 sample_initial = (Ok (), ?w1)"
    by (simp add: eval_nat_numeral act_bind_def backend_call_def act_return_def sample_initial_def initial_worker_def Let_def)
  have "room (Suc 50) (wk_journal ?w1)"
    by (simp add: sample_initial_def initial_worker_def Let_def room_def create_with_durability_def sample_config_def u64_max_def)
  from with_room [OF this] obtain j' where
    j: "with_journal sample_env (\<lambda>io. append_session_created sample_codec io ''sess_w'') ?w1 =
      (Ok (jr_next_seq (wk_journal ?w1)), ?w1\<lparr>wk_journal := j', wk_calls := wk_calls ?w1 + 1\<rparr>)" "room 50 j'"
      "jr_next_seq j' = Suc (jr_next_seq (wk_journal ?w1))"
    unfolding append_session_created_def by blast
  let ?w2 = "?w1\<lparr>wk_journal := j', wk_calls := wk_calls ?w1 + 1\<rparr>"
  have "worker_session ?w2 = creating ''sess_w''"
    by (simp add: sample_initial_def initial_worker_def Let_def live_new_def live_borrow_def)
  then have "event_seq (worker_session ?w2) < jr_next_seq (wk_journal ?w2)" using j(3) by (simp add: creating_def)
  moreover have "\<not> wk_fatal ?w2" "wk_timed_out_tokens ?w2 = {}" "wk_interrupt_fallback_at ?w2 = None" "wk_next_token ?w2 = 1"
    by (simp_all add: sample_initial_def initial_worker_def Let_def)
  ultimately obtain w3 where w3: "bootstrap sample_env sample_spawned sample_config ?w2 = (Ok (), w3)" "serving 0 0 w3"
    using sample_bootstrap [of ?w2] j(2) by auto
  have "session_start sample_env sample_spawned sample_config ''sess_w'' sample_initial =
      (Ok (), (upd_metrics session_started w3)\<lparr>wk_metric_active := True\<rparr>)"
    using o j(1) w3(1) by (simp add: session_start_def act_bind_def act_update_def)
  moreover have "serving 0 0 ((upd_metrics session_started w3)\<lparr>wk_metric_active := True\<rparr>)"
    using w3(2) by (simp add: serving_def)
  ultimately show ?thesis by blast
qed

end
