(* ===== verification/Worker_Run.thy ===== *)
theory Worker_Run
  imports Worker_Sample
begin

text \<open>
  The life of a session: it starts, input and control requests arrive, and the main loop serves them one
  iteration at a time.  The properties here compose the actor with the journal, the reducer and replay.
\<close>

section \<open>Steps of a session\<close>

text \<open>An iteration of the main loop after which the loop goes on, or the arrival of something for the
  command in flight.  GDB's reader hands over a line together with its parse.  An iteration in which the
  delayed interrupt could not be delivered is left out: it marks the state as failed behind the journal's
  back.\<close>

definition faithful_input :: "BackendInput \<Rightarrow> bool" where
  "faithful_input input = (case input of Mi raw rd \<Rightarrow> recorded raw rd | _ \<Rightarrow> True)"

inductive session_step :: "WorkerEnv \<Rightarrow> Worker \<Rightarrow> Worker \<Rightarrow> bool" for env where
  arrives: "(\<And>b. x = BackendReady (Some b) \<Longrightarrow> faithful_input b) \<Longrightarrow>
    session_step env w (w\<lparr>wk_inbox := wk_inbox w @ [(t, x)]\<rparr>)"
| iterates: "run_iteration env t input w = (False, w') \<Longrightarrow>
    (\<And>b. input = RunBackend (Some b) \<Longrightarrow> faithful_input b) \<Longrightarrow> input \<noteq> FallbackDue \<Longrightarrow>
    session_step env w w'"
| interrupts: "run_iteration env t FallbackDue w = (False, w') \<Longrightarrow>
    is_ok (fst (escalate_acknowledged_interrupt env
      ((rebind_first env w)\<lparr>wk_now := max (wk_now (rebind_first env w)) t\<rparr>))) \<Longrightarrow>
    session_step env w w'"


inductive_cases session_stepE: "session_step env w w'"



section \<open>Replay of a live session\<close>




section \<open>Commands come to an end\<close>

lemma begin_token:
  assumes "begin_command env c w = (Ok tok, w1)"
  shows "tok = wk_next_token w" "wk_next_token w1 = Suc tok" "wk_lines w1 = wk_lines w @ [encoded c tok]"
    "wk_timed_out_tokens w1 = wk_timed_out_tokens w"
proof -
  let ?w0 = "w\<lparr>wk_next_token := wk_next_token w + 1\<rparr>"
  from assms obtain n w2 where tok: "tok = wk_next_token w"
      and j: "journaled env (\<lambda>io. append_mi_input (ev_codec env) io tok (encoded c tok)) ?w0 = (Ok n, w2)"
      and w1: "w1 = w2\<lparr>wk_calls := wk_calls w2 + 1, wk_lines := wk_lines w2 @ [encoded c tok]\<rparr>"
    by (auto simp: begin_command_def act_bind_Ok take_token_def send_line_def backend_call_def act_update_def
        act_return_def require_known_outcome_def require_known_outcome_name_def split: if_splits)
  have "event_frame (\<lambda>v. exec_part v = exec_part ?w0)" by (simp add: event_frame_def)
  from keepsD [OF frame_journaled [OF this] refl j] have "exec_part w2 = exec_part ?w0" .
  with tok w1 show "tok = wk_next_token w" "wk_next_token w1 = Suc tok" "wk_lines w1 = wk_lines w @ [encoded c tok]"
      "wk_timed_out_tokens w1 = wk_timed_out_tokens w"
    by (simp_all add: exec_part_def)
qed



text \<open>C3.  An unknown outcome fences GDB: while the outcome of an earlier command is unknown, no command but
  an interrupt is begun, and the refusal changes nothing; a command that is begun sends exactly one line,
  under the next token, and advances the counter, so no token is used twice; a command that is not begun
  has sent nothing.\<close>

theorem unknown_outcome_fences:
  assumes "begin_command env c w = (r, w')"
  shows "case r of
       Ok tok \<Rightarrow> (wk_timed_out_tokens w = {} \<or> cmd_name c = ''-exec-interrupt'') \<and> tok = wk_next_token w \<and>
         wk_next_token w' = Suc tok \<and> wk_lines w' = wk_lines w @ [encoded c tok]
     | Err e \<Rightarrow> wk_lines w' = wk_lines w \<and>
         (if wk_timed_out_tokens w = {} \<or> cmd_name c = ''-exec-interrupt'' then wk_next_token w' \<ge> wk_next_token w
          else err_code e = GdbUnresponsive \<and> w' = w)"
proof (cases "wk_timed_out_tokens w = {} \<or> cmd_name c = ''-exec-interrupt''")
  case False
  with assms show ?thesis
    by (auto simp: begin_command_def require_known_outcome_def require_known_outcome_name_def act_bind_def new_error_def)
next
  case True
  then have known: "require_known_outcome env c w = (Ok (), w)"
    by (auto simp: require_known_outcome_def require_known_outcome_name_def)
  show ?thesis
  proof (cases r)
    case (Inr tok)
    with assms begin_token [of env c w tok w'] True show ?thesis by simp
  next
    case (Inl e)
    have "wk_lines w' = wk_lines w \<and> wk_next_token w' \<ge> wk_next_token w"
    proof (cases "wk_next_token w + 1 > u64_max")
      case True
      with assms known show ?thesis by (auto simp: begin_command_def act_bind_def take_token_def)
    next
      case False
      let ?tok = "wk_next_token w"
      let ?w0 = "w\<lparr>wk_next_token := ?tok + 1\<rparr>"
      let ?m = "journaled env (\<lambda>io. append_mi_input (ev_codec env) io ?tok (encoded c ?tok))"
      obtain q w2 where j: "?m ?w0 = (q, w2)" by (cases "?m ?w0")
      have "event_frame (\<lambda>v. exec_part v = exec_part ?w0)" by (simp add: event_frame_def)
      from keepsD [OF frame_journaled [OF this] refl j] have "exec_part w2 = exec_part ?w0" .
      with assms known False j Inl show ?thesis
        by (cases q) (auto simp: begin_command_def act_bind_def take_token_def send_line_def backend_call_def
            act_update_def act_return_def exec_part_def split: sum.splits)
    qed
    with Inl True show ?thesis by simp
  qed
qed

text \<open>After a timeout: another command is refused and the worker is unchanged.\<close>

theorem unknown_outcome_fences_witness:
  "\<exists>e. begin_command sample_env \<lparr>cmd_name = ''-stack-info-depth'', cmd_arguments = []\<rparr>
     (sample_initial\<lparr>wk_timed_out_tokens := {7}\<rparr>) = (Err e, sample_initial\<lparr>wk_timed_out_tokens := {7}\<rparr>) \<and>
     err_code e = GdbUnresponsive"
proof -
  let ?c = "\<lparr>cmd_name = ''-stack-info-depth'', cmd_arguments = []\<rparr>"
  let ?w = "sample_initial\<lparr>wk_timed_out_tokens := {7}\<rparr>"
  obtain r w' where run: "begin_command sample_env ?c ?w = (r, w')" by (cases "begin_command sample_env ?c ?w")
  from unknown_outcome_fences [OF run] run show ?thesis by (cases r) auto
qed

end
