(* ===== verification/Spec2Isabelle.thy ===== *)
theory Spec2Isabelle
  imports MI_Framer MI_Roundtrip Byte_Ring Reducer_Events Normalize Mi_Command Live_State Replay_Sound
    Worker_Run
begin

text \<open>
  Verification of GDB/AI, the service that drives GNU GDB through its machine interface (MI) for
  software agents.

  \<^bold>\<open>The program.\<close>  A session owns one GDB process.  GDB's output bytes are cut into records
  (\<open>gdb-ai-mi\<close>: framer, parser), each record is normalised to a domain event, the event is journaled
  and reduced into the session state, and the state is checkpointed, published to readers and
  recorded in a database.  Commands travel the other way: the gateway checks the caller's profile,
  builds MI commands and the session worker sends them and matches their results.  A journal can be
  replayed later to rebuild and certify the state.

  \<^bold>\<open>Theories and sources\<close> (paths below \<open>src/crates\<close>).
  \<^item> \<open>GDB_Prelude\<close>, \<open>BTree_Map\<close>, \<open>Json\<close>, \<open>Actions\<close>: the vocabulary of Rust's standard library that the
    sources use (bytes, strings, results, ordered maps, JSON values, fallible methods on a state).
  \<^item> \<open>MI_Ast\<close>, \<open>MI_Framer\<close>, \<open>MI_Parser\<close>, \<open>MI_Parser_Sound\<close>, \<open>MI_Encoder\<close>, \<open>MI_Roundtrip\<close>: the crate
    \<open>gdb-ai-mi\<close> (\<open>ast.rs\<close>, \<open>framer.rs\<close>, \<open>parser.rs\<close>, \<open>encoder.rs\<close>).  The framer does not depend on how
    the bytes are chunked and implements a line splitter; the parser returns on every input,
    respects its limits, locates its errors and reads back every well-formed record.
  \<^item> \<open>Byte_Ring\<close>: the output ring (\<open>gdb-ai-core/src/ring.rs\<close>) refines the history of all bytes.
  \<^item> \<open>Domain\<close>, \<open>Reducer\<close>, \<open>Reducer_Registry\<close>, \<open>Reducer_Inv\<close>, \<open>Reducer_Props\<close>, \<open>Reducer_Events\<close>:
    identifiers, state and events (\<open>domain.rs\<close>, \<open>error.rs\<close>) and the state machine (\<open>reducer.rs\<close>).
    One invariant holds in every reachable state; stop and thread handles are never reused; taint
    is permanent; failing closed is safe; every branch of the reduction has its functional lemma.
  \<^item> \<open>Normalize\<close>: from MI records to events and back to bytes in replies (\<open>normalize.rs\<close>).
  \<^item> \<open>Policy\<close>, \<open>Encoding\<close>, \<open>Mi_Command\<close>: profiles and methods (\<open>policy.rs\<close>, \<open>protocol.rs\<close>), the value
    codecs and parameters of requests (\<open>gateway/operations/encoding.rs\<close>, \<open>request.rs\<close>), and commands
    up to the bytes that are sent (\<open>backend.rs\<close>, \<open>gateway/operations/raw.rs\<close>).
  \<^item> \<open>Journal\<close>, \<open>Replay\<close>, \<open>Replay_Sound\<close>: the journal (\<open>journal.rs\<close>) in both durability modes and its
    replay (\<open>replay.rs\<close>): what is written, what a durable boundary means, and what an accepted
    journal certifies.
  \<^item> \<open>Live_State\<close>, \<open>Metrics\<close>, \<open>Worker\<close>, \<open>Worker_Depth\<close>, \<open>Worker_Inv\<close>: the session worker
    (\<open>session/state.rs\<close>, \<open>metrics.rs\<close>, \<open>session/actor.rs\<close>): applying an event with its journal record,
    reduction, checkpoint, publication and stop snapshot; the nesting of these methods is bounded, and
    \<open>worker_invariant\<close> is the contract under which they keep a predicate.
  \<^item> \<open>Worker_Exec\<close>, \<open>Worker_Loop\<close>, \<open>Worker_Keep\<close>, \<open>Worker_Execute\<close>: a command of the worker
    (\<open>begin_command\<close> to \<open>execute_operation_until\<close>), the loop that waits for its result while control
    requests, input and timers arrive, and closing the session.
  \<^item> \<open>Tracking\<close>, \<open>Worker_Requests\<close>, \<open>Worker_Serve\<close>, \<open>Worker_Serve_Inv\<close>: the requests
    (\<open>handle_request\<close>, \<open>handle_control\<close>) with the routines they use, and the iterations of \<open>run\<close>; the
    locales \<open>session_invariant\<close>, \<open>exec_invariant\<close> and \<open>loop_invariant\<close> carry a predicate through them.
  \<^item> \<open>Worker_Start\<close>: the start of a session (\<open>SessionHandle::start\<close> of \<open>session.rs\<close>; \<open>bootstrap\<close>,
    \<open>handshake\<close>, \<open>load_extension\<close>, \<open>wait_for_prompt\<close> of \<open>session/actor.rs\<close>).
  \<^item> \<open>Worker_Replay\<close>, \<open>Worker_Live\<close>, \<open>Worker_Sample\<close>, \<open>Worker_Run\<close>: what a whole session promises.
    Until it fails, the journal of a running session replays to the live state; a command has returned
    by its deadline; a command whose outcome is unknown fences the next ones.  \<open>Worker_Sample\<close> gives a
    surrounding in which a session starts and answers, so that the hypotheses can hold together.
  \<^item> This theory: properties that span components.

  \<^bold>\<open>Correspondence.\<close>  Structs are records, enums datatypes, \<open>BTreeMap\<close>s key-sorted association
  lists, a \<open>Result\<close> is a sum with the error on the left, and a method on \<open>&mut self\<close> is a function
  from the state to a result and the next state, errors included.  \<open>u8\<close> is an 8-bit word; \<open>usize\<close> and
  \<open>u64\<close> are natural numbers with the bound written out where the code saturates, refuses or wraps;
  the counters of \<open>Metrics\<close> are 64-bit words.

  \<^bold>\<open>Parameters.\<close>  Other crates and the outside world are arguments: JSON text and base64 (\<open>Codec\<close>),
  the answers of the operating system to the journal (\<open>JournalIo\<close>), the database, clock and
  identifier generator of the worker (\<open>WorkerEnv\<close>).  Theorems hold for all their values; where a
  theorem relies on documented behaviour of a codec this is a named hypothesis, and a witness shows
  it at a concrete instance.

  \<^bold>\<open>Bounds and fuel.\<close>  The parser's mutual recursion is a \<open>partial_function\<close> into options and is
  shown to return always.  The worker's methods call each other; \<open>apply_event_nested\<close> bounds the
  nesting and \<open>apply_event_depth\<close> shows that four levels give the value of the unbounded recursion.
  The loop that waits for a result and the one that waits for the first prompt end by the input still
  to be delivered and by their timers: when nothing more is delivered the deadline passes, which is
  the termination proof of \<open>exec_loop\<close> and \<open>wait_for_prompt\<close>.  A session is an inductive relation,
  \<open>session_step\<close>, over the iterations of \<open>run\<close>, with no bound on their number.  Every other loop is a
  total function.

  \<^bold>\<open>Not modelled.\<close>  The asynchronous shell around the worker: tasks, sockets and HTTP, and the
  sending side of its channels (\<open>session.rs\<close> clients, \<open>gateway.rs\<close>, \<open>server\<close>); what the channels and
  the clock deliver to the worker is a sequence in its state; processes, pseudo-terminals and sandboxing
  (\<open>backend.rs\<close>); SQL (\<open>persistence.rs\<close>, whose outcome is a parameter) and files (\<open>artifact.rs\<close>,
  \<open>providers.rs\<close>); JSON schema documents (\<open>contracts.rs\<close>, the tables of \<open>protocol.rs\<close>); the
  floating-point rendering of metrics; and the gateway operations that only sequence MI commands
  whose replies come from GDB.
\<close>

section \<open>Debugger output and the session state\<close>



end
